(* ===== verification/Prelude.thy ===== *)
theory Prelude
  imports Main "HOL-Library.Word" "HOL-Library.List_Lexorder" "HOL-Library.Multiset"
begin

text \<open>
  Shared vocabulary of the development: the collections of simplification rules
  that the component theories feed, and generic facts about lists (stripping both
  ends of a list, searching and updating a list of rows by key) that several
  components use.  Nothing here models code of the repository.
\<close>

named_theorems js_eval \<open>definitions that evaluate the string library on literals\<close>
named_theorems tx_eval \<open>rules that run a transaction step by step\<close>
named_theorems tx_inv \<open>rules that take a successful run of a transaction apart\<close>
named_theorems row_simps \<open>facts about a table of rows that is searched or updated by key\<close>

section \<open>Stripping both ends of a list\<close>

definition strip_both :: "('a \<Rightarrow> bool) \<Rightarrow> 'a list \<Rightarrow> 'a list" where
  "strip_both P xs = rev (dropWhile P (rev (dropWhile P xs)))"

lemma dropWhile_id_iff: "dropWhile P xs = xs \<longleftrightarrow> xs = [] \<or> \<not> P (hd xs)"
proof (cases xs)
  case (Cons a list)
  have "length (dropWhile P list) < length (a # list)"
    using length_dropWhile_le [of P list] by simp
  then have "dropWhile P list \<noteq> a # list" by force
  with Cons show ?thesis by simp
qed simp

lemma strip_both_id:
  "xs = [] \<or> (\<not> P (hd xs) \<and> \<not> P (last xs)) \<Longrightarrow> strip_both P xs = xs"
  using dropWhile_id_iff [of P xs] dropWhile_id_iff [of P "rev xs"]
  by (cases "xs = []") (auto simp: strip_both_def hd_rev)

lemma strip_both_Nil [simp]: "strip_both P [] = []"
  by (simp add: strip_both_def)

lemma strip_both_eq_Nil: "strip_both P xs = [] \<longleftrightarrow> (\<forall>x\<in>set xs. P x)"
proof
  assume "strip_both P xs = []"
  then have *: "\<forall>x\<in>set (dropWhile P xs). P x" by (simp add: strip_both_def)
  then have "dropWhile P xs = []"
    using hd_dropWhile [of P xs] by (metis list.set_sel(1))
  then show "\<forall>x\<in>set xs. P x" by simp
next
  assume "\<forall>x\<in>set xs. P x"
  then have "dropWhile P xs = []" by simp
  then show "strip_both P xs = []" unfolding strip_both_def by (simp only: rev.simps dropWhile.simps)
qed

lemma strip_both_decomp:
  "\<exists>u v. xs = u @ strip_both P xs @ v \<and> (\<forall>x\<in>set u. P x) \<and> (\<forall>x\<in>set v. P x)"
proof -
  let ?d = "dropWhile P xs"
  have "rev ?d = takeWhile P (rev ?d) @ dropWhile P (rev ?d)" by simp
  then have "?d = rev (dropWhile P (rev ?d)) @ rev (takeWhile P (rev ?d))"
    by (metis rev_append rev_rev_ident)
  moreover have "xs = takeWhile P xs @ ?d" by simp
  ultimately have "xs = takeWhile P xs @ strip_both P xs @ rev (takeWhile P (rev ?d))"
    by (simp add: strip_both_def)
  moreover have "\<forall>x\<in>set (takeWhile P xs). P x" by (auto dest: set_takeWhileD)
  moreover have "\<forall>x\<in>set (rev (takeWhile P (rev ?d))). P x" by (auto dest: set_takeWhileD)
  ultimately show ?thesis by blast
qed

lemma set_strip_both: "set (strip_both P xs) \<subseteq> set xs"
  using strip_both_decomp [of xs P] by (metis Un_iff set_append subsetI)

lemma strip_both_ends:
  assumes "strip_both P xs \<noteq> []"
  shows "\<not> P (hd (strip_both P xs))" and "\<not> P (last (strip_both P xs))"
proof -
  let ?e = "dropWhile P (rev (dropWhile P xs))"
  have ne: "?e \<noteq> []" using assms by (simp add: strip_both_def)
  then show "\<not> P (last (strip_both P xs))"
    using hd_dropWhile [of P "rev (dropWhile P xs)"] by (simp add: strip_both_def last_rev)
  obtain w where w: "rev (dropWhile P xs) = w @ ?e"
    by (metis takeWhile_dropWhile_id)
  have "last ?e = hd (dropWhile P xs)"
    using ne w by (metis hd_rev last_appendR rev_rev_ident)
  moreover have "dropWhile P xs \<noteq> []" using ne by (metis dropWhile.simps(1) rev.simps(1))
  ultimately show "\<not> P (hd (strip_both P xs))"
    using ne hd_dropWhile [of P xs] by (simp add: strip_both_def hd_rev)
qed

lemma strip_both_idem [simp]: "strip_both P (strip_both P xs) = strip_both P xs"
  using strip_both_ends [of P xs] by (intro strip_both_id) auto

lemma dropWhile_map_inv:
  "(\<And>x. x \<in> set xs \<Longrightarrow> P (f x) = P x) \<Longrightarrow> dropWhile P (map f xs) = map f (dropWhile P xs)"
  by (induction xs) auto

lemma strip_both_map:
  assumes "\<And>x. x \<in> set xs \<Longrightarrow> P (f x) = P x"
  shows "strip_both P (map f xs) = map f (strip_both P xs)"
proof -
  have "dropWhile P (map f xs) = map f (dropWhile P xs)"
    using assms by (rule dropWhile_map_inv)
  moreover have "dropWhile P (map f (rev (dropWhile P xs))) = map f (dropWhile P (rev (dropWhile P xs)))"
    using assms by (intro dropWhile_map_inv) (auto dest: set_dropWhileD)
  ultimately show ?thesis by (simp add: strip_both_def rev_map)
qed

lemma strip_both_pad:
  assumes "\<forall>x\<in>set u. P x" and "\<forall>x\<in>set v. P x"
  shows "strip_both P (u @ xs @ v) = strip_both P xs"
proof -
  have 1: "dropWhile P (u @ xs @ v) = dropWhile P (xs @ v)"
    using assms(1) by (intro dropWhile_append2) blast
  show ?thesis
  proof (cases "\<forall>x\<in>set xs. P x")
    case True
    with assms have "strip_both P (u @ xs @ v) = []" and "strip_both P xs = []"
      by (auto simp: strip_both_eq_Nil)
    then show ?thesis by simp
  next
    case False
    then have "dropWhile P (xs @ v) = dropWhile P xs @ v"
      by (meson dropWhile_append1)
    with 1 show ?thesis
      using assms(2) dropWhile_append2 [of "rev v" P "rev (dropWhile P xs)"]
      by (simp add: strip_both_def)
  qed
qed

section \<open>Tables: lists of rows searched and updated by key\<close>

text \<open>
  A database table is the list of its rows.  \<open>row_find\<close> returns the first row with
  the key, \<open>row_update\<close> changes every row with the key.
\<close>

definition row_find :: "('r \<Rightarrow> 'k) \<Rightarrow> 'k \<Rightarrow> 'r list \<Rightarrow> 'r option" where
  "row_find key k rows = find (\<lambda>r. key r = k) rows"

definition row_update :: "('r \<Rightarrow> 'k) \<Rightarrow> 'k \<Rightarrow> ('r \<Rightarrow> 'r) \<Rightarrow> 'r list \<Rightarrow> 'r list" where
  "row_update key k f rows = map (\<lambda>r. if key r = k then f r else r) rows"

lemma row_find_Nil [row_simps, simp]: "row_find key k [] = None"
  by (simp add: row_find_def)

lemma row_find_Cons [row_simps, simp]:
  "row_find key k (r # rs) = (if key r = k then Some r else row_find key k rs)"
  by (simp add: row_find_def)

lemma row_find_SomeD: "row_find key k rows = Some r \<Longrightarrow> r \<in> set rows \<and> key r = k"
  by (auto simp: row_find_def find_Some_iff)

lemma row_find_None_iff [row_simps]: "row_find key k rows = None \<longleftrightarrow> k \<notin> key ` set rows"
  by (auto simp: row_find_def find_None_iff)

lemma row_find_append:
  "row_find key k (xs @ ys) = (case row_find key k xs of None \<Rightarrow> row_find key k ys | Some r \<Rightarrow> Some r)"
  by (induction xs) auto

lemma row_find_iff:
  "distinct (map key rows) \<Longrightarrow> row_find key k rows = Some r \<longleftrightarrow> r \<in> set rows \<and> key r = k"
  by (induction rows) (auto simp: image_iff)

lemma row_update_Nil [row_simps, simp]: "row_update key k f [] = []"
  by (simp add: row_update_def)

lemma row_update_Cons [row_simps, simp]:
  "row_update key k f (r # rs) = (if key r = k then f r else r) # row_update key k f rs"
  by (simp add: row_update_def)

lemma length_row_update [row_simps, simp]: "length (row_update key k f rows) = length rows"
  by (simp add: row_update_def)

lemma row_update_keys:
  "(\<And>r. key r = k \<Longrightarrow> key' (f r) = key' r) \<Longrightarrow> map key' (row_update key k f rows) = map key' rows"
  by (induction rows) auto

lemma row_update_absent: "k \<notin> key ` set rows \<Longrightarrow> row_update key k f rows = rows"
  by (induction rows) auto

lemma row_find_update:
  "(\<And>r. key r = k \<Longrightarrow> key (f r) = k) \<Longrightarrow>
   row_find key j (row_update key k f rows) =
     (if j = k then map_option f (row_find key k rows) else row_find key j rows)"
  by (induction rows) auto

lemma in_row_update:
  "r \<in> set (row_update key k f rows) \<longleftrightarrow>
     (\<exists>r0\<in>set rows. r = (if key r0 = k then f r0 else r0))"
  by (simp only: row_update_def set_map image_iff)

lemma row_find_new:
  "k \<notin> key ` set rows \<Longrightarrow> row_find key k (rows @ [r]) = (if key r = k then Some r else None)"
  by (simp add: row_find_append row_find_None_iff [symmetric])

lemma row_update_append:
  "row_update key k f (xs @ ys) = row_update key k f xs @ row_update key k f ys"
  by (simp add: row_update_def)

lemma find_append: "find P (xs @ ys) = (case find P xs of None \<Rightarrow> find P ys | Some x \<Rightarrow> Some x)"
  by (induction xs) auto

lemma row_update_twice:
  "(\<And>r. key r = k \<Longrightarrow> key (f r) = k) \<Longrightarrow>
   row_update key k g (row_update key k f rows) = row_update key k (\<lambda>r. g (f r)) rows"
  by (induction rows) auto

end
