(* ===== verification/Js_String.thy ===== *)
theory Js_String
  imports Prelude
begin

text \<open>
  JavaScript strings, as the source uses them.  A string is the list of its UTF-16
  code units (what \<open>length\<close>, \<open>charCodeAt\<close> and \<open>slice\<close> count), and a code unit is a
  16-bit word.  The operations are the ones the repository calls: \<open>trim\<close>,
  \<open>split\<close> with a one-character separator, \<open>toLowerCase\<close>, \<open>slice\<close>, and the character
  classes of its regular expressions.  \<open>js\<close> turns an ASCII literal into a string.

  \<open>to_lower\<close> maps the letters of Latin-1 and leaves every other unit alone.  The
  source lower-cases a header value (which Node decodes as Latin-1) and strings
  that it then compares with ASCII constants containing no \<open>k\<close>, so no unit outside
  Latin-1 can make a difference to a result.
\<close>

section \<open>Code units and literals\<close>

type_synonym code_unit = "16 word"
type_synonym jsstr = "code_unit list"

definition js :: "string \<Rightarrow> jsstr" where
  "js s = map of_char s"

lemmas js_literal [js_eval] = js_def

definition js_spaces :: "code_unit list" where
  "js_spaces = [0x9, 0xA, 0xB, 0xC, 0xD, 0x20, 0xA0, 0x1680, 0x2000, 0x2001, 0x2002, 0x2003,
     0x2004, 0x2005, 0x2006, 0x2007, 0x2008, 0x2009, 0x200A, 0x2028, 0x2029, 0x202F, 0x205F,
     0x3000, 0xFEFF]"

definition is_space :: "code_unit \<Rightarrow> bool" where
  "is_space c \<longleftrightarrow> List.member js_spaces c"

definition is_digit :: "code_unit \<Rightarrow> bool" where
  "is_digit c \<longleftrightarrow> 0x30 \<le> c \<and> c \<le> 0x39"

definition is_hex :: "code_unit \<Rightarrow> bool" where
  "is_hex c \<longleftrightarrow> is_digit c \<or> (0x41 \<le> c \<and> c \<le> 0x46) \<or> (0x61 \<le> c \<and> c \<le> 0x66)"

definition is_upper :: "code_unit \<Rightarrow> bool" where
  "is_upper c \<longleftrightarrow> 0x41 \<le> c \<and> c \<le> 0x5A"

definition is_printable :: "code_unit \<Rightarrow> bool" where
  "is_printable c \<longleftrightarrow> 0x20 \<le> c \<and> c \<le> 0x7E"

section \<open>Operations\<close>

definition trim :: "jsstr \<Rightarrow> jsstr" where
  "trim s = strip_both is_space s"

definition lower_unit :: "code_unit \<Rightarrow> code_unit" where
  "lower_unit c =
     (if is_upper c \<or> (0xC0 \<le> c \<and> c \<le> 0xDE \<and> c \<noteq> 0xD7) then c + 0x20 else c)"

definition to_lower :: "jsstr \<Rightarrow> jsstr" where
  "to_lower s = map lower_unit s"

fun split_on :: "code_unit \<Rightarrow> jsstr \<Rightarrow> jsstr list" where
  "split_on d [] = [[]]"
| "split_on d (c # cs) =
     (if c = d then [] # split_on d cs
      else (case split_on d cs of [] \<Rightarrow> [[c]] | w # ws \<Rightarrow> (c # w) # ws))"

text \<open>\<open>s.replace(/\s+/g, ' ')\<close>: every maximal run of white space becomes one space.\<close>

function collapse_spaces :: "jsstr \<Rightarrow> jsstr" where
  "collapse_spaces [] = []"
| "collapse_spaces (c # cs) =
     (if is_space c then 0x20 # collapse_spaces (dropWhile is_space cs)
      else c # collapse_spaces cs)"
  by pat_completeness auto
termination
  by (relation "measure length") (auto simp: length_dropWhile_le le_imp_less_Suc)

text \<open>\<open>s.replace(/[^\x20-\x7E]/g, ' ')\<close>.\<close>

definition blank_unprintable :: "jsstr \<Rightarrow> jsstr" where
  "blank_unprintable s = map (\<lambda>c. if is_printable c then c else 0x20) s"

text \<open>The decimal value of a string of digits, and the digits of a number.\<close>

definition digit_val :: "code_unit \<Rightarrow> nat" where
  "digit_val c = unat c - 0x30"

definition digits_val :: "jsstr \<Rightarrow> nat" where
  "digits_val s = foldl (\<lambda>n c. 10 * n + digit_val c) 0 s"

definition digit_unit :: "nat \<Rightarrow> code_unit" where
  "digit_unit n = 0x30 + of_nat n"

fun nat_digits :: "nat \<Rightarrow> jsstr" where
  "nat_digits n = (if n < 10 then [digit_unit n] else nat_digits (n div 10) @ [digit_unit (n mod 10)])"

declare nat_digits.simps [simp del]

definition int_string :: "int \<Rightarrow> jsstr" where
  "int_string n = (if n < 0 then 0x2D # nat_digits (nat (- n)) else nat_digits (nat n))"

lemmas string_defs [js_eval] =
  js_def js_spaces_def is_space_def is_digit_def is_hex_def is_upper_def is_printable_def trim_def
  strip_both_def lower_unit_def to_lower_def blank_unprintable_def digit_val_def digits_val_def
  digit_unit_def

section \<open>Facts about characters\<close>

text \<open>Comparisons of code units become comparisons of natural numbers.\<close>

lemmas unit_nat = word_le_nat_alt word_less_nat_alt word_unat_eq_iff

lemma unat_of_char [simp]: "unat (of_char c :: code_unit) = of_char c"
proof -
  have "of_char c < (65536::nat)" using nat_of_char_less_256 [of c] by linarith
  then have "unat (of_nat (of_char c) :: code_unit) = of_char c"
    by (simp add: unat_of_nat)
  then show ?thesis by (simp only: of_nat_of_char)
qed

lemma of_char_inj [simp]: "(of_char c :: code_unit) = of_char d \<longleftrightarrow> c = d"
  by (metis of_char_eq_iff unat_of_char)

lemma js_inject [simp]: "js s = js t \<longleftrightarrow> s = t"
  by (simp add: js_def inj_map_eq_map inj_def)

lemma unat_lower_unit:
  "unat (lower_unit c) =
     (if (65 \<le> unat c \<and> unat c \<le> 90) \<or> (192 \<le> unat c \<and> unat c \<le> 222 \<and> unat c \<noteq> 215)
      then unat c + 32 else unat c)"
  by (auto simp: lower_unit_def is_upper_def unit_nat unat_word_ariths)

lemma is_space_nat:
  "is_space c \<longleftrightarrow> unat c \<in> {9, 10, 11, 12, 13, 32, 160, 5760, 8192, 8193, 8194, 8195, 8196, 8197,
     8198, 8199, 8200, 8201, 8202, 8232, 8233, 8239, 8287, 12288, 65279}"
  by (simp add: is_space_def js_spaces_def word_unat_eq_iff)

lemma space_not_digit: "is_space c \<Longrightarrow> \<not> is_digit c"
  by (auto simp: is_space_nat is_digit_def unit_nat)

lemma space_not_hex: "is_space c \<Longrightarrow> \<not> is_hex c"
  by (auto simp: is_space_nat is_hex_def is_digit_def unit_nat)

lemma is_space_lower [simp]: "is_space (lower_unit c) = is_space c"
  by (auto simp: is_space_nat unat_lower_unit)

lemma lower_unit_idem [simp]: "lower_unit (lower_unit c) = lower_unit c"
  by (rule word_unat_eq_iff [THEN iffD2]) (auto simp: unat_lower_unit)

lemma is_hex_lower [simp]: "is_hex (lower_unit c) = is_hex c"
  by (auto simp: is_hex_def is_digit_def unit_nat unat_lower_unit)

lemma is_digit_lower: "is_digit c \<Longrightarrow> lower_unit c = c"
  by (simp add: is_digit_def lower_unit_def is_upper_def unit_nat)

lemma to_lower_idem [simp]: "to_lower (to_lower s) = to_lower s"
  by (simp add: to_lower_def)

section \<open>Facts about the operations\<close>

lemma trim_idem [simp]: "trim (trim s) = trim s"
  by (simp add: trim_def)

lemma trim_eq_Nil: "trim s = [] \<longleftrightarrow> list_all is_space s"
  by (simp add: trim_def strip_both_eq_Nil list_all_iff)

lemma trim_to_lower: "trim (to_lower s) = to_lower (trim s)"
  by (simp add: trim_def to_lower_def strip_both_map)

lemma trim_no_space: "list_all (\<lambda>c. \<not> is_space c) s \<Longrightarrow> trim s = s"
  by (cases "s = []") (auto simp: trim_def list_all_iff intro!: strip_both_id)

lemma length_trim: "length (trim s) \<le> length s"
  using strip_both_decomp [of s is_space] by (metis trim_def le_add1 le_add2 le_trans length_append)

lemma split_on_ne [simp]: "split_on d s \<noteq> []"
  by (cases s) (auto split: list.splits)

lemma split_on_absent: "d \<notin> set s \<Longrightarrow> split_on d s = [s]"
  by (induction s) auto

lemma split_on_append:
  "d \<notin> set s \<Longrightarrow> split_on d (s @ d # t) = s # split_on d t"
  by (induction s) auto

lemma split_on_hd_absent: "d \<notin> set (hd (split_on d s))"
  by (induction s) (auto split: list.splits)

lemma split_on_hd: "hd (split_on d s) = takeWhile (\<lambda>c. c \<noteq> d) s"
  by (induction s) (auto split: list.splits)

lemma set_collapse_spaces: "set (collapse_spaces s) \<subseteq> insert 0x20 (set s)"
  by (induction s rule: collapse_spaces.induct) (auto dest: set_dropWhileD)

lemma length_collapse_spaces: "length (collapse_spaces s) \<le> length s"
  by (induction s rule: collapse_spaces.induct)
    (auto intro: le_trans [OF _ length_dropWhile_le])

lemma set_blank_unprintable: "c \<in> set (blank_unprintable s) \<Longrightarrow> is_printable c"
  by (auto simp: blank_unprintable_def is_printable_def)

section \<open>Facts about digits\<close>

lemma foldl_digits_shift:
  "foldl (\<lambda>n c. 10 * n + digit_val c) k s = k * 10 ^ length s + digits_val s"
proof (induction s arbitrary: k)
  case (Cons c s)
  have "digits_val (c # s) = digit_val c * 10 ^ length s + digits_val s"
    using Cons.IH [of "digit_val c"] by (simp add: digits_val_def)
  with Cons.IH [of "10 * k + digit_val c"] show ?case by (simp add: algebra_simps)
qed (simp add: digits_val_def)

lemma digits_val_Nil [simp]: "digits_val [] = 0"
  by (simp add: digits_val_def)

lemma digits_val_Cons: "digits_val (c # s) = digit_val c * 10 ^ length s + digits_val s"
  using foldl_digits_shift [of "digit_val c" s] by (simp add: digits_val_def)

lemma digits_val_append: "digits_val (s @ t) = digits_val s * 10 ^ length t + digits_val t"
  using foldl_digits_shift [of "digits_val s" t] by (simp add: digits_val_def)

lemma digit_val_less: "is_digit c \<Longrightarrow> digit_val c < 10"
  by (auto simp: is_digit_def digit_val_def unit_nat)

lemma digit_val_inj: "is_digit c \<Longrightarrow> is_digit d \<Longrightarrow> digit_val c = digit_val d \<Longrightarrow> c = d"
  by (auto simp: is_digit_def digit_val_def unit_nat)

lemma unat_digit_unit: "n < 10 \<Longrightarrow> unat (digit_unit n) = 0x30 + n"
  by (simp add: digit_unit_def unat_word_ariths unat_of_nat)

lemma digit_unit_ok [simp]:
  "n < 10 \<Longrightarrow> is_digit (digit_unit n)" "n < 10 \<Longrightarrow> digit_val (digit_unit n) = n"
  by (simp_all add: is_digit_def digit_val_def unit_nat unat_digit_unit)

lemma digits_val_bound: "list_all is_digit s \<Longrightarrow> digits_val s < 10 ^ length s"
proof (induction s)
  case (Cons c s)
  then have "digit_val c \<le> 9" using digit_val_less [of c] by simp
  then have "digit_val c * 10 ^ length s \<le> 9 * 10 ^ length s" by (rule mult_right_mono) simp
  moreover have "digits_val s < 10 ^ length s" using Cons by simp
  ultimately have "digit_val c * 10 ^ length s + digits_val s < 9 * 10 ^ length s + 10 ^ length s"
    by (rule add_le_less_mono)
  then show ?case by (simp add: digits_val_Cons)
qed simp

lemma digits_val_inj:
  assumes "list_all is_digit s" "list_all is_digit t" "length s = length t"
    and "digits_val s = digits_val t"
  shows "s = t"
  using assms
proof (induction s t rule: list_induct2')
  case (4 c s d t)
  have len: "length s = length t" and ds: "list_all is_digit s" and dt: "list_all is_digit t"
    using "4.prems" by simp_all
  have s: "digits_val s < 10 ^ length t" and t: "digits_val t < 10 ^ length t"
    using digits_val_bound ds dt len by metis+
  have eq: "digit_val c * 10 ^ length t + digits_val s = digit_val d * 10 ^ length t + digits_val t"
    using "4.prems"(4) len by (simp add: digits_val_Cons)
  have "digit_val c = (digit_val c * 10 ^ length t + digits_val s) div 10 ^ length t"
    using s by simp
  also have "\<dots> = digit_val d" using eq t by simp
  finally have cd: "digit_val c = digit_val d" .
  with eq have "digits_val s = digits_val t" by simp
  with "4.IH" ds dt len have "s = t" by blast
  moreover have "c = d" using cd "4.prems"(1,2) by (auto intro: digit_val_inj)
  ultimately show ?case by simp
qed auto

lemma nat_digits_digit: "list_all is_digit (nat_digits n)"
proof (induction n rule: nat_digits.induct)
  case (1 n)
  show ?case using 1 by (subst nat_digits.simps) simp
qed

lemma nat_digits_val [simp]: "digits_val (nat_digits n) = n"
proof (induction n rule: nat_digits.induct)
  case (1 n)
  show ?case
    using 1 by (subst nat_digits.simps) (simp add: digits_val_append digits_val_Cons)
qed

lemma nat_digits_inj [simp]: "nat_digits m = nat_digits n \<longleftrightarrow> m = n"
  by (metis nat_digits_val)

end
