(* ===== verification/Bytes.thy ===== *)
theory Bytes
  imports Js_String
begin

text \<open>
  Byte strings and the encodings that Node's \<open>Buffer\<close> and \<open>crypto\<close> apply to
  strings: UTF-8 of a UTF-16 string (an unpaired surrogate becomes U+FFFD), the
  lower-case hexadecimal digest, and \<open>Buffer.from(s, 'hex')\<close>, which stops at the
  first pair of units that is not two hexadecimal digits.  The hash functions
  themselves are not code of the repository; they are parameters of the
  definitions that call them.
\<close>

type_synonym byte = "8 word"
type_synonym bytes = "byte list"

section \<open>UTF-8\<close>

definition is_high_surrogate :: "code_unit \<Rightarrow> bool" where
  "is_high_surrogate c \<longleftrightarrow> 0xD800 \<le> c \<and> c \<le> 0xDBFF"

definition is_low_surrogate :: "code_unit \<Rightarrow> bool" where
  "is_low_surrogate c \<longleftrightarrow> 0xDC00 \<le> c \<and> c \<le> 0xDFFF"

definition surrogate_pair :: "code_unit \<Rightarrow> code_unit \<Rightarrow> nat" where
  "surrogate_pair h l = 0x10000 + (unat h - 0xD800) * 0x400 + (unat l - 0xDC00)"

definition utf8_point :: "nat \<Rightarrow> bytes" where
  "utf8_point n =
     (if n < 0x80 then [of_nat n]
      else if n < 0x800 then [of_nat (0xC0 + n div 0x40), of_nat (0x80 + n mod 0x40)]
      else if n < 0x10000 then
        [of_nat (0xE0 + n div 0x1000), of_nat (0x80 + n div 0x40 mod 0x40),
         of_nat (0x80 + n mod 0x40)]
      else
        [of_nat (0xF0 + n div 0x40000), of_nat (0x80 + n div 0x1000 mod 0x40),
         of_nat (0x80 + n div 0x40 mod 0x40), of_nat (0x80 + n mod 0x40)])"

fun code_points :: "jsstr \<Rightarrow> nat list" where
  "code_points [] = []"
| "code_points [c] = [if is_high_surrogate c \<or> is_low_surrogate c then 0xFFFD else unat c]"
| "code_points (c # d # ds) =
     (if is_high_surrogate c \<and> is_low_surrogate d then surrogate_pair c d # code_points ds
      else (if is_high_surrogate c \<or> is_low_surrogate c then 0xFFFD else unat c)
           # code_points (d # ds))"

definition utf8 :: "jsstr \<Rightarrow> bytes" where
  "utf8 s = concat (map utf8_point (code_points s))"

section \<open>Hexadecimal\<close>

definition hex_digit :: "nat \<Rightarrow> code_unit" where
  "hex_digit n = (if n < 10 then 0x30 + of_nat n else 0x57 + of_nat n)"

definition hex_val :: "code_unit \<Rightarrow> nat" where
  "hex_val c =
     (if is_digit c then unat c - 0x30 else if c \<le> 0x46 then unat c - 0x37 else unat c - 0x57)"

definition hex_encode :: "bytes \<Rightarrow> jsstr" where
  "hex_encode bs = concat (map (\<lambda>b. [hex_digit (unat b div 16), hex_digit (unat b mod 16)]) bs)"

fun hex_decode :: "jsstr \<Rightarrow> bytes" where
  "hex_decode (c # d # s) =
     (if is_hex c \<and> is_hex d then of_nat (hex_val c * 16 + hex_val d) # hex_decode s else [])"
| "hex_decode _ = []"

lemmas bytes_defs [js_eval] =
  is_high_surrogate_def is_low_surrogate_def surrogate_pair_def utf8_point_def utf8_def
  hex_digit_def hex_val_def hex_encode_def

section \<open>Facts\<close>

lemma unat_hex_digit: "n < 16 \<Longrightarrow> unat (hex_digit n) = (if n < 10 then 0x30 + n else 0x57 + n)"
  by (simp add: hex_digit_def unat_word_ariths unat_of_nat)

lemma hex_digit_props:
  assumes "n < 16"
  shows "is_hex (hex_digit n)" and "hex_val (hex_digit n) = n"
    and "lower_unit (hex_digit n) = hex_digit n"
proof -
  note u = unat_hex_digit [OF assms]
  show "is_hex (hex_digit n)"
    using assms by (auto simp: is_hex_def is_digit_def unit_nat u)
  show "hex_val (hex_digit n) = n"
    using assms by (auto simp: hex_val_def is_digit_def unit_nat u)
  show "lower_unit (hex_digit n) = hex_digit n"
    using assms by (auto simp: word_unat_eq_iff unat_lower_unit u)
qed

lemma hex_val_less: "is_hex c \<Longrightarrow> hex_val c < 16"
  by (auto simp: is_hex_def is_digit_def hex_val_def unit_nat)

lemma hex_digit_of_val: "is_hex c \<Longrightarrow> hex_digit (hex_val c) = lower_unit c"
  by (auto simp: word_unat_eq_iff unat_hex_digit hex_val_less unat_lower_unit)
    (auto simp: is_hex_def is_digit_def hex_val_def unit_nat)

lemma byte_split: "unat (b :: byte) div 16 < 16" "unat (b :: byte) mod 16 < 16"
proof -
  have "unat b < 256" using unsigned_less [of b] by simp
  then show "unat b div 16 < 16" by simp
qed simp

lemma hex_encode_Nil [simp]: "hex_encode [] = []"
  by (simp add: hex_encode_def)

lemma hex_encode_Cons [simp]:
  "hex_encode (b # bs) = hex_digit (unat b div 16) # hex_digit (unat b mod 16) # hex_encode bs"
  by (simp add: hex_encode_def)

lemma length_hex_encode [simp]: "length (hex_encode bs) = 2 * length bs"
  by (induction bs) auto

lemma hex_encode_hex: "list_all is_hex (hex_encode bs)"
  by (induction bs) (auto simp: hex_digit_props byte_split)

lemma to_lower_hex_encode [simp]: "to_lower (hex_encode bs) = hex_encode bs"
  by (induction bs) (auto simp: to_lower_def hex_digit_props byte_split)

lemma hex_decode_encode [simp]: "hex_decode (hex_encode bs) = bs"
  by (induction bs) (auto simp: hex_digit_props byte_split)

lemma hex_encode_decode:
  "list_all is_hex s \<Longrightarrow> even (length s) \<Longrightarrow> hex_encode (hex_decode s) = to_lower s"
proof (induction s rule: hex_decode.induct)
  case (1 c d s)
  let ?n = "hex_val c * 16 + hex_val d"
  have c: "hex_val c < 16" and d: "hex_val d < 16" using 1 by (simp_all add: hex_val_less)
  then have "?n < 256" by simp
  then have n: "unat (of_nat ?n :: byte) = ?n" by (simp only: unat_of_nat) simp
  have "?n div 16 = hex_val c" and "?n mod 16 = hex_val d" using d by simp_all
  with 1 n show ?case by (simp add: to_lower_def hex_digit_of_val)
qed (auto simp: to_lower_def)

end
