(* ===== verification/Canonical_Json.thy ===== *)
theory Canonical_Json
  imports Bytes
begin

text \<open>
  Canonical JSON (\<open>src/common/canonicalization/canonical-json.ts\<close>): the canonical
  form of a JSON value, its serialization with \<open>JSON.stringify\<close> and its hash.

  An object is the list of its own properties in creation order.  \<open>own_entries\<close>
  is the order in which JavaScript enumerates them (array indices first, in
  numeric order, then the other keys in creation order) and \<open>obj_assign\<close> is
  \<open>o[key] = value\<close>, which sets the prototype instead of a property when the key
  is \<open>__proto__\<close>.  A number is represented by its \<open>Number::toString\<close> text; no
  code here computes with numbers of a JSON value, and \<open>JSON.stringify\<close> prints
  that text.

  \<open>meaning\<close> is the value a JSON term denotes, with objects as finite maps; the
  theorems relate equality of hashes to equality of meanings.
\<close>

section \<open>Values\<close>

datatype json =
    JNull
  | JBool bool
  | JNum jsstr
  | JStr jsstr
  | JArr "json list"
  | JObj "(jsstr \<times> json) list"

definition proto_key :: jsstr where
  "proto_key = js ''__proto__''"

text \<open>\<open>value[key]\<close> for an own property; \<open>None\<close> is \<open>undefined\<close>.\<close>

fun json_get :: "jsstr \<Rightarrow> json \<Rightarrow> json option" where
  "json_get k (JObj es) = map_of es k"
| "json_get k _ = None"

definition is_array_index :: "jsstr \<Rightarrow> bool" where
  "is_array_index k \<longleftrightarrow>
     k \<noteq> [] \<and> list_all is_digit k \<and> (k = [0x30] \<or> hd k \<noteq> 0x30) \<and> digits_val k < 4294967295"

definition own_entries :: "(jsstr \<times> 'v) list \<Rightarrow> (jsstr \<times> 'v) list" where
  "own_entries es =
     sort_key (\<lambda>e. digits_val (fst e)) (filter (\<lambda>e. is_array_index (fst e)) es)
     @ filter (\<lambda>e. \<not> is_array_index (fst e)) es"

definition obj_assign :: "jsstr \<Rightarrow> 'v \<Rightarrow> (jsstr \<times> 'v) list \<Rightarrow> (jsstr \<times> 'v) list" where
  "obj_assign k v es =
     (if k = proto_key then es
      else if k \<in> fst ` set es then map (\<lambda>e. if fst e = k then (k, v) else e) es
      else es @ [(k, v)])"

section \<open>Canonicalization\<close>

text \<open>\<open>Object.keys(value).sort().reduce(...)\<close> on properties whose values are done.\<close>

definition canonical_entries :: "(jsstr \<times> 'v) list \<Rightarrow> (jsstr \<times> 'v) list" where
  "canonical_entries es =
     fold (\<lambda>k canonical. obj_assign k (the (map_of es k)) canonical)
       (sort (map fst (own_entries es))) []"

primrec canonicalizeJsonValue :: "json \<Rightarrow> json" where
  "canonicalizeJsonValue JNull = JNull"
| "canonicalizeJsonValue (JBool b) = JBool b"
| "canonicalizeJsonValue (JNum n) = JNum n"
| "canonicalizeJsonValue (JStr s) = JStr s"
| "canonicalizeJsonValue (JArr xs) = JArr (map canonicalizeJsonValue xs)"
| "canonicalizeJsonValue (JObj es) =
     JObj (canonical_entries (map (map_prod id canonicalizeJsonValue) es))"

section \<open>Serialization\<close>

definition unicode_escape :: "code_unit \<Rightarrow> jsstr" where
  "unicode_escape c =
     [0x5C, 0x75, hex_digit (unat c div 4096), hex_digit (unat c div 256 mod 16),
      hex_digit (unat c div 16 mod 16), hex_digit (unat c mod 16)]"

definition escape_unit :: "code_unit \<Rightarrow> jsstr" where
  "escape_unit c =
     (if c = 0x22 then [0x5C, 0x22]
      else if c = 0x5C then [0x5C, 0x5C]
      else if c = 0x8 then [0x5C, 0x62]
      else if c = 0xC then [0x5C, 0x66]
      else if c = 0xA then [0x5C, 0x6E]
      else if c = 0xD then [0x5C, 0x72]
      else if c = 0x9 then [0x5C, 0x74]
      else if c < 0x20 \<or> is_high_surrogate c \<or> is_low_surrogate c then unicode_escape c
      else [c])"

fun quote_units :: "jsstr \<Rightarrow> jsstr" where
  "quote_units [] = []"
| "quote_units [c] = escape_unit c"
| "quote_units (c # d # ds) =
     (if is_high_surrogate c \<and> is_low_surrogate d then c # d # quote_units ds
      else escape_unit c @ quote_units (d # ds))"

definition quote_string :: "jsstr \<Rightarrow> jsstr" where
  "quote_string s = 0x22 # quote_units s @ [0x22]"

fun join_comma :: "jsstr list \<Rightarrow> jsstr" where
  "join_comma [] = []"
| "join_comma [s] = s"
| "join_comma (s # t # ts) = s @ 0x2C # join_comma (t # ts)"

definition entry_string :: "jsstr \<times> jsstr \<Rightarrow> jsstr" where
  "entry_string e = quote_string (fst e) @ 0x3A # snd e"

primrec json_stringify :: "json \<Rightarrow> jsstr" where
  "json_stringify JNull = js ''null''"
| "json_stringify (JBool b) = (if b then js ''true'' else js ''false'')"
| "json_stringify (JNum n) = n"
| "json_stringify (JStr s) = quote_string s"
| "json_stringify (JArr xs) = 0x5B # join_comma (map json_stringify xs) @ [0x5D]"
| "json_stringify (JObj es) =
     0x7B # join_comma (map entry_string (own_entries (map (map_prod id json_stringify) es))) @ [0x7D]"

definition serializeCanonicalJson :: "json \<Rightarrow> jsstr" where
  "serializeCanonicalJson v = json_stringify (canonicalizeJsonValue v)"

text \<open>\<open>sha256\<close> stands for the digest of \<open>node:crypto\<close>.\<close>

definition hashCanonicalJson :: "(bytes \<Rightarrow> bytes) \<Rightarrow> json \<Rightarrow> jsstr" where
  "hashCanonicalJson sha256 v = hex_encode (sha256 (utf8 (serializeCanonicalJson v)))"

section \<open>What a JSON value denotes\<close>

datatype json_value =
    VNull
  | VBool bool
  | VNum jsstr
  | VStr jsstr
  | VArr "json_value list"
  | VObj "jsstr \<Rightarrow> json_value option"

primrec meaning :: "json \<Rightarrow> json_value" where
  "meaning JNull = VNull"
| "meaning (JBool b) = VBool b"
| "meaning (JNum n) = VNum n"
| "meaning (JStr s) = VStr s"
| "meaning (JArr xs) = VArr (map meaning xs)"
| "meaning (JObj es) = VObj (map_of (map (map_prod id meaning) es))"

text \<open>
  What \<open>JSON.parse\<close> guarantees of a value: the keys of an object are distinct and
  a number prints as a sign or digit followed by digits, signs, a point or an
  exponent mark; and what the request body guard adds: no key is \<open>__proto__\<close>.
\<close>

definition number_unit :: "code_unit \<Rightarrow> bool" where
  "number_unit c \<longleftrightarrow> is_digit c \<or> c = 0x2B \<or> c = 0x2D \<or> c = 0x2E \<or> c = 0x65"

definition number_text :: "jsstr \<Rightarrow> bool" where
  "number_text n \<longleftrightarrow> n \<noteq> [] \<and> (is_digit (hd n) \<or> hd n = 0x2D) \<and> list_all number_unit n"

primrec json_wf :: "json \<Rightarrow> bool" where
  "json_wf JNull = True"
| "json_wf (JBool b) = True"
| "json_wf (JNum n) = number_text n"
| "json_wf (JStr s) = True"
| "json_wf (JArr xs) = list_all id (map json_wf xs)"
| "json_wf (JObj es) =
     (distinct (map fst es) \<and> proto_key \<notin> fst ` set es \<and>
      list_all (\<lambda>e. snd e) (map (map_prod id json_wf) es))"

section \<open>Canonical entries\<close>

lemma map_fst_map_prod [simp]: "map fst (map (map_prod id f) es) = map fst es"
  by (induction es) auto

lemma fst_image_map_prod [simp]: "fst ` map_prod id f ` A = fst ` A"
  by force

lemma mset_own_entries [simp]: "mset (own_entries es) = mset es"
  by (simp add: own_entries_def flip: multiset_partition)

lemma set_own_entries [simp]: "set (own_entries es) = set es"
  by (metis mset_own_entries set_mset_mset)

lemma sort_keys_own_entries: "sort (map fst (own_entries es)) = sort (map fst es)"
  by (rule properties_for_sort) (simp_all add: mset_map [symmetric] del: mset_map,
      simp only: mset_map mset_own_entries)

lemma fold_obj_assign:
  assumes "distinct (map fst acc @ ks)" and "proto_key \<notin> set ks"
  shows "fold (\<lambda>k canonical. obj_assign k (f k) canonical) ks acc = acc @ map (\<lambda>k. (k, f k)) ks"
  using assms
proof (induction ks arbitrary: acc)
  case (Cons k ks)
  have "obj_assign k (f k) acc = acc @ [(k, f k)]"
    using Cons.prems by (auto simp: obj_assign_def)
  with Cons show ?case by simp
qed simp

lemma canonical_entries_eq:
  assumes "distinct (map fst es)" and "proto_key \<notin> fst ` set es"
  shows "canonical_entries es = map (\<lambda>k. (k, the (map_of es k))) (sort (map fst es))"
  using assms fold_obj_assign [of "[]" "sort (map fst es)" "\<lambda>k. the (map_of es k)"]
  by (simp add: canonical_entries_def sort_keys_own_entries)

lemma map_of_canonical_entries:
  assumes "distinct (map fst es)" and "proto_key \<notin> fst ` set es"
  shows "map_of (canonical_entries es) = map_of es"
proof
  fix k
  show "map_of (canonical_entries es) k = map_of es k"
  proof (cases "k \<in> fst ` set es")
    case True
    then obtain v where "map_of es k = Some v" by (metis map_of_eq_None_iff not_None_eq)
    with True assms show ?thesis
      by (simp add: canonical_entries_eq map_of_map_restrict)
  next
    case False
    then have "map_of es k = None" by (simp add: map_of_eq_None_iff)
    with False assms show ?thesis
      by (simp add: canonical_entries_eq map_of_map_restrict)
  qed
qed

lemma canonical_entries_cong:
  assumes "distinct (map fst es)" and "proto_key \<notin> fst ` set es"
    and "distinct (map fst fs)" and "proto_key \<notin> fst ` set fs"
    and "map_of es = map_of fs"
  shows "canonical_entries es = canonical_entries fs"
proof -
  have "fst ` set es = fst ` set fs" using assms(5) by (metis dom_map_of_conv_image_fst)
  then have "sort (map fst es) = sort (map fst fs)"
    using assms(1,3) by (intro sorted_distinct_set_unique) simp_all
  with assms show ?thesis by (simp add: canonical_entries_eq)
qed

section \<open>The canonical form depends on the meaning only\<close>

lemma json_wf_objD:
  assumes "json_wf (JObj es)"
  shows "distinct (map fst es)" and "proto_key \<notin> fst ` set es"
    and "\<And>k v. (k, v) \<in> set es \<Longrightarrow> json_wf v"
  using assms by (auto simp: list_all_iff)

lemma map_of_map_prod: "map_of (map (map_prod id f) es) = map_option f \<circ> map_of es"
  by (induction es) auto

lemma canonicalize_cong:
  assumes "json_wf v" and "json_wf w" and "meaning v = meaning w"
  shows "canonicalizeJsonValue v = canonicalizeJsonValue w"
  using assms
proof (induction v arbitrary: w)
  case (JArr xs)
  then obtain ys where w: "w = JArr ys" by (cases w) auto
  with JArr.prems have len: "map meaning xs = map meaning ys" by simp
  have "map canonicalizeJsonValue xs = map canonicalizeJsonValue ys"
  proof (rule nth_equalityI)
    show "length (map canonicalizeJsonValue xs) = length (map canonicalizeJsonValue ys)"
      using len by (metis length_map)
    fix i assume "i < length (map canonicalizeJsonValue xs)"
    then have i: "i < length xs" by simp
    have l: "length xs = length ys" using len by (metis length_map)
    have "meaning (xs ! i) = meaning (ys ! i)"
      using len i l by (metis nth_map)
    moreover have "json_wf (xs ! i)" and "json_wf (ys ! i)"
      using JArr.prems w i l by (simp_all add: list_all_length)
    ultimately have "canonicalizeJsonValue (xs ! i) = canonicalizeJsonValue (ys ! i)"
      using JArr.IH [of "xs ! i" "ys ! i"] i by simp
    then show "map canonicalizeJsonValue xs ! i = map canonicalizeJsonValue ys ! i"
      using i l by simp
  qed
  with w show ?case by simp
next
  case (JObj es)
  then obtain fs where w: "w = JObj fs" by (cases w) auto
  note e = json_wf_objD [OF JObj.prems(1)] and f = json_wf_objD [OF JObj.prems(2) [unfolded w]]
  have m: "map_option meaning \<circ> map_of es = map_option meaning \<circ> map_of fs"
    using JObj.prems(3) w by (simp add: map_of_map_prod)
  have "map_option canonicalizeJsonValue (map_of es k) = map_option canonicalizeJsonValue (map_of fs k)" for k
  proof (cases "map_of es k")
    case None
    then show ?thesis using fun_cong [OF m, of k] by simp
  next
    case (Some v)
    then obtain v' where v': "map_of fs k = Some v'" and eq: "meaning v = meaning v'"
      using fun_cong [OF m, of k] by (cases "map_of fs k") auto
    have "(k, v) \<in> set es" using Some by (rule map_of_SomeD)
    moreover have "(k, v') \<in> set fs" using v' by (rule map_of_SomeD)
    ultimately have "canonicalizeJsonValue v = canonicalizeJsonValue v'"
      using JObj.IH [of "(k, v)" v v'] e(3) f(3) eq by simp
    with Some v' show ?thesis by simp
  qed
  then have "map_of (map (map_prod id canonicalizeJsonValue) es)
      = map_of (map (map_prod id canonicalizeJsonValue) fs)"
    by (simp add: map_of_map_prod fun_eq_iff)
  with e f have "canonical_entries (map (map_prod id canonicalizeJsonValue) es)
      = canonical_entries (map (map_prod id canonicalizeJsonValue) fs)"
    by (intro canonical_entries_cong) simp_all
  with w show ?case by simp
next
  case (JStr s)
  then show ?case by (cases w) auto
next
  case (JNum n)
  then show ?case by (cases w) auto
next
  case (JBool b)
  then show ?case by (cases w) auto
next
  case JNull
  then show ?case by (cases w) auto
qed

lemma meaning_canonicalize: "json_wf v \<Longrightarrow> meaning (canonicalizeJsonValue v) = meaning v"
proof (induction v)
  case (JObj es)
  note e = json_wf_objD [OF JObj.prems]
  let ?ces = "map (map_prod id canonicalizeJsonValue) es"
  have "map_option meaning \<circ> map_of ?ces = map_option meaning \<circ> map_of es"
  proof
    fix k
    show "(map_option meaning \<circ> map_of ?ces) k = (map_option meaning \<circ> map_of es) k"
      using JObj.IH e(3) map_of_SomeD [of es k]
      by (cases "map_of es k") (auto simp: map_of_map_prod)
  qed
  moreover have "map_of (canonical_entries ?ces) = map_of ?ces"
    using e by (intro map_of_canonical_entries) simp_all
  ultimately show ?case by (simp add: map_of_map_prod)
qed (auto simp: list_all_iff)

section \<open>Serialization can be read back\<close>

text \<open>Reading a quoted string back, up to its closing quote.\<close>

definition unescape :: "code_unit \<Rightarrow> code_unit" where
  "unescape e =
     (if e = 0x62 then 0x8 else if e = 0x66 then 0xC else if e = 0x6E then 0xA
      else if e = 0x72 then 0xD else if e = 0x74 then 0x9 else e)"

definition hex_number :: "jsstr \<Rightarrow> nat" where
  "hex_number hs = foldl (\<lambda>n h. n * 16 + hex_val h) 0 hs"

fun unquote :: "jsstr \<Rightarrow> jsstr \<times> jsstr" where
  "unquote [] = ([], [])"
| "unquote (c # cs) =
     (if c = 0x22 then ([], cs)
      else if c \<noteq> 0x5C then map_prod (Cons c) id (unquote cs)
      else if cs = [] then ([], [])
      else if hd cs = 0x75 then
        map_prod (Cons (of_nat (hex_number (take 4 (tl cs))))) id (unquote (drop 5 cs))
      else map_prod (Cons (unescape (hd cs))) id (unquote (tl cs)))"

lemma unit_hex_digits:
  "hex_number [hex_digit (unat c div 4096), hex_digit (unat c div 256 mod 16),
      hex_digit (unat c div 16 mod 16), hex_digit (unat c mod 16)] = unat (c :: code_unit)"
proof -
  have "unat c < 65536" using unsigned_less [of c] by simp
  then have "unat c div 4096 < 16" by simp
  moreover have "unat c div 16 div 16 = unat c div 256" using div_mult2_eq [of "unat c" 16 16] by simp
  moreover have "unat c div 256 div 16 = unat c div 4096" using div_mult2_eq [of "unat c" 256 16] by simp
  moreover have "n div 16 * 16 + n mod 16 = n" for n :: nat by (rule div_mult_mod_eq)
  note this [of "unat c"] this [of "unat c div 16"] this [of "unat c div 256"]
  ultimately show ?thesis by (simp add: hex_number_def hex_digit_props)
qed

lemma unquote_unicode_escape:
  "unquote (unicode_escape c @ r) = map_prod (Cons c) id (unquote r)"
  by (simp add: unicode_escape_def unit_hex_digits)

lemma unquote_escape_unit: "unquote (escape_unit c @ r) = map_prod (Cons c) id (unquote r)"
proof -
  have "c \<in> {0x22, 0x5C, 0x8, 0xC, 0xA, 0xD, 0x9} \<or> escape_unit c = unicode_escape c \<or>
      (escape_unit c = [c] \<and> c \<noteq> 0x22 \<and> c \<noteq> 0x5C)"
    by (simp add: escape_unit_def)
  then consider "c \<in> {0x22, 0x5C, 0x8, 0xC, 0xA, 0xD, 0x9}" | "escape_unit c = unicode_escape c"
    | "escape_unit c = [c] \<and> c \<noteq> 0x22 \<and> c \<noteq> 0x5C"
    by blast
  then show ?thesis
    by cases (auto simp: unquote_unicode_escape, simp_all add: escape_unit_def unescape_def)
qed

lemma unquote_quote: "unquote (quote_units s @ 0x22 # r) = (s, r)"
proof (induction s rule: quote_units.induct)
  case (3 c d ds)
  show ?case
  proof (cases "is_high_surrogate c \<and> is_low_surrogate d")
    case True
    then have "c \<noteq> 0x22 \<and> c \<noteq> 0x5C \<and> d \<noteq> 0x22 \<and> d \<noteq> 0x5C"
      by (auto simp: is_high_surrogate_def is_low_surrogate_def)
    with True 3 show ?thesis by simp
  next
    case False
    then have "quote_units (c # d # ds) @ 0x22 # r
        = escape_unit c @ (quote_units (d # ds) @ 0x22 # r)" by auto
    then show ?thesis using 3(2) False by (simp only: unquote_escape_unit) simp
  qed
qed (simp_all add: unquote_escape_unit)

lemma quote_string_inj:
  assumes "quote_string s @ r = quote_string t @ r'"
  shows "s = t" and "r = r'"
proof -
  have "quote_units s @ 0x22 # r = quote_units t @ 0x22 # r'"
    using assms by (simp add: quote_string_def)
  then have "(s, r) = (t, r')" by (metis unquote_quote)
  then show "s = t" and "r = r'" by simp_all
qed

text \<open>
  What may follow a value inside a document: nothing, a comma or a closing
  bracket.  An encoding is uniquely readable on a set of values when a text that
  starts with an encoding and goes on with such a delimiter has one reading.
\<close>

definition delimited :: "jsstr \<Rightarrow> bool" where
  "delimited r \<longleftrightarrow> r = [] \<or> hd r = 0x2C \<or> hd r = 0x5D \<or> hd r = 0x7D"

definition readable :: "('a \<Rightarrow> jsstr) \<Rightarrow> 'a \<Rightarrow> 'a set \<Rightarrow> bool" where
  "readable enc x Y \<longleftrightarrow>
     (\<forall>y\<in>Y. \<forall>r r'. delimited r \<longrightarrow> delimited r' \<longrightarrow> enc x @ r = enc y @ r' \<longrightarrow> x = y \<and> r = r')"

definition opens_value :: "jsstr \<Rightarrow> bool" where
  "opens_value t \<longleftrightarrow> t \<noteq> [] \<and> hd t \<noteq> 0x2C \<and> hd t \<noteq> 0x5D \<and> hd t \<noteq> 0x7D"

definition comma_tail :: "jsstr list \<Rightarrow> jsstr" where
  "comma_tail ts = concat (map (Cons 0x2C) ts)"

lemma readable_mono: "readable enc x Y \<Longrightarrow> Z \<subseteq> Y \<Longrightarrow> readable enc x Z"
  by (auto simp: readable_def)

lemma readableD:
  assumes "readable enc x Y" and "y \<in> Y" and "delimited r" and "delimited r'"
    and "enc x @ r = enc y @ r'"
  shows "x = y" and "r = r'"
  using assms unfolding readable_def by blast+

lemma join_comma_Cons: "join_comma (t # ts) = t @ comma_tail ts"
  by (induction ts arbitrary: t) (auto simp: comma_tail_def)

lemma delimited_comma_tail:
  "b = 0x5D \<or> b = 0x7D \<Longrightarrow> delimited (comma_tail ts @ b # r)"
  by (cases ts) (auto simp: delimited_def comma_tail_def)

lemma comma_tail_Nil [simp]: "comma_tail [] = []"
  by (simp add: comma_tail_def)

lemma comma_tail_Cons [simp]: "comma_tail (t # ts) = 0x2C # t @ comma_tail ts"
  by (simp add: comma_tail_def)

lemma comma_tail_read:
  assumes "\<And>x. x \<in> set xs \<Longrightarrow> readable enc x (set ys)" and b: "b = 0x5D \<or> b = 0x7D"
    and "comma_tail (map enc xs) @ b # r = comma_tail (map enc ys) @ b # r'"
  shows "xs = ys \<and> r = r'"
  using assms(1,3)
proof (induction xs arbitrary: ys)
  case Nil
  show ?case using Nil(2) b by (cases ys) auto
next
  case (Cons x xs)
  obtain y ys' where ys: "ys = y # ys'"
    using Cons.prems(2) b by (cases ys) auto
  have eq: "enc x @ (comma_tail (map enc xs) @ b # r) = enc y @ (comma_tail (map enc ys') @ b # r')"
    using Cons.prems(2) ys by simp
  have x: "readable enc x (set ys)" and y: "y \<in> set ys" using Cons.prems(1) ys by simp_all
  note rd = readableD [OF x y delimited_comma_tail [OF b] delimited_comma_tail [OF b] eq]
  have "xs = ys' \<and> r = r'"
  proof (rule Cons.IH [OF _ rd(2)])
    fix z assume "z \<in> set xs"
    then have "readable enc z (set ys)" by (intro Cons.prems(1)) simp
    then show "readable enc z (set ys')" by (rule readable_mono) (simp add: ys subset_insertI)
  qed
  with rd(1) ys show ?case by simp
qed

lemma join_comma_read:
  assumes "\<And>x. x \<in> set xs \<Longrightarrow> readable enc x (set ys)" and b: "b = 0x5D \<or> b = 0x7D"
    and o: "\<And>x. x \<in> set xs \<union> set ys \<Longrightarrow> opens_value (enc x)"
    and "join_comma (map enc xs) @ b # r = join_comma (map enc ys) @ b # r'"
  shows "xs = ys \<and> r = r'"
proof (cases xs)
  case Nil
  have "ys = []"
  proof (cases ys)
    case (Cons y ys')
    then have "opens_value (enc y)" using o by simp
    then obtain c t where "enc y = c # t" and "c \<noteq> 0x5D" and "c \<noteq> 0x7D"
      by (cases "enc y") (auto simp: opens_value_def)
    then show ?thesis using assms(4) Cons \<open>xs = []\<close> b by (auto simp: join_comma_Cons)
  qed simp
  with Nil assms(4) show ?thesis by simp
next
  case (Cons x xs')
  have ox: "opens_value (enc x)" using o Cons by simp
  then obtain c t where "enc x = c # t" and "c \<noteq> 0x5D" and "c \<noteq> 0x7D"
    by (cases "enc x") (auto simp: opens_value_def)
  then obtain y ys' where ys: "ys = y # ys'"
    using assms(4) Cons b by (cases ys) (auto simp: join_comma_Cons)
  have eq: "enc x @ (comma_tail (map enc xs') @ b # r) = enc y @ (comma_tail (map enc ys') @ b # r')"
    using assms(4) Cons ys by (simp add: join_comma_Cons)
  have x: "readable enc x (set ys)" and y: "y \<in> set ys" using assms(1) Cons ys by simp_all
  note rd = readableD [OF x y delimited_comma_tail [OF b] delimited_comma_tail [OF b] eq]
  have "xs' = ys' \<and> r = r'"
  proof (rule comma_tail_read [OF _ b rd(2)])
    fix z assume "z \<in> set xs'"
    then have "readable enc z (set ys)" by (intro assms(1)) (simp add: Cons)
    then show "readable enc z (set ys')" by (rule readable_mono) (simp add: ys subset_insertI)
  qed
  with rd(1) Cons ys show ?thesis by simp
qed

subsection \<open>Canonical values are uniquely readable\<close>

text \<open>Canonical values: numbers as printed, keys of every object in strictly increasing order.\<close>

primrec canonical :: "json \<Rightarrow> bool" where
  "canonical JNull = True"
| "canonical (JBool b) = True"
| "canonical (JNum n) = number_text n"
| "canonical (JStr s) = True"
| "canonical (JArr xs) = list_all id (map canonical xs)"
| "canonical (JObj es) =
     (sorted_wrt (<) (map fst es) \<and> list_all (\<lambda>e. snd e) (map (map_prod id canonical) es))"

lemma canonical_objD:
  assumes "canonical (JObj es)"
  shows "sorted_wrt (<) (map fst es)" and "\<And>k v. (k, v) \<in> set es \<Longrightarrow> canonical v"
  using assms by (auto simp: list_all_iff)

lemma canonical_objI:
  "sorted_wrt (<) ks \<Longrightarrow> (\<And>k. k \<in> set ks \<Longrightarrow> canonical (f k)) \<Longrightarrow>
   canonical (JObj (map (\<lambda>k. (k, f k)) ks))"
  by (simp add: list_all_iff comp_def)

lemma canonicalize_canonical: "json_wf v \<Longrightarrow> canonical (canonicalizeJsonValue v)"
proof (induction v)
  case (JObj es)
  note e = json_wf_objD [OF JObj.prems]
  let ?ces = "map (map_prod id canonicalizeJsonValue) es"
  have "canonical (the (map_of ?ces k))" if k: "k \<in> set (sort (map fst es))" for k
  proof -
    have "map_of es k \<noteq> None" using k by (simp add: map_of_eq_None_iff)
    then obtain v where v: "map_of es k = Some v" by blast
    then have "(k, v) \<in> set es" by (rule map_of_SomeD)
    then have "canonical (canonicalizeJsonValue v)"
      using JObj.IH [of "(k, v)" v] e(3) by simp
    with v show ?thesis by (simp add: map_of_map_prod)
  qed
  moreover have "sorted_wrt (<) (sort (map fst es))"
    unfolding strict_sorted_iff using e(1) by simp
  ultimately have "canonical (JObj (map (\<lambda>k. (k, the (map_of ?ces k))) (sort (map fst es))))"
    by (rule canonical_objI [rotated])
  moreover have "canonical_entries ?ces = map (\<lambda>k. (k, the (map_of ?ces k))) (sort (map fst ?ces))"
    using e(1,2) by (intro canonical_entries_eq) simp_all
  ultimately show ?case
    by (simp only: canonicalizeJsonValue.simps map_fst_map_prod)
next
  case (JArr xs)
  then show ?case by (simp add: list_all_iff)
qed simp_all

lemma insort_key_map_prod:
  "insort_key (\<lambda>e. g (fst e)) (map_prod id f x) (map (map_prod id f) xs)
    = map (map_prod id f) (insort_key (\<lambda>e. g (fst e)) x xs)"
  by (induction xs) auto

lemma sort_key_map_prod:
  "sort_key (\<lambda>e. g (fst e)) (map (map_prod id f) xs) = map (map_prod id f) (sort_key (\<lambda>e. g (fst e)) xs)"
  by (induction xs) (simp_all add: insort_key_map_prod del: id_apply id_def)

lemma own_entries_map_prod: "own_entries (map (map_prod id f) es) = map (map_prod id f) (own_entries es)"
  by (simp add: own_entries_def filter_map o_def sort_key_map_prod)

definition entry_text :: "jsstr \<times> json \<Rightarrow> jsstr" where
  "entry_text e = quote_string (fst e) @ 0x3A # json_stringify (snd e)"

lemma stringify_obj:
  "json_stringify (JObj es) = 0x7B # join_comma (map entry_text (own_entries es)) @ [0x7D]"
  by (simp add: own_entries_map_prod comp_def entry_text_def [abs_def] entry_string_def)

text \<open>The first unit of a text tells the kind of the value.\<close>

fun kind :: "json \<Rightarrow> nat" where
  "kind JNull = 0"
| "kind (JBool b) = 1"
| "kind (JNum n) = 2"
| "kind (JStr s) = 3"
| "kind (JArr xs) = 4"
| "kind (JObj es) = 5"

definition kind_of_unit :: "code_unit \<Rightarrow> nat" where
  "kind_of_unit c =
     (if c = 0x6E then 0 else if c = 0x74 \<or> c = 0x66 then 1 else if c = 0x22 then 3
      else if c = 0x5B then 4 else if c = 0x7B then 5 else 2)"

lemma number_text_hd:
  "number_text n \<Longrightarrow> n \<noteq> [] \<and> kind_of_unit (hd n) = 2 \<and> opens_value n"
  by (auto simp: number_text_def kind_of_unit_def opens_value_def is_digit_def)

lemma stringify_hd:
  assumes "canonical v"
  shows "json_stringify v \<noteq> [] \<and> kind_of_unit (hd (json_stringify v)) = kind v \<and>
    opens_value (json_stringify v)"
  using assms number_text_hd
  by (cases v) (simp_all add: js_def kind_of_unit_def opens_value_def quote_string_def)

lemma stringify_kind:
  assumes "canonical v" and "canonical w" and "json_stringify v @ r = json_stringify w @ r'"
  shows "kind v = kind w"
  using stringify_hd [OF assms(1)] stringify_hd [OF assms(2)] assms(3)
  by (metis hd_append2)

lemma number_read:
  assumes "number_text m" and "number_text n" and "delimited r" and "delimited r'" and "m @ r = n @ r'"
  shows "m = n \<and> r = r'"
proof -
  have stop: "takeWhile number_unit (k @ q) = k" if "number_text k" and "delimited q" for k q
    using that by (cases q) (auto simp: number_text_def delimited_def list_all_iff takeWhile_append
        number_unit_def is_digit_def)
  have "m = n" using assms stop by metis
  with assms(5) show ?thesis by simp
qed

lemma entry_read:
  assumes "\<And>Y. (\<And>y. y \<in> Y \<Longrightarrow> canonical y) \<Longrightarrow> readable json_stringify (snd e) Y"
    and "\<And>k v. (k, v) \<in> E \<Longrightarrow> canonical v"
  shows "readable entry_text e E"
  unfolding readable_def
proof (intro ballI allI impI)
  fix f r r'
  assume f: "f \<in> E" and d: "delimited r" "delimited r'" and eq: "entry_text e @ r = entry_text f @ r'"
  have q: "quote_string (fst e) @ 0x3A # json_stringify (snd e) @ r
      = quote_string (fst f) @ 0x3A # json_stringify (snd f) @ r'"
    using eq by (simp add: entry_text_def)
  have k: "fst e = fst f" and "json_stringify (snd e) @ r = json_stringify (snd f) @ r'"
    using quote_string_inj [OF q] by simp_all
  moreover have "canonical (snd f)" using assms(2) f by (metis prod.collapse)
  ultimately have "snd e = snd f \<and> r = r'"
    using assms(1) [of "{snd f}"] d by (auto simp: readable_def)
  with k show "e = f \<and> r = r'" by (simp add: prod_eq_iff)
qed

lemma canonical_entries_unique:
  fixes es fs :: "(jsstr \<times> 'v) list"
  assumes "sorted_wrt (<) (map fst es)" and "sorted_wrt (<) (map fst fs)" and "set es = set fs"
  shows "es = fs"
proof -
  have k: "map fst es = map fst fs"
    by (rule strict_sorted_equal [OF assms(2,1)]) (simp add: assms(3))
  have d: "distinct (map fst es)" using assms(1) by (simp add: strict_sorted_iff)
  show ?thesis
  proof (rule nth_equalityI)
    show l: "length es = length fs" using k by (metis length_map)
    fix i assume i: "i < length es"
    have "fs ! i \<in> set es" using i l assms(3) by simp
    then obtain j where j: "j < length es" "es ! j = fs ! i" by (metis in_set_conv_nth)
    then have "map fst es ! j = map fst es ! i" using i l k by (metis nth_map)
    then have "j = i" using nth_eq_iff_index_eq [OF d] i j(1) by simp
    with j show "es ! i = fs ! i" by simp
  qed
qed

lemma readable_by_kind:
  assumes "canonical v" and Y: "\<And>y. y \<in> Y \<Longrightarrow> canonical y"
    and read: "\<And>w r r'. w \<in> Y \<Longrightarrow> kind w = kind v \<Longrightarrow> delimited r \<Longrightarrow> delimited r' \<Longrightarrow>
      json_stringify v @ r = json_stringify w @ r' \<Longrightarrow> v = w \<and> r = r'"
  shows "readable json_stringify v Y"
  unfolding readable_def
proof (intro ballI allI impI)
  fix w r r'
  assume w: "w \<in> Y" and d: "delimited r" "delimited r'"
    and eq: "json_stringify v @ r = json_stringify w @ r'"
  have "kind w = kind v" using stringify_kind [OF assms(1) Y [OF w] eq] by simp
  from read [OF w this d eq] show "v = w \<and> r = r'" .
qed

lemma readable_arr:
  assumes "canonical (JArr xs)" and Y: "\<And>y. y \<in> Y \<Longrightarrow> canonical y"
    and IH: "\<And>x Z. x \<in> set xs \<Longrightarrow> (\<And>y. y \<in> Z \<Longrightarrow> canonical y) \<Longrightarrow> readable json_stringify x Z"
  shows "readable json_stringify (JArr xs) Y"
proof (rule readable_by_kind [OF assms(1) Y])
  fix w r r'
  assume w: "w \<in> Y" and k: "kind w = kind (JArr xs)"
    and eq: "json_stringify (JArr xs) @ r = json_stringify w @ r'"
  from k obtain ys where ys: "w = JArr ys" by (cases w) auto
  have c: "\<And>x. x \<in> set xs \<Longrightarrow> canonical x" "\<And>y. y \<in> set ys \<Longrightarrow> canonical y"
    using assms(1) Y [OF w] ys by (auto simp: list_all_iff)
  have "xs = ys \<and> r = r'"
  proof (rule join_comma_read [where b = "0x5D"])
    show "readable json_stringify x (set ys)" if "x \<in> set xs" for x
      using IH [OF that] c(2) by blast
    show "opens_value (json_stringify x)" if "x \<in> set xs \<union> set ys" for x
      using that c stringify_hd by blast
    show "join_comma (map json_stringify xs) @ 0x5D # r = join_comma (map json_stringify ys) @ 0x5D # r'"
      using eq ys by simp
  qed simp
  with ys show "JArr xs = w \<and> r = r'" by simp
qed

lemma readable_obj:
  assumes "canonical (JObj es)" and Y: "\<And>y. y \<in> Y \<Longrightarrow> canonical y"
    and IH: "\<And>e Z. e \<in> set es \<Longrightarrow> (\<And>y. y \<in> Z \<Longrightarrow> canonical y) \<Longrightarrow> readable json_stringify (snd e) Z"
  shows "readable json_stringify (JObj es) Y"
proof (rule readable_by_kind [OF assms(1) Y])
  fix w r r'
  assume w: "w \<in> Y" and k: "kind w = kind (JObj es)"
    and eq: "json_stringify (JObj es) @ r = json_stringify w @ r'"
  from k obtain fs where fs: "w = JObj fs" by (cases w) auto
  note e = canonical_objD [OF assms(1)] and f = canonical_objD [OF Y [OF w, unfolded fs]]
  have own: "own_entries es = own_entries fs \<and> r = r'"
  proof (rule join_comma_read [where b = "0x7D"])
    show "readable entry_text x (set (own_entries fs))" if "x \<in> set (own_entries es)" for x
      using that IH f(2) by (intro entry_read) simp_all
    show "opens_value (entry_text x)" if "x \<in> set (own_entries es) \<union> set (own_entries fs)" for x
      by (simp add: entry_text_def quote_string_def opens_value_def)
    show "join_comma (map entry_text (own_entries es)) @ 0x7D # r
        = join_comma (map entry_text (own_entries fs)) @ 0x7D # r'"
      using eq unfolding fs stringify_obj by simp
  qed simp
  then have "set es = set fs" by (metis set_own_entries)
  then have "es = fs" by (rule canonical_entries_unique [OF e(1) f(1)])
  with own fs show "JObj es = w \<and> r = r'" by simp
qed

lemma canonical_readable:
  "canonical v \<Longrightarrow> (\<And>y. y \<in> Y \<Longrightarrow> canonical y) \<Longrightarrow> readable json_stringify v Y"
proof (induction v arbitrary: Y)
  case (JArr xs)
  have "\<And>x. x \<in> set xs \<Longrightarrow> canonical x" using JArr.prems(1) by (simp add: list_all_iff)
  then show ?case using JArr.IH by (intro readable_arr [OF JArr.prems]) blast+
next
  case (JObj es)
  show ?case
  proof (rule readable_obj [OF JObj.prems])
    fix e Z assume e: "e \<in> set es" and Z: "\<And>y. y \<in> Z \<Longrightarrow> canonical y"
    have "canonical (snd e)" using canonical_objD(2) [OF JObj.prems(1), of "fst e" "snd e"] e by simp
    from JObj.IH [OF e _ this Z] show "readable json_stringify (snd e) Z" by (simp add: snds.simps)
  qed
next
  case (JNum n)
  show ?case
  proof (rule readable_by_kind [OF JNum.prems])
    fix w r r' assume "w \<in> Y" and "kind w = kind (JNum n)" and d: "delimited r" "delimited r'"
      and "json_stringify (JNum n) @ r = json_stringify w @ r'"
    then show "JNum n = w \<and> r = r'"
      using JNum.prems(2) [of w] JNum.prems(1) number_read [OF _ _ d, of n] by (cases w) auto
  qed
next
  case (JStr s)
  show ?case
  proof (rule readable_by_kind [OF JStr.prems])
    fix w r r' assume "kind w = kind (JStr s)" and "json_stringify (JStr s) @ r = json_stringify w @ r'"
    then show "JStr s = w \<and> r = r'" using quote_string_inj [of s r _ r'] by (cases w) auto
  qed
next
  case (JBool b)
  show ?case
  proof (rule readable_by_kind [OF JBool.prems])
    fix w r r' assume "kind w = kind (JBool b)" and "json_stringify (JBool b) @ r = json_stringify w @ r'"
    then show "JBool b = w \<and> r = r'" by (cases w) (auto simp: js_def split: if_splits)
  qed
next
  case JNull
  show ?case
  proof (rule readable_by_kind [OF JNull.prems])
    fix w r r' assume "kind w = kind JNull" and "json_stringify JNull @ r = json_stringify w @ r'"
    then show "JNull = w \<and> r = r'" by (cases w) auto
  qed
qed

lemma serialize_inj:
  assumes "json_wf v" and "json_wf w" and "serializeCanonicalJson v = serializeCanonicalJson w"
  shows "canonicalizeJsonValue v = canonicalizeJsonValue w"
proof -
  have "readable json_stringify (canonicalizeJsonValue v) {canonicalizeJsonValue w}"
    using assms canonicalize_canonical by (intro canonical_readable) auto
  from readableD(1) [OF this singletonI, of "[]" "[]"] show ?thesis
    using assms(3) by (simp add: serializeCanonicalJson_def delimited_def)
qed

section \<open>Properties\<close>



end
