(* ===== verification/Amounts.thy ===== *)
theory Amounts
  imports Canonical_Json
begin

text \<open>
  Decimal amounts: the validator of request amounts
  (\<open>src/payment-intents/validation/payment-amount.validator.ts\<close>), the form amounts
  take in responses (\<open>src/payment-intents/payment-amount.ts\<close>) and the form in which
  the worker compares them (\<open>normalizeAmount\<close> of
  \<open>src/processing/webhook-event-processor.service.ts\<close>).

  The meaning of an amount is \<open>amount_units\<close>, its value in units of \<open>10^-18\<close>, the
  scale of the \<open>numeric(36,18)\<close> column.  The lemmas show that the validator accepts
  exactly the decimal strings whose value is positive and fits that column, that
  two amounts are normalized alike exactly when they have the same value, and that
  the response form is the one shortest form of the value.
\<close>

section \<open>Splitting at the decimal point\<close>

text \<open>\<open>const [integerPart, fractionalPart = ''] = amount.split('.')\<close>\<close>

definition integer_part :: "jsstr \<Rightarrow> jsstr" where
  "integer_part amount = hd (split_on 0x2E amount)"

definition fractional_part :: "jsstr \<Rightarrow> jsstr" where
  "fractional_part amount = (case split_on 0x2E amount of _ # f # _ \<Rightarrow> f | _ \<Rightarrow> [])"

section \<open>The validator\<close>

text \<open>\<open>/^(?:0|[1-9]\d*)(?:\.\d+)?$/\<close>\<close>

definition DECIMAL_STRING_PATTERN :: "jsstr \<Rightarrow> bool" where
  "DECIMAL_STRING_PATTERN s =
     (let i = takeWhile is_digit s; r = dropWhile is_digit s
      in (i = [0x30] \<or> (i \<noteq> [] \<and> hd i \<noteq> 0x30)) \<and>
         (r = [] \<or> (hd r = 0x2E \<and> tl r \<noteq> [] \<and> list_all is_digit (tl r))))"

definition isValidPaymentAmount :: "json \<Rightarrow> bool" where
  "isValidPaymentAmount value =
     (case value of
        JStr s \<Rightarrow>
          if \<not> DECIMAL_STRING_PATTERN s then False
          else if 18 < length (fractional_part s) then False
          else if 18 < length (dropWhile (\<lambda>c. c = 0x30) (integer_part s)) then False
          else list_ex (\<lambda>c. 0x31 \<le> c \<and> c \<le> 0x39) (integer_part s)
             \<or> list_ex (\<lambda>c. 0x31 \<le> c \<and> c \<le> 0x39) (fractional_part s)
      | _ \<Rightarrow> False)"

section \<open>The response form\<close>

text \<open>\<open>integerPart.replace(/^0+(?=\d)/, '')\<close>: drop zeros while a digit follows.\<close>

fun strip_leading_zeros :: "jsstr \<Rightarrow> jsstr" where
  "strip_leading_zeros (c # d # cs) =
     (if c = 0x30 \<and> is_digit d then strip_leading_zeros (d # cs) else c # d # cs)"
| "strip_leading_zeros s = s"

text \<open>\<open>fractionalPart.replace(/0+$/, '')\<close>\<close>

definition strip_trailing_zeros :: "jsstr \<Rightarrow> jsstr" where
  "strip_trailing_zeros s = rev (dropWhile (\<lambda>c. c = 0x30) (rev s))"

definition toCanonicalAmount :: "jsstr \<Rightarrow> jsstr" where
  "toCanonicalAmount amount =
     (let integer = strip_leading_zeros (integer_part amount);
          fraction = strip_trailing_zeros (fractional_part amount)
      in if fraction \<noteq> [] then integer @ 0x2E # fraction else integer)"

section \<open>The compared form\<close>

text \<open>
  \<open>BigInt(s)\<close> for a string: surrounding white space is ignored, the empty string is
  0, a prefix selects base 16, 8 or 2, and a decimal number may have a sign.
  \<open>None\<close> is the \<open>SyntaxError\<close> of every other string.
\<close>

definition base_value :: "nat \<Rightarrow> (code_unit \<Rightarrow> bool) \<Rightarrow> jsstr \<Rightarrow> int option" where
  "base_value b ok s =
     (if s \<noteq> [] \<and> list_all ok s then Some (int (foldl (\<lambda>n c. n * b + hex_val c) 0 s)) else None)"

definition BigInt :: "jsstr \<Rightarrow> int option" where
  "BigInt text =
     (let s = trim text
      in case s of
           [] \<Rightarrow> Some 0
         | c # r \<Rightarrow>
             if c = 0x30 \<and> r \<noteq> [] \<and> (hd r = 0x78 \<or> hd r = 0x58) then base_value 16 is_hex (tl r)
             else if c = 0x30 \<and> r \<noteq> [] \<and> (hd r = 0x6F \<or> hd r = 0x4F) then
               base_value 8 (\<lambda>d. 0x30 \<le> d \<and> d \<le> 0x37) (tl r)
             else if c = 0x30 \<and> r \<noteq> [] \<and> (hd r = 0x62 \<or> hd r = 0x42) then
               base_value 2 (\<lambda>d. d = 0x30 \<or> d = 0x31) (tl r)
             else if c = 0x2D then map_option uminus (base_value 10 is_digit r)
             else if c = 0x2B then base_value 10 is_digit r
             else base_value 10 is_digit s)"

definition normalizeAmount :: "jsstr \<Rightarrow> jsstr option" where
  "normalizeAmount amount =
     map_option (\<lambda>n. int_string n @ 0x2E # take 18 (fractional_part amount @ replicate 18 0x30))
       (BigInt (integer_part amount))"

section \<open>The value of an amount\<close>

definition amount_units :: "jsstr \<Rightarrow> nat" where
  "amount_units amount =
     digits_val (integer_part amount @ take 18 (fractional_part amount @ replicate 18 0x30))"

text \<open>Decimal strings: digits, optionally a point and digits.\<close>

definition decimal :: "jsstr \<Rightarrow> bool" where
  "decimal s \<longleftrightarrow>
     (\<exists>i f. i \<noteq> [] \<and> list_all is_digit i \<and> list_all is_digit f \<and>
        (s = i \<or> (f \<noteq> [] \<and> s = i @ 0x2E # f)))"

subsection \<open>Parts of a decimal string\<close>

lemma dot_not_digit [simp]: "\<not> is_digit 0x2E"
  by (simp add: is_digit_def)

lemma dot_notin_digits: "list_all is_digit s \<Longrightarrow> 0x2E \<notin> set s"
  by (auto simp: list_all_iff dest: bspec)

lemma parts_integer: "list_all is_digit i \<Longrightarrow> integer_part i = i \<and> fractional_part i = []"
  by (simp add: integer_part_def fractional_part_def split_on_absent dot_notin_digits)

lemma parts_point:
  "list_all is_digit i \<Longrightarrow> list_all is_digit f \<Longrightarrow>
   integer_part (i @ 0x2E # f) = i \<and> fractional_part (i @ 0x2E # f) = f"
  by (simp add: integer_part_def fractional_part_def split_on_append split_on_absent dot_notin_digits)

lemma decimal_parts:
  assumes "decimal s"
  shows "integer_part s \<noteq> []" "list_all is_digit (integer_part s)"
    "list_all is_digit (fractional_part s)"
    "s = integer_part s @ (if fractional_part s = [] then [] else 0x2E # fractional_part s)"
proof -
  obtain i f where "i \<noteq> []" "list_all is_digit i" "list_all is_digit f"
    "s = i \<or> (f \<noteq> [] \<and> s = i @ 0x2E # f)"
    using assms by (auto simp: decimal_def)
  then show "integer_part s \<noteq> []" "list_all is_digit (integer_part s)"
    "list_all is_digit (fractional_part s)"
    "s = integer_part s @ (if fractional_part s = [] then [] else 0x2E # fractional_part s)"
    using parts_integer [of i] parts_point [of i f] by auto
qed

lemma pattern_decimal: "DECIMAL_STRING_PATTERN s \<Longrightarrow> decimal s"
proof -
  assume p: "DECIMAL_STRING_PATTERN s"
  let ?i = "takeWhile is_digit s" and ?r = "dropWhile is_digit s"
  have s: "s = ?i @ ?r" by simp
  have i: "?i \<noteq> []" "list_all is_digit ?i"
    using p by (auto simp: DECIMAL_STRING_PATTERN_def Let_def list_all_iff dest: set_takeWhileD)
  show "decimal s"
  proof (cases "?r = []")
    case True
    with s i show ?thesis unfolding decimal_def by (metis append_Nil2 list_all_append)
  next
    case False
    then have "hd ?r = 0x2E" "tl ?r \<noteq> []" "list_all is_digit (tl ?r)"
      using p by (auto simp: DECIMAL_STRING_PATTERN_def Let_def)
    moreover have "?r = hd ?r # tl ?r" using False by simp
    ultimately have "?r = 0x2E # tl ?r" "tl ?r \<noteq> []" "list_all is_digit (tl ?r)"
      by (simp_all del: dropWhile_eq_Nil_conv)
    with s i show ?thesis unfolding decimal_def by metis
  qed
qed

definition padded_fraction :: "jsstr \<Rightarrow> jsstr" where
  "padded_fraction f = take 18 (f @ replicate 18 0x30)"

lemma zero_digit [simp]: "is_digit 0x30"
  by (simp add: is_digit_def)

lemma padded_fraction_digits: "list_all is_digit f \<Longrightarrow> list_all is_digit (padded_fraction f)"
  by (auto simp: padded_fraction_def list_all_iff dest: in_set_takeD)

lemma length_padded_fraction [simp]: "length (padded_fraction f) = 18"
  by (simp add: padded_fraction_def)

lemma amount_units_split:
  "amount_units s = digits_val (integer_part s) * 10 ^ 18 + digits_val (padded_fraction (fractional_part s))"
proof -
  have "amount_units s = digits_val (integer_part s @ padded_fraction (fractional_part s))"
    by (simp add: amount_units_def padded_fraction_def)
  then show ?thesis by (simp add: digits_val_append)
qed

lemma decimal_padded_bound:
  "decimal s \<Longrightarrow> digits_val (padded_fraction (fractional_part s)) < 10 ^ 18"
  using digits_val_bound [OF padded_fraction_digits [OF decimal_parts(3)]] by simp

subsection \<open>Digit strings without superfluous zeros\<close>

definition plain_digits :: "jsstr \<Rightarrow> bool" where
  "plain_digits s \<longleftrightarrow> s \<noteq> [] \<and> list_all is_digit s \<and> (s = [0x30] \<or> hd s \<noteq> 0x30)"

lemma digit_val_zero: "is_digit c \<Longrightarrow> digit_val c = 0 \<longleftrightarrow> c = 0x30"
  by (auto simp: is_digit_def digit_val_def unit_nat)

lemma plain_digits_lower:
  assumes "plain_digits s" and "s \<noteq> [0x30]"
  shows "10 ^ (length s - 1) \<le> digits_val s"
proof -
  obtain c t where s: "s = c # t" and c: "is_digit c" "c \<noteq> 0x30"
    using assms by (cases s) (auto simp: plain_digits_def)
  then have "1 \<le> digit_val c" using digit_val_zero [of c] by simp
  then have "10 ^ length t \<le> digit_val c * 10 ^ length t" by simp
  with s show ?thesis by (simp add: digits_val_Cons trans_le_add1)
qed

lemma digits_val_zero [simp]: "digits_val [0x30] = 0"
  by (simp add: digits_val_Cons digit_val_def)

lemma plain_digits_zero: "plain_digits s \<Longrightarrow> digits_val s = 0 \<longleftrightarrow> s = [0x30]"
  using plain_digits_lower [of s] order.strict_trans2 [of 0 "10 ^ (length s - 1)" "digits_val s"]
  by (cases "s = [0x30]") auto

lemma plain_digits_length:
  assumes "plain_digits s" and "plain_digits t" and "digits_val s = digits_val t"
  shows "length s \<le> length t"
proof (cases "s = [0x30]")
  case True
  with assms(2) show ?thesis by (cases t) (auto simp: plain_digits_def)
next
  case False
  have "10 ^ (length s - 1) \<le> digits_val t" using plain_digits_lower [OF assms(1) False] assms(3) by simp
  also have "\<dots> < 10 ^ length t" using assms(2) by (simp add: plain_digits_def digits_val_bound)
  finally have "length s - 1 < length t" by simp
  then show ?thesis by simp
qed

lemma plain_digits_unique:
  assumes "plain_digits s" and "plain_digits t" and "digits_val s = digits_val t"
  shows "s = t"
proof (rule digits_val_inj)
  show "length s = length t"
    using plain_digits_length [OF assms] plain_digits_length [OF assms(2,1)] assms(3) by simp
qed (use assms in \<open>auto simp: plain_digits_def\<close>)

lemma plain_nat_digits: "plain_digits (nat_digits n)"
proof (induction n rule: nat_digits.induct)
  case (1 n)
  show ?case
  proof (cases "n < 10")
    case True
    then show ?thesis
      by (subst nat_digits.simps) (auto simp: plain_digits_def word_unat_eq_iff unat_digit_unit)
  next
    case False
    then have IH: "plain_digits (nat_digits (n div 10))" using 1 by simp
    moreover have "nat_digits (n div 10) \<noteq> [0x30]"
      using False plain_digits_zero [OF IH] by auto
    ultimately show ?thesis
      using False by (subst nat_digits.simps) (auto simp: plain_digits_def)
  qed
qed

lemma plain_strip_leading_zeros:
  "s \<noteq> [] \<Longrightarrow> list_all is_digit s \<Longrightarrow>
   plain_digits (strip_leading_zeros s) \<and> digits_val (strip_leading_zeros s) = digits_val s"
  by (induction s rule: strip_leading_zeros.induct)
    (auto simp: plain_digits_def digits_val_Cons digit_val_def)

lemma strip_leading_zeros_eq:
  "s \<noteq> [] \<Longrightarrow> list_all is_digit s \<Longrightarrow> strip_leading_zeros s = nat_digits (digits_val s)"
  using plain_strip_leading_zeros [of s] plain_nat_digits by (auto intro: plain_digits_unique)

lemma strip_leading_zeros_plain: "plain_digits s \<Longrightarrow> strip_leading_zeros s = s"
  by (metis plain_digits_def plain_digits_unique plain_strip_leading_zeros)

subsection \<open>Fractions with and without trailing zeros\<close>

lemma strip_trailing_zeros_decomp: "\<exists>k. f = strip_trailing_zeros f @ replicate k 0x30"
proof -
  let ?z = "takeWhile (\<lambda>c. c = 0x30) (rev f)"
  have "rev f = ?z @ dropWhile (\<lambda>c. c = 0x30) (rev f)" by simp
  then have "f = strip_trailing_zeros f @ rev ?z"
    unfolding strip_trailing_zeros_def by (metis rev_append rev_rev_ident)
  moreover have "rev ?z = replicate (length ?z) 0x30"
    by (auto intro!: replicate_eqI dest: set_takeWhileD)
  ultimately show ?thesis by metis
qed

lemma strip_trailing_zeros_append [simp]:
  "strip_trailing_zeros (f @ replicate k 0x30) = strip_trailing_zeros f"
  using dropWhile_append2 [of "replicate k 0x30" "\<lambda>c. c = 0x30" "rev f"]
  by (simp add: strip_trailing_zeros_def)

lemma strip_trailing_zeros_idem [simp]:
  "strip_trailing_zeros (strip_trailing_zeros f) = strip_trailing_zeros f"
  by (metis strip_trailing_zeros_append strip_trailing_zeros_decomp)

lemma padded_append_zeros: "padded_fraction (f @ replicate k 0x30) = padded_fraction f"
proof -
  have "take 18 (f @ replicate k 0x30 @ replicate 18 0x30) = take 18 (f @ replicate (18 + k) 0x30)"
    by (simp add: replicate_add [symmetric] add.commute)
  then show ?thesis by (simp add: padded_fraction_def)
qed

lemma padded_strip [simp]: "padded_fraction (strip_trailing_zeros f) = padded_fraction f"
  by (metis padded_append_zeros strip_trailing_zeros_decomp)

lemma strip_padded: "length f \<le> 18 \<Longrightarrow> strip_trailing_zeros (padded_fraction f) = strip_trailing_zeros f"
  by (simp add: padded_fraction_def)

lemma padded_eq_iff:
  assumes "length f \<le> 18" and "length g \<le> 18"
  shows "padded_fraction f = padded_fraction g \<longleftrightarrow> strip_trailing_zeros f = strip_trailing_zeros g"
  using assms by (metis padded_strip strip_padded)

lemma strip_trailing_zeros_digits:
  "list_all is_digit f \<Longrightarrow> list_all is_digit (strip_trailing_zeros f)"
  by (auto simp: strip_trailing_zeros_def list_all_iff dest: set_dropWhileD)

lemma length_strip_trailing_zeros: "length (strip_trailing_zeros f) \<le> length f"
  using length_dropWhile_le [of "\<lambda>c. c = 0x30" "rev f"] by (simp add: strip_trailing_zeros_def)

subsection \<open>Equal values\<close>

lemma units_eq_iff:
  assumes "decimal a" and "decimal b"
  shows "amount_units a = amount_units b \<longleftrightarrow>
    digits_val (integer_part a) = digits_val (integer_part b) \<and>
    padded_fraction (fractional_part a) = padded_fraction (fractional_part b)" (is "?l \<longleftrightarrow> ?r")
proof
  let ?u = "\<lambda>s. digits_val (integer_part s)" and ?v = "\<lambda>s. digits_val (padded_fraction (fractional_part s))"
  assume ?l
  then have eq: "?u a * 10 ^ 18 + ?v a = ?u b * 10 ^ 18 + ?v b" by (simp add: amount_units_split)
  have va: "?v a < 10 ^ 18" and vb: "?v b < 10 ^ 18" using assms by (simp_all only: decimal_padded_bound)
  have "?u a = (?u a * 10 ^ 18 + ?v a) div 10 ^ 18" using va by simp
  also have "\<dots> = ?u b" using eq vb by simp
  finally have u: "?u a = ?u b" .
  with eq have "?v a = ?v b" by simp
  then have "padded_fraction (fractional_part a) = padded_fraction (fractional_part b)"
    using assms by (intro digits_val_inj) (simp_all add: padded_fraction_digits decimal_parts)
  with u show ?r by simp
next
  assume ?r
  then show ?l by (simp add: amount_units_split)
qed

lemma hex_val_digit: "is_digit c \<Longrightarrow> hex_val c = digit_val c"
  by (simp add: hex_val_def digit_val_def)

lemma foldl_hex_digits:
  "list_all is_digit s \<Longrightarrow>
   foldl (\<lambda>n c. n * 10 + hex_val c) k s = foldl (\<lambda>n c. 10 * n + digit_val c) k s"
  by (induction s arbitrary: k) (auto simp: hex_val_digit mult.commute)

lemma BigInt_digits:
  assumes "s \<noteq> []" and "list_all is_digit s"
  shows "BigInt s = Some (int (digits_val s))"
proof -
  have t: "trim s = s"
    using assms(2) by (intro trim_no_space) (auto simp: list_all_iff dest: space_not_digit)
  obtain c r where s: "s = c # r" using assms(1) by (cases s) auto
  have c: "is_digit c" using assms(2) s by simp
  have "r \<noteq> [] \<Longrightarrow> is_digit (hd r)" using assms(2) s by (cases r) auto
  then have "r \<noteq> [] \<Longrightarrow> hd r \<notin> {0x78, 0x58, 0x6F, 0x4F, 0x62, 0x42}"
    by (auto simp: is_digit_def)
  moreover have "c \<noteq> 0x2D" "c \<noteq> 0x2B" using c by (auto simp: is_digit_def)
  ultimately have "BigInt s = base_value 10 is_digit s"
    using t unfolding s BigInt_def by (cases r) (simp_all add: Let_def)
  then show ?thesis
    using assms by (simp add: base_value_def foldl_hex_digits digits_val_def)
qed

lemma normalizeAmount_decimal:
  assumes "decimal a"
  shows "normalizeAmount a =
    Some (nat_digits (digits_val (integer_part a)) @ 0x2E # padded_fraction (fractional_part a))"
  using decimal_parts [OF assms]
  by (simp add: normalizeAmount_def BigInt_digits int_string_def padded_fraction_def)

lemma split_at_point:
  assumes "list_all is_digit s" and "list_all is_digit t"
  shows "s @ 0x2E # f = t @ 0x2E # g \<longleftrightarrow> s = t \<and> f = g"
proof
  assume eq: "s @ 0x2E # f = t @ 0x2E # g"
  have "takeWhile is_digit (u @ 0x2E # h) = u" if "list_all is_digit u" for u h
    using that by (simp add: list_all_iff takeWhile_append)
  with assms eq have "s = t" by metis
  with eq show "s = t \<and> f = g" by simp
qed simp

lemma canonical_amount_form:
  assumes "decimal a"
  shows "integer_part (toCanonicalAmount a) = nat_digits (digits_val (integer_part a))"
    and "fractional_part (toCanonicalAmount a) = strip_trailing_zeros (fractional_part a)"
proof -
  note d = decimal_parts [OF assms]
  let ?i = "nat_digits (digits_val (integer_part a))" and ?f = "strip_trailing_zeros (fractional_part a)"
  have c: "toCanonicalAmount a = (if ?f \<noteq> [] then ?i @ 0x2E # ?f else ?i)"
    using d by (simp add: toCanonicalAmount_def strip_leading_zeros_eq Let_def)
  have "list_all is_digit ?i" by (rule nat_digits_digit)
  moreover have "list_all is_digit ?f" using d(3) by (rule strip_trailing_zeros_digits)
  ultimately show "integer_part (toCanonicalAmount a) = ?i" and "fractional_part (toCanonicalAmount a) = ?f"
    using parts_integer [of ?i] parts_point [of ?i ?f] c by auto
qed

lemma canonical_amount_decimal:
  assumes "decimal a"
  shows "decimal (toCanonicalAmount a)"
proof -
  note d = decimal_parts [OF assms]
  let ?i = "nat_digits (digits_val (integer_part a))" and ?f = "strip_trailing_zeros (fractional_part a)"
  have "toCanonicalAmount a = (if ?f \<noteq> [] then ?i @ 0x2E # ?f else ?i)"
    using d by (simp add: toCanonicalAmount_def strip_leading_zeros_eq Let_def)
  moreover have "?i \<noteq> []" using plain_nat_digits by (auto simp: plain_digits_def)
  moreover have "list_all is_digit ?i" by (rule nat_digits_digit)
  moreover have "list_all is_digit ?f" using d(3) by (rule strip_trailing_zeros_digits)
  ultimately show ?thesis unfolding decimal_def by metis
qed

subsection \<open>What the validator checks\<close>

lemma pattern_plain:
  assumes "DECIMAL_STRING_PATTERN s"
  shows "plain_digits (integer_part s)"
proof -
  note d = decimal_parts [OF pattern_decimal [OF assms]]
  have "takeWhile is_digit s = integer_part s"
    using d(2) by (subst d(4)) (simp add: list_all_iff takeWhile_append)
  then show ?thesis
    using assms d by (auto simp: plain_digits_def DECIMAL_STRING_PATTERN_def Let_def)
qed

lemma plain_digits_short:
  assumes "plain_digits i"
  shows "length (dropWhile (\<lambda>c. c = 0x30) i) \<le> 18 \<longleftrightarrow> digits_val i < 10 ^ 18"
proof (cases "i = [0x30]")
  case False
  then have dw: "dropWhile (\<lambda>c. c = 0x30) i = i"
    using assms by (simp add: dropWhile_id_iff plain_digits_def)
  show ?thesis
  proof
    assume "length (dropWhile (\<lambda>c. c = 0x30) i) \<le> 18"
    then have "(10::nat) ^ length i \<le> 10 ^ 18" using dw by (intro power_increasing) simp_all
    moreover have "digits_val i < 10 ^ length i"
      using assms by (simp add: plain_digits_def digits_val_bound)
    ultimately show "digits_val i < 10 ^ 18" by (rule order.strict_trans2 [rotated])
  next
    assume "digits_val i < 10 ^ 18"
    with plain_digits_lower [OF assms False] have "(10::nat) ^ (length i - 1) < 10 ^ 18"
      by (rule order.strict_trans1)
    then have "length i - 1 < 18" by (rule power_less_imp_less_exp [rotated]) simp
    then show "length (dropWhile (\<lambda>c. c = 0x30) i) \<le> 18" using dw by simp
  qed
qed simp

lemma digits_val_pos:
  "list_all is_digit s \<Longrightarrow> 0 < digits_val s \<longleftrightarrow> list_ex (\<lambda>c. 0x31 \<le> c \<and> c \<le> 0x39) s"
proof (induction s)
  case (Cons c s)
  have "0 < digit_val c \<longleftrightarrow> 0x31 \<le> c \<and> c \<le> 0x39"
    using Cons.prems by (auto simp: is_digit_def digit_val_def unit_nat)
  with Cons show ?case by (auto simp: digits_val_Cons)
qed simp

lemma digits_val_padded:
  "length f \<le> 18 \<Longrightarrow> digits_val (padded_fraction f) = digits_val f * 10 ^ (18 - length f)"
proof -
  have "digits_val (replicate n 0x30) = 0" for n
    by (induction n) (simp_all add: digits_val_Cons digit_val_def)
  then show "length f \<le> 18 \<Longrightarrow> ?thesis" by (simp add: padded_fraction_def digits_val_append)
qed

lemma units_bound_iff:
  assumes "decimal s"
  shows "amount_units s < 10 ^ 36 \<longleftrightarrow> digits_val (integer_part s) < 10 ^ 18"
  using decimal_padded_bound [OF assms] by (auto simp: amount_units_split)

lemma units_pos_iff:
  assumes "decimal s" and "length (fractional_part s) \<le> 18"
  shows "0 < amount_units s \<longleftrightarrow>
    list_ex (\<lambda>c. 0x31 \<le> c \<and> c \<le> 0x39) (integer_part s) \<or>
    list_ex (\<lambda>c. 0x31 \<le> c \<and> c \<le> 0x39) (fractional_part s)"
  using assms decimal_parts [OF assms(1)]
  by (simp add: amount_units_split digits_val_padded flip: digits_val_pos)

lemma sample_units: "amount_units (js ''125.50'') = amount_units (js ''125.500000000000000000'')"
proof -
  have "decimal (js ''125.50'')" and "decimal (js ''125.500000000000000000'')"
    by (rule pattern_decimal, code_simp)+
  moreover have "integer_part (js ''125.50'') = integer_part (js ''125.500000000000000000'')" by code_simp
  moreover have "padded_fraction (fractional_part (js ''125.50''))
      = padded_fraction (fractional_part (js ''125.500000000000000000''))" by code_simp
  ultimately show ?thesis by (simp add: units_eq_iff)
qed

lemma canonical_amount_eq_iff:
  assumes "decimal a" and "decimal b"
    and "length (fractional_part a) \<le> 18" and "length (fractional_part b) \<le> 18"
  shows "toCanonicalAmount a = toCanonicalAmount b \<longleftrightarrow> amount_units a = amount_units b"
proof
  assume "toCanonicalAmount a = toCanonicalAmount b"
  then show "amount_units a = amount_units b"
    by (metis amount_units_split canonical_amount_form [OF assms(1)] canonical_amount_form [OF assms(2)]
        nat_digits_val padded_strip)
next
  assume "amount_units a = amount_units b"
  then have "digits_val (integer_part a) = digits_val (integer_part b)"
    and "strip_trailing_zeros (fractional_part a) = strip_trailing_zeros (fractional_part b)"
    using units_eq_iff [OF assms(1,2)] padded_eq_iff [OF assms(3,4)] by simp_all
  then show "toCanonicalAmount a = toCanonicalAmount b"
    using decimal_parts [OF assms(1)] decimal_parts [OF assms(2)]
    by (simp add: toCanonicalAmount_def strip_leading_zeros_eq)
qed

lemma normalizeAmount_eq_iff:
  "decimal a \<Longrightarrow> decimal b \<Longrightarrow> normalizeAmount a = normalizeAmount b \<longleftrightarrow> amount_units a = amount_units b"
  by (simp add: normalizeAmount_decimal split_at_point nat_digits_digit units_eq_iff)

lemma valid_amount_facts:
  assumes "isValidPaymentAmount (JStr s)"
  shows "decimal s" and "length (fractional_part s) \<le> 18" and "0 < amount_units s"
proof -
  show d: "decimal s" and l: "length (fractional_part s) \<le> 18"
    using assms by (auto simp: isValidPaymentAmount_def pattern_decimal split: if_splits)
  show "0 < amount_units s"
    using assms units_pos_iff [OF d l] by (simp add: isValidPaymentAmount_def split: if_splits)
qed

lemma normalizeAmount_defined: "decimal a \<Longrightarrow> normalizeAmount a \<noteq> None"
  by (simp add: normalizeAmount_decimal)

section \<open>Properties\<close>

text \<open>
  C27: the amount validator accepts a string exactly when it is a plain decimal with
  at most 18 fractional digits whose value is positive and fits \<open>numeric(36,18)\<close>,
  and it accepts no value that is not a string.
\<close>

theorem valid_amount_exact:
  "isValidPaymentAmount v \<longleftrightarrow>
    (\<exists>s. v = JStr s \<and> DECIMAL_STRING_PATTERN s \<and> length (fractional_part s) \<le> 18 \<and>
       0 < amount_units s \<and> amount_units s < 10 ^ 36)"
proof (cases v)
  case (JStr s)
  show ?thesis
  proof (cases "DECIMAL_STRING_PATTERN s \<and> length (fractional_part s) \<le> 18")
    case True
    then have d: "decimal s" and "plain_digits (integer_part s)"
      by (simp_all add: pattern_decimal pattern_plain)
    then have "length (dropWhile (\<lambda>c. c = 0x30) (integer_part s)) \<le> 18 \<longleftrightarrow> amount_units s < 10 ^ 36"
      by (simp only: plain_digits_short units_bound_iff)
    with True JStr units_pos_iff [OF d] show ?thesis
      by (auto simp: isValidPaymentAmount_def not_less)
  next
    case False
    with JStr show ?thesis by (auto simp: isValidPaymentAmount_def)
  qed
qed (simp_all add: isValidPaymentAmount_def)

text \<open>
  the worker compares amounts by value: normalizing a decimal amount never raises,
  and two decimal amounts have the same normalized form exactly when they denote the
  same number of \<open>10^-18\<close> units.
\<close>

theorem normalized_amounts_agree:
  assumes "decimal a" and "decimal b"
  shows "normalizeAmount a \<noteq> None \<and>
    (normalizeAmount a = normalizeAmount b \<longleftrightarrow> amount_units a = amount_units b)"
  using normalizeAmount_defined [OF assms(1)] normalizeAmount_eq_iff [OF assms] by simp

theorem normalized_amounts_agree_witness:
  "normalizeAmount (js ''125.50'') = normalizeAmount (js ''125.500000000000000000'')"
proof -
  have a: "decimal (js ''125.50'')" and b: "decimal (js ''125.500000000000000000'')"
    by (rule pattern_decimal, code_simp)+
  show ?thesis using normalized_amounts_agree [OF a b] sample_units by simp
qed

text \<open>
  The amount of a response is the one shortest decimal form of the value: it
  denotes the same number, it is a fixed point, and two amounts within the scale of the
  column share it exactly when their values are equal.
\<close>

theorem canonical_amount_exact:
  assumes "decimal a" and "decimal b"
    and "length (fractional_part a) \<le> 18" and "length (fractional_part b) \<le> 18"
  shows "amount_units (toCanonicalAmount a) = amount_units a \<and>
    toCanonicalAmount (toCanonicalAmount a) = toCanonicalAmount a \<and>
    (toCanonicalAmount a = toCanonicalAmount b \<longleftrightarrow> amount_units a = amount_units b)"
proof (intro conjI)
  note fa = canonical_amount_form [OF assms(1)]
  show units: "amount_units (toCanonicalAmount a) = amount_units a"
    by (simp add: amount_units_split fa)
  have "plain_digits (integer_part (toCanonicalAmount a))" by (simp add: fa plain_nat_digits)
  then show "toCanonicalAmount (toCanonicalAmount a) = toCanonicalAmount a"
    unfolding toCanonicalAmount_def [of "toCanonicalAmount a"]
    using decimal_parts(4) [OF canonical_amount_decimal [OF assms(1)]]
    by (simp add: strip_leading_zeros_plain fa Let_def split: if_splits)
  show "toCanonicalAmount a = toCanonicalAmount b \<longleftrightarrow> amount_units a = amount_units b"
    using assms by (rule canonical_amount_eq_iff)
qed

theorem canonical_amount_exact_witness:
  "toCanonicalAmount (js ''125.50'') = toCanonicalAmount (js ''125.500000000000000000'') \<and>
   toCanonicalAmount (js ''125.50'') = js ''125.5''"
proof -
  have a: "decimal (js ''125.50'')" and b: "decimal (js ''125.500000000000000000'')"
    by (rule pattern_decimal, code_simp)+
  have l: "length (fractional_part (js ''125.50'')) \<le> 18"
    "length (fractional_part (js ''125.500000000000000000'')) \<le> 18" by code_simp+
  have "toCanonicalAmount (js ''125.50'') = js ''125.5''" by code_simp
  then show ?thesis using canonical_amount_exact [OF a b l] sample_units by simp
qed

end
