(* ===== verification/Errors.thy ===== *)
theory Errors
  imports Canonical_Json
begin

text \<open>
  Thrown values and what the code reads off them:
  \<open>src/common/errors/database-error.ts\<close> (connection failures and data exceptions of
  PostgreSQL), \<open>src/common/errors/sanitize-error.ts\<close> (messages stored in the outbox)
  and the error code functions of \<open>src/common/logging/structured-logger.ts\<close>.

  A thrown value is any JavaScript value.  Objects carry a class (an
  \<open>HttpException\<close> with its status and response body, another \<open>Error\<close>, or another
  object) and their properties; \<open>uget\<close> reads a property and gives \<open>undefined\<close> when
  it is missing.
\<close>

section \<open>Thrown values\<close>

datatype object_class = Class_Http nat json | Class_Error jsstr | Class_Other jsstr

datatype uval =
    U_Undefined
  | U_Null
  | U_Bool bool
  | U_Number int
  | U_String jsstr
  | U_Array "uval list"
  | U_Object object_class "(jsstr \<times> uval) list"

fun uget :: "jsstr \<Rightarrow> uval \<Rightarrow> uval" where
  "uget k (U_Object c ps) = (case map_of ps k of None \<Rightarrow> U_Undefined | Some v \<Rightarrow> v)"
| "uget k _ = U_Undefined"

fun is_object :: "uval \<Rightarrow> bool" where
  "is_object (U_Array xs) = True"
| "is_object (U_Object c ps) = True"
| "is_object _ = False"

fun is_error_instance :: "uval \<Rightarrow> bool" where
  "is_error_instance (U_Object (Class_Http st r) ps) = True"
| "is_error_instance (U_Object (Class_Error n) ps) = True"
| "is_error_instance _ = False"

text \<open>The exceptions the services throw, and a database error with its SQLSTATE.\<close>

definition http_exception :: "nat \<Rightarrow> string \<Rightarrow> string \<Rightarrow> uval" where
  "http_exception status error message =
     U_Object (Class_Http status (JObj [(js ''error'', JStr (js error)), (js ''message'', JStr (js message))]))
       [(js ''message'', U_String (js message))]"

definition js_error :: "string \<Rightarrow> uval" where
  "js_error message =
     U_Object (Class_Error (js ''Error''))
       [(js ''name'', U_String (js ''Error'')), (js ''message'', U_String (js message))]"

definition pg_error :: "string \<Rightarrow> uval" where
  "pg_error code =
     U_Object (Class_Error (js ''QueryFailedError''))
       [(js ''driverError'', U_Object (Class_Error (js ''DatabaseError'')) [(js ''code'', U_String (js code))])]"

section \<open>Database errors\<close>

definition DATABASE_UNAVAILABLE_CODES :: "jsstr list" where
  "DATABASE_UNAVAILABLE_CODES = map js
     [''08000'', ''08001'', ''08003'', ''08004'', ''08006'', ''08007'', ''08P01'',
      ''57P01'', ''57P02'', ''57P03'', ''53300'',
      ''ECONNREFUSED'', ''ECONNRESET'', ''ETIMEDOUT'', ''ENOTFOUND'', ''EPIPE'', ''EHOSTUNREACH'']"

definition DATABASE_UNAVAILABLE_MESSAGES :: "jsstr list" where
  "DATABASE_UNAVAILABLE_MESSAGES = map js
     [''timeout exceeded when trying to connect'',
      ''connection terminated due to connection timeout'',
      ''connection terminated unexpectedly'',
      ''client has encountered a connection error and is not queryable'']"

fun nested_errors :: "uval \<Rightarrow> uval list" where
  "nested_errors (U_Array xs) = xs"
| "nested_errors _ = []"

fun string_list :: "uval \<Rightarrow> jsstr list" where
  "string_list (U_String s) = [s]"
| "string_list _ = []"

function collectErrorCodes :: "uval \<Rightarrow> nat \<Rightarrow> jsstr list" where
  "collectErrorCodes error depth =
     (if 4 < depth \<or> \<not> is_object error then []
      else string_list (uget (js ''code'') error)
        @ collectErrorCodes (uget (js ''driverError'') error) (depth + 1)
        @ collectErrorCodes (uget (js ''cause'') error) (depth + 1)
        @ concat (map (\<lambda>nested. collectErrorCodes nested (depth + 1))
            (nested_errors (uget (js ''errors'') error))))"
  by pat_completeness auto
termination
  by (relation "measure (\<lambda>(error, depth). 5 - depth)") auto

declare collectErrorCodes.simps [simp del]

text \<open>\<open>/^22[0-9A-Z]{3}$/\<close>\<close>

definition POSTGRES_DATA_EXCEPTION_PATTERN :: "jsstr \<Rightarrow> bool" where
  "POSTGRES_DATA_EXCEPTION_PATTERN code \<longleftrightarrow>
     length code = 5 \<and> take 2 code = js ''22'' \<and> list_all (\<lambda>c. is_digit c \<or> is_upper c) (drop 2 code)"

definition findPostgresDataExceptionCode :: "uval \<Rightarrow> jsstr option" where
  "findPostgresDataExceptionCode error = find POSTGRES_DATA_EXCEPTION_PATTERN (collectErrorCodes error 0)"

function collectErrorMessages :: "uval \<Rightarrow> nat \<Rightarrow> jsstr list" where
  "collectErrorMessages error depth =
     (if 4 < depth \<or> \<not> is_object error then []
      else string_list (uget (js ''message'') error)
        @ collectErrorMessages (uget (js ''driverError'') error) (depth + 1)
        @ collectErrorMessages (uget (js ''cause'') error) (depth + 1)
        @ concat (map (\<lambda>nested. collectErrorMessages nested (depth + 1))
            (nested_errors (uget (js ''errors'') error))))"
  by pat_completeness auto
termination
  by (relation "measure (\<lambda>(error, depth). 5 - depth)") auto

declare collectErrorMessages.simps [simp del]

definition normalizeUnavailableMessage :: "jsstr \<Rightarrow> jsstr" where
  "normalizeUnavailableMessage message = to_lower (collapse_spaces (trim message))"

definition isDatabaseUnavailableError :: "uval \<Rightarrow> bool" where
  "isDatabaseUnavailableError error =
     (if list_ex (\<lambda>code. code \<in> set DATABASE_UNAVAILABLE_CODES) (collectErrorCodes error 0) then True
      else list_ex (\<lambda>message. normalizeUnavailableMessage message \<in> set DATABASE_UNAVAILABLE_MESSAGES)
             (collectErrorMessages error 0))"

section \<open>Sanitized messages\<close>

definition MAX_SANITIZED_ERROR_LENGTH :: nat where
  "MAX_SANITIZED_ERROR_LENGTH = 500"

definition raw_error_message :: "uval \<Rightarrow> jsstr \<Rightarrow> jsstr" where
  "raw_error_message error fallback =
     (if is_error_instance error then
        (case uget (js ''message'') error of U_String s \<Rightarrow> s | _ \<Rightarrow> [])
      else (case error of U_String s \<Rightarrow> s | _ \<Rightarrow> fallback))"

definition sanitizeErrorMessage :: "uval \<Rightarrow> jsstr \<Rightarrow> jsstr" where
  "sanitizeErrorMessage error fallback =
     (let sanitized = take MAX_SANITIZED_ERROR_LENGTH
            (trim (collapse_spaces (blank_unprintable (raw_error_message error fallback))))
      in if 0 < length sanitized then sanitized else fallback)"

section \<open>Safe error codes\<close>

text \<open>\<open>/^[A-Z0-9_:-]{1,128}$/\<close>\<close>

definition SAFE_ERROR_CODE_PATTERN :: "jsstr \<Rightarrow> bool" where
  "SAFE_ERROR_CODE_PATTERN s \<longleftrightarrow>
     1 \<le> length s \<and> length s \<le> 128 \<and>
     list_all (\<lambda>c. is_upper c \<or> is_digit c \<or> c = 0x5F \<or> c = 0x3A \<or> c = 0x2D) s"

fun isSafeErrorCode :: "json \<Rightarrow> bool" where
  "isSafeErrorCode (JStr s) = SAFE_ERROR_CODE_PATTERN s"
| "isSafeErrorCode _ = False"

fun getHttpExceptionErrorCode :: "uval \<Rightarrow> jsstr option" where
  "getHttpExceptionErrorCode (U_Object (Class_Http status response) ps) =
     (case json_get (js ''error'') response of
        Some (JStr code) \<Rightarrow> if isSafeErrorCode (JStr code) then Some code else None
      | _ \<Rightarrow> None)"
| "getHttpExceptionErrorCode _ = None"

definition toSafeErrorCode :: "uval \<Rightarrow> jsstr \<Rightarrow> jsstr" where
  "toSafeErrorCode error fallback =
     (case getHttpExceptionErrorCode error of
        Some code \<Rightarrow> code
      | None \<Rightarrow>
          (case (if is_error_instance error then uget (js ''message'') error else U_Undefined) of
             U_String message \<Rightarrow> if SAFE_ERROR_CODE_PATTERN message then message else fallback
           | _ \<Rightarrow> fallback))"

text \<open>An event handed to the structured logger: its level, its name and its fields.\<close>

datatype log_level = Log_Info | Log_Warn | Log_Error

type_synonym log_event = "log_level \<times> jsstr \<times> (jsstr \<times> uval) list"

section \<open>Facts\<close>

lemma set_trim: "set (trim s) \<subseteq> set s"
  unfolding trim_def by (rule set_strip_both)

lemma space_printable: "is_printable 0x20"
  by (simp add: is_printable_def)

lemma sanitize_printable:
  assumes "c \<in> set (take n (trim (collapse_spaces (blank_unprintable s))))"
  shows "is_printable c"
proof -
  have "c \<in> set (collapse_spaces (blank_unprintable s))"
    using assms set_trim by (blast dest: in_set_takeD)
  then have "c = 0x20 \<or> c \<in> set (blank_unprintable s)" using set_collapse_spaces by blast
  then show ?thesis using set_blank_unprintable space_printable by blast
qed

section \<open>Properties\<close>

text \<open>
  a sanitized error message is never empty, has at most 500 code units and
  contains printable ASCII only, whatever was thrown (given a fallback that does).
\<close>

theorem sanitized_message_safe:
  assumes "fallback \<noteq> []" and "length fallback \<le> 500" and "list_all is_printable fallback"
  shows "sanitizeErrorMessage error fallback \<noteq> [] \<and> length (sanitizeErrorMessage error fallback) \<le> 500 \<and>
    list_all is_printable (sanitizeErrorMessage error fallback)"
  using assms by (auto simp: sanitizeErrorMessage_def MAX_SANITIZED_ERROR_LENGTH_def Let_def list_all_iff
      intro: sanitize_printable)

theorem sanitized_message_safe_witness:
  "length (sanitizeErrorMessage (js_error ''connect ECONNREFUSED'') (js ''UNKNOWN_ERROR'')) \<le> 500"
proof -
  have "js ''UNKNOWN_ERROR'' \<noteq> []" "length (js ''UNKNOWN_ERROR'') \<le> 500"
    "list_all is_printable (js ''UNKNOWN_ERROR'')" by (simp_all add: js_eval)
  then show ?thesis using sanitized_message_safe by blast
qed

end
