(* ===== verification/Database.thy ===== *)
theory Database
  imports Amounts Errors
begin

text \<open>
  The durable state and the transactions over it.

  The tables and their constraints are those of the migrations
  (\<open>migrations/1781850000000-CreateDatabaseFoundation.ts\<close>,
  \<open>migrations/1783000000000-AddOutboxDeadAt.ts\<close>) and of the entities under
  \<open>src/database/entities\<close>: one record per row, one list of rows per table.  A
  statement is a function on the tables that returns rows or raises the SQLSTATE of
  the constraint it violates.

  A transaction (\<open>dataSource.transaction\<close>) runs statements one after the other in a
  session.  Any statement may fail: \<open>faults\<close> says which one does and with which
  error, so every theorem holds for every pattern of failures (lost connections,
  data exceptions, deadlocks).  After a failed statement PostgreSQL refuses every
  further statement of the transaction (SQLSTATE 25P02).  An exception that leaves
  the callback rolls the tables back; COMMIT itself may fail, with or without having
  taken effect.  \<open>ext\<close> is state outside the database (the queue) that no rollback
  restores.

  Transactions are run one at a time: the row locks and unique indexes the code
  relies on make concurrent transactions equivalent to some such order.  Rows that
  another transaction holds are visible to the \<open>SKIP LOCKED\<close> queries as \<open>locked\<close>.

  PostgreSQL's conversions of \<open>uuid\<close> and \<open>numeric(36,18)\<close> values are not code of the
  repository: they are the fields \<open>pg_uuid\<close> and \<open>pg_numeric\<close> of the environment.
\<close>

section \<open>Rows\<close>

type_synonym uuid = jsstr
type_synonym time = int

datatype PaymentIntentStatus = PI_Created | PI_Processing | PI_Confirmed | PI_Failed | PI_Expired

datatype WebhookEventStatus = WE_Received | WE_Queued | WE_Processing | WE_Processed | WE_Failed | WE_Rejected

datatype OutboxEventStatus = OB_Pending | OB_Published | OB_Failed

datatype WebhookProcessingAttemptStatus = WA_Started | WA_Succeeded | WA_Failed

record PaymentIntentEntity =
  pi_id :: uuid
  pi_status :: PaymentIntentStatus
  pi_amount :: jsstr
  pi_asset :: jsstr
  pi_destination :: jsstr
  pi_reference :: "jsstr option"
  pi_clientRequestId :: "jsstr option"
  pi_metadata :: json
  pi_confirmedTxHash :: "jsstr option"
  pi_failureReason :: "jsstr option"
  pi_expiresAt :: "time option"
  pi_createdAt :: time
  pi_updatedAt :: time

text \<open>The response body of a payment intent; times are rendered as ISO strings on the wire.\<close>

record PaymentIntentResponse =
  pr_id :: uuid
  pr_status :: PaymentIntentStatus
  pr_amount :: jsstr
  pr_asset :: jsstr
  pr_destination :: jsstr
  pr_reference :: "jsstr option"
  pr_clientRequestId :: "jsstr option"
  pr_confirmedTxHash :: "jsstr option"
  pr_createdAt :: time
  pr_updatedAt :: time

record IdempotencyRecordEntity =
  ir_id :: uuid
  ir_scope :: jsstr
  ir_idempotencyKey :: jsstr
  ir_requestHash :: jsstr
  ir_responseStatus :: "int option"
  ir_responseBody :: "PaymentIntentResponse option"
  ir_resourceType :: "jsstr option"
  ir_resourceId :: "uuid option"
  ir_createdAt :: time
  ir_expiresAt :: "time option"

record WebhookEventEntity =
  we_id :: uuid
  we_provider :: jsstr
  we_externalEventId :: jsstr
  we_nonce :: "jsstr option"
  we_eventType :: jsstr
  we_paymentIntentId :: "uuid option"
  we_txHash :: "jsstr option"
  we_payload :: json
  we_payloadHash :: jsstr
  we_status :: WebhookEventStatus
  we_failureReason :: "jsstr option"
  we_receivedAt :: time
  we_processedAt :: "time option"
  we_createdAt :: time
  we_updatedAt :: time

record OutboxEventEntity =
  ob_id :: uuid
  ob_type :: jsstr
  ob_aggregateType :: jsstr
  ob_aggregateId :: uuid
  ob_payload :: json
  ob_status :: OutboxEventStatus
  ob_attempts :: int
  ob_nextAttemptAt :: "time option"
  ob_lastError :: "jsstr option"
  ob_deadAt :: "time option"
  ob_createdAt :: time
  ob_publishedAt :: "time option"
  ob_updatedAt :: time

record WebhookProcessingAttemptEntity =
  wa_id :: uuid
  wa_webhookEventId :: uuid
  wa_jobId :: "jsstr option"
  wa_status :: WebhookProcessingAttemptStatus
  wa_errorMessage :: "jsstr option"
  wa_startedAt :: time
  wa_finishedAt :: "time option"
  wa_createdAt :: time

record db =
  payment_intents :: "PaymentIntentEntity list"
  idempotency_records :: "IdempotencyRecordEntity list"
  webhook_events :: "WebhookEventEntity list"
  outbox_events :: "OutboxEventEntity list"
  webhook_processing_attempts :: "WebhookProcessingAttemptEntity list"

definition empty_db :: db where
  "empty_db = \<lparr>payment_intents = [], idempotency_records = [], webhook_events = [], outbox_events = [],
     webhook_processing_attempts = []\<rparr>"

section \<open>Transactions\<close>

datatype commit_outcome = Commit_Ok | Commit_Lost uval | Commit_Unacknowledged uval

record env =
  clock :: "nat \<Rightarrow> time"
  pg_now :: time
  new_uuid :: "nat \<Rightarrow> uuid"
  faults :: "nat \<Rightarrow> uval option"
  commit :: commit_outcome
  locked :: "uuid \<Rightarrow> bool"
  pg_uuid :: "jsstr \<Rightarrow> uuid option"
  pg_numeric :: "jsstr \<Rightarrow> jsstr option"

record 'x session =
  tables :: db
  aborted :: bool
  stmts :: nat
  ticks :: nat
  fresh :: nat
  ext :: 'x

type_synonym ('x, 'a) tx = "env \<Rightarrow> 'x session \<Rightarrow> (uval + 'a) \<times> 'x session"

definition tx_return :: "'a \<Rightarrow> ('x, 'a) tx" where
  "tx_return x e s = (Inr x, s)"

definition tx_throw :: "uval \<Rightarrow> ('x, 'a) tx" where
  "tx_throw err e s = (Inl err, s)"

definition tx_bind :: "('x, 'a) tx \<Rightarrow> ('a \<Rightarrow> ('x, 'b) tx) \<Rightarrow> ('x, 'b) tx" where
  "tx_bind m f e s = (case m e s of (Inl err, s') \<Rightarrow> (Inl err, s') | (Inr x, s') \<Rightarrow> f x e s')"

definition tx_catch :: "('x, 'a) tx \<Rightarrow> (uval \<Rightarrow> ('x, 'a) tx) \<Rightarrow> ('x, 'a) tx" where
  "tx_catch m h e s = (case m e s of (Inl err, s') \<Rightarrow> h err e s' | (Inr x, s') \<Rightarrow> (Inr x, s'))"

text \<open>
  \<open>new Date()\<close>, the identifier that \<open>gen_random_uuid()\<close> gives the next row, and a
  fixed part of the environment.
\<close>

definition tx_clock :: "('x, time) tx" where
  "tx_clock e s = (Inr (clock e (ticks s)), s\<lparr>ticks := Suc (ticks s)\<rparr>)"

definition tx_uuid :: "('x, uuid) tx" where
  "tx_uuid e s = (Inr (new_uuid e (fresh s)), s\<lparr>fresh := Suc (fresh s)\<rparr>)"

definition tx_ask :: "(env \<Rightarrow> 'a) \<Rightarrow> ('x, 'a) tx" where
  "tx_ask f e s = (Inr (f e), s)"

definition sql :: "(db \<Rightarrow> uval + ('a \<times> db)) \<Rightarrow> ('x, 'a) tx" where
  "sql f e s =
     (let s' = s\<lparr>stmts := Suc (stmts s)\<rparr>
      in if aborted s then (Inl (pg_error ''25P02''), s')
         else (case faults e (stmts s) of
                 Some err \<Rightarrow> (Inl err, s'\<lparr>aborted := True\<rparr>)
               | None \<Rightarrow>
                   (case f (tables s) of
                      Inl err \<Rightarrow> (Inl err, s'\<lparr>aborted := True\<rparr>)
                    | Inr (x, d) \<Rightarrow> (Inr x, s'\<lparr>tables := d\<rparr>))))"

definition query :: "(db \<Rightarrow> 'a) \<Rightarrow> ('x, 'a) tx" where
  "query f = sql (\<lambda>d. Inr (f d, d))"

definition new_session :: "db \<Rightarrow> 'x \<Rightarrow> 'x session" where
  "new_session d x = \<lparr>tables = d, aborted = False, stmts = 0, ticks = 0, fresh = 0, ext = x\<rparr>"

definition transaction :: "('x, 'a) tx \<Rightarrow> env \<Rightarrow> db \<times> 'x \<Rightarrow> (uval + 'a) \<times> db \<times> 'x" where
  "transaction p e st =
     (case p e (new_session (fst st) (snd st)) of
        (Inl err, s) \<Rightarrow> (Inl err, fst st, ext s)
      | (Inr x, s) \<Rightarrow>
          if aborted s then (Inr x, fst st, ext s)
          else (case commit e of
                  Commit_Ok \<Rightarrow> (Inr x, tables s, ext s)
                | Commit_Lost err \<Rightarrow> (Inl err, fst st, ext s)
                | Commit_Unacknowledged err \<Rightarrow> (Inl err, tables s, ext s)))"

text \<open>A transaction that touches nothing but the database.\<close>

definition db_transaction :: "(unit, 'a) tx \<Rightarrow> env \<Rightarrow> db \<Rightarrow> (uval + 'a) \<times> db" where
  "db_transaction p e d = (case transaction p e (d, ()) of (r, d', _) \<Rightarrow> (r, d'))"

text \<open>
  Documented behaviour of PostgreSQL's types that theorems may assume of the environment:
  a \<open>numeric(36,18)\<close> column keeps the value of every amount that fits, and prints it as a
  decimal with at most 18 fractional digits; a \<open>uuid\<close> is printed in one canonical form.
\<close>

definition numeric_column :: "(jsstr \<Rightarrow> jsstr option) \<Rightarrow> bool" where
  "numeric_column f \<longleftrightarrow>
     (\<forall>a. isValidPaymentAmount (JStr a) \<longrightarrow>
        (\<exists>b. f a = Some b \<and> decimal b \<and> length (fractional_part b) \<le> 18 \<and> amount_units b = amount_units a))"

definition uuid_column :: "(jsstr \<Rightarrow> uuid option) \<Rightarrow> bool" where
  "uuid_column f \<longleftrightarrow> (\<forall>s u. f s = Some u \<longrightarrow> f u = Some u)"

section \<open>Constraints\<close>

text \<open>
  The unique indexes of the schema.  A partial index ignores rows whose column is NULL,
  and a row does not conflict with itself.
\<close>

definition pi_conflicts :: "PaymentIntentEntity \<Rightarrow> PaymentIntentEntity \<Rightarrow> bool" where
  "pi_conflicts row r \<longleftrightarrow>
     pi_confirmedTxHash row \<noteq> None \<and> pi_confirmedTxHash r = pi_confirmedTxHash row"

definition ir_conflicts :: "IdempotencyRecordEntity \<Rightarrow> IdempotencyRecordEntity \<Rightarrow> bool" where
  "ir_conflicts row r \<longleftrightarrow> ir_scope r = ir_scope row \<and> ir_idempotencyKey r = ir_idempotencyKey row"

definition we_conflicts :: "WebhookEventEntity \<Rightarrow> WebhookEventEntity \<Rightarrow> bool" where
  "we_conflicts row r \<longleftrightarrow>
     we_provider r = we_provider row \<and>
     (we_externalEventId r = we_externalEventId row \<or> (we_nonce row \<noteq> None \<and> we_nonce r = we_nonce row))"

text \<open>
  The \<open>varchar(n)\<close> columns, which count characters, and the checks of the two tables
  whose text comes from requests.
\<close>

definition varchar :: "nat \<Rightarrow> jsstr \<Rightarrow> bool" where
  "varchar n s \<longleftrightarrow> length (code_points s) \<le> n"

definition varchar_null :: "nat \<Rightarrow> jsstr option \<Rightarrow> bool" where
  "varchar_null n s \<longleftrightarrow> (case s of None \<Rightarrow> True | Some t \<Rightarrow> varchar n t)"

definition pi_fits :: "PaymentIntentEntity \<Rightarrow> bool" where
  "pi_fits row \<longleftrightarrow>
     varchar 32 (pi_asset row) \<and> varchar 255 (pi_destination row) \<and> varchar_null 255 (pi_reference row) \<and>
     varchar_null 255 (pi_clientRequestId row) \<and> varchar_null 255 (pi_confirmedTxHash row)"

definition ir_fits :: "IdempotencyRecordEntity \<Rightarrow> bool" where
  "ir_fits row \<longleftrightarrow>
     varchar 128 (ir_scope row) \<and> varchar 255 (ir_idempotencyKey row) \<and> varchar 128 (ir_requestHash row) \<and>
     varchar_null 128 (ir_resourceType row)"

definition we_fits :: "WebhookEventEntity \<Rightarrow> bool" where
  "we_fits row \<longleftrightarrow>
     varchar 128 (we_provider row) \<and> varchar 255 (we_externalEventId row) \<and> varchar_null 255 (we_nonce row) \<and>
     varchar 128 (we_eventType row) \<and> varchar_null 255 (we_txHash row) \<and> varchar 128 (we_payloadHash row)"

section \<open>Statements\<close>

text \<open>
  INSERT of a new payment intent: the amount is converted to \<open>numeric(36,18)\<close> in the
  row, while the entity in memory, which is returned, keeps the text it was created with.
\<close>

definition pi_insert ::
  "(jsstr \<Rightarrow> jsstr option) \<Rightarrow> PaymentIntentEntity \<Rightarrow> db \<Rightarrow> uval + (PaymentIntentEntity \<times> db)" where
  "pi_insert numeric row d =
     (case numeric (pi_amount row) of
        None \<Rightarrow> Inl (pg_error ''22P02'')
      | Some amount \<Rightarrow>
          if \<not> pi_fits row then Inl (pg_error ''22001'')
          else if amount_units amount = 0 then Inl (pg_error ''23514'')
          else if list_ex (\<lambda>r. pi_id r = pi_id row \<or> pi_conflicts row r) (payment_intents d)
          then Inl (pg_error ''23505'')
          else Inr (row, d\<lparr>payment_intents := payment_intents d @ [row\<lparr>pi_amount := amount\<rparr>]\<rparr>))"

definition pi_save :: "time \<Rightarrow> PaymentIntentEntity \<Rightarrow> db \<Rightarrow> uval + (PaymentIntentEntity \<times> db)" where
  "pi_save now row d =
     (if \<not> pi_fits row then Inl (pg_error ''22001'')
      else if list_ex (\<lambda>r. pi_id r \<noteq> pi_id row \<and> pi_conflicts row r) (payment_intents d)
      then Inl (pg_error ''23505'')
      else
        let row' = row\<lparr>pi_updatedAt := now\<rparr>
        in Inr (row', d\<lparr>payment_intents := row_update pi_id (pi_id row) (\<lambda>_. row') (payment_intents d)\<rparr>))"

text \<open>\<open>INSERT ... ON CONFLICT DO NOTHING RETURNING id\<close>: \<open>None\<close> when any unique index refuses.\<close>

definition ir_insert_or_ignore :: "IdempotencyRecordEntity \<Rightarrow> db \<Rightarrow> uval + (uuid option \<times> db)" where
  "ir_insert_or_ignore row d =
     (if \<not> ir_fits row then Inl (pg_error ''22001'')
      else if list_ex (\<lambda>r. ir_id r = ir_id row \<or> ir_conflicts row r) (idempotency_records d)
      then Inr (None, d)
      else Inr (Some (ir_id row), d\<lparr>idempotency_records := idempotency_records d @ [row]\<rparr>))"

definition ir_save :: "IdempotencyRecordEntity \<Rightarrow> db \<Rightarrow> uval + (unit \<times> db)" where
  "ir_save row d =
     (if \<not> ir_fits row then Inl (pg_error ''22001'')
      else Inr ((), d\<lparr>idempotency_records := row_update ir_id (ir_id row) (\<lambda>_. row) (idempotency_records d)\<rparr>))"

definition we_insert_or_ignore :: "WebhookEventEntity \<Rightarrow> db \<Rightarrow> uval + (uuid option \<times> db)" where
  "we_insert_or_ignore row d =
     (if \<not> we_fits row then Inl (pg_error ''22001'')
      else if list_ex (\<lambda>r. we_id r = we_id row \<or> we_conflicts row r) (webhook_events d)
      then Inr (None, d)
      else Inr (Some (we_id row), d\<lparr>webhook_events := webhook_events d @ [row]\<rparr>))"

definition we_save :: "time \<Rightarrow> WebhookEventEntity \<Rightarrow> db \<Rightarrow> uval + (WebhookEventEntity \<times> db)" where
  "we_save now row d =
     (if \<not> we_fits row then Inl (pg_error ''22001'')
      else let row' = row\<lparr>we_updatedAt := now\<rparr>
      in Inr (row', d\<lparr>webhook_events := row_update we_id (we_id row) (\<lambda>_. row') (webhook_events d)\<rparr>))"

definition ob_insert :: "OutboxEventEntity \<Rightarrow> db \<Rightarrow> uval + (unit \<times> db)" where
  "ob_insert row d =
     (if ob_attempts row < 0 then Inl (pg_error ''23514'')
      else if list_ex (\<lambda>r. ob_id r = ob_id row) (outbox_events d) then Inl (pg_error ''23505'')
      else Inr ((), d\<lparr>outbox_events := outbox_events d @ [row]\<rparr>))"

text \<open>\<open>UPDATE outbox_events SET ... WHERE id = $1\<close>; TypeORM also sets \<open>updated_at\<close>.\<close>

definition ob_update ::
  "time \<Rightarrow> uuid \<Rightarrow> (OutboxEventEntity \<Rightarrow> OutboxEventEntity) \<Rightarrow> db \<Rightarrow> uval + (unit \<times> db)" where
  "ob_update now i f d =
     Inr ((), d\<lparr>outbox_events := row_update ob_id i (\<lambda>r. (f r)\<lparr>ob_updatedAt := now\<rparr>) (outbox_events d)\<rparr>)"

definition wa_insert :: "WebhookProcessingAttemptEntity \<Rightarrow> db \<Rightarrow> uval + (unit \<times> db)" where
  "wa_insert row d =
     (if \<not> varchar_null 255 (wa_jobId row) then Inl (pg_error ''22001'')
      else if list_ex (\<lambda>r. wa_id r = wa_id row) (webhook_processing_attempts d) then Inl (pg_error ''23505'')
      else if \<not> list_ex (\<lambda>w. we_id w = wa_webhookEventId row) (webhook_events d) then Inl (pg_error ''23503'')
      else if (case wa_finishedAt row of None \<Rightarrow> False | Some t \<Rightarrow> t < wa_startedAt row)
      then Inl (pg_error ''23514'')
      else Inr ((), d\<lparr>webhook_processing_attempts := webhook_processing_attempts d @ [row]\<rparr>))"

section \<open>Running a transaction\<close>

lemma tx_run [tx_eval]:
  "tx_return x e s = (Inr x, s)"
  "tx_throw err e s = (Inl err, s)"
  "tx_clock e s = (Inr (clock e (ticks s)), s\<lparr>ticks := Suc (ticks s)\<rparr>)"
  "tx_uuid e s = (Inr (new_uuid e (fresh s)), s\<lparr>fresh := Suc (fresh s)\<rparr>)"
  "tx_ask f e s = (Inr (f e), s)"
  by (simp_all add: tx_return_def tx_throw_def tx_clock_def tx_uuid_def tx_ask_def)

lemma tx_bind_run [tx_eval]:
  "tx_bind m f e s = (case m e s of (Inl err, s') \<Rightarrow> (Inl err, s') | (Inr x, s') \<Rightarrow> f x e s')"
  by (rule tx_bind_def)

lemma tx_bind_assoc: "tx_bind (tx_bind m f) g = tx_bind m (\<lambda>x. tx_bind (f x) g)"
  by (rule ext, rule ext) (simp add: tx_bind_def split: prod.splits sum.splits)

lemma tx_bind_Inr [tx_inv]:
  "tx_bind m f e s = (Inr y, s') \<longleftrightarrow> (\<exists>x s1. m e s = (Inr x, s1) \<and> f x e s1 = (Inr y, s'))"
  by (auto simp: tx_bind_def split: prod.splits sum.splits)

lemma sql_Inr [tx_inv]:
  "sql f e s = (Inr x, s') \<longleftrightarrow>
     \<not> aborted s \<and> faults e (stmts s) = None \<and>
     (\<exists>d. f (tables s) = Inr (x, d) \<and> s' = s\<lparr>stmts := Suc (stmts s), tables := d\<rparr>)"
  by (auto simp: sql_def Let_def split: option.splits sum.splits if_splits)

lemma query_Inr [tx_inv]:
  "query f e s = (Inr x, s') \<longleftrightarrow>
     \<not> aborted s \<and> faults e (stmts s) = None \<and> x = f (tables s) \<and> s' = s\<lparr>stmts := Suc (stmts s)\<rparr>"
  by (auto simp: query_def sql_Inr)

lemma tx_basic_Inr [tx_inv]:
  "tx_return x e s = (Inr y, s') \<longleftrightarrow> y = x \<and> s' = s"
  "tx_throw err e s = (Inr z, s') \<longleftrightarrow> False"
  "tx_clock e s = (Inr t, s') \<longleftrightarrow> t = clock e (ticks s) \<and> s' = s\<lparr>ticks := Suc (ticks s)\<rparr>"
  "tx_uuid e s = (Inr i, s') \<longleftrightarrow> i = new_uuid e (fresh s) \<and> s' = s\<lparr>fresh := Suc (fresh s)\<rparr>"
  "tx_ask f e s = (Inr v, s') \<longleftrightarrow> v = f e \<and> s' = s"
  by (auto simp: tx_run)

lemma transaction_Inr:
  "transaction p e (d, x) = (Inr r, d', x') \<longleftrightarrow>
     (\<exists>s. p e (new_session d x) = (Inr r, s) \<and> x' = ext s \<and>
          ((aborted s \<and> d' = d) \<or> (\<not> aborted s \<and> commit e = Commit_Ok \<and> d' = tables s)))"
  by (auto simp: transaction_def split: prod.splits sum.splits commit_outcome.splits if_splits)

lemma new_session_sel [simp, tx_eval]:
  "tables (new_session d x) = d" "aborted (new_session d x) = False" "stmts (new_session d x) = 0"
  "ticks (new_session d x) = 0" "fresh (new_session d x) = 0" "ext (new_session d x) = x"
  by (simp_all add: new_session_def)

text \<open>The environment without failures: no statement fails and COMMIT succeeds.\<close>

definition calm :: "env \<Rightarrow> env" where
  "calm e = e\<lparr>faults := \<lambda>_. None, commit := Commit_Ok\<rparr>"

lemma calm_sel [simp, tx_eval]:
  "clock (calm e) = clock e" "pg_now (calm e) = pg_now e" "new_uuid (calm e) = new_uuid e"
  "faults (calm e) = (\<lambda>_. None)" "commit (calm e) = Commit_Ok" "locked (calm e) = locked e"
  "pg_uuid (calm e) = pg_uuid e" "pg_numeric (calm e) = pg_numeric e" "calm (calm e) = calm e"
  by (simp_all add: calm_def)

lemma sql_calm [tx_eval]:
  "sql f (calm e) s =
     (let s' = s\<lparr>stmts := Suc (stmts s)\<rparr>
      in if aborted s then (Inl (pg_error ''25P02''), s')
         else (case f (tables s) of
                 Inl err \<Rightarrow> (Inl err, s'\<lparr>aborted := True\<rparr>)
               | Inr (x, d) \<Rightarrow> (Inr x, s'\<lparr>tables := d\<rparr>)))"
  by (cases "aborted s") (simp_all add: sql_def)

section \<open>Column lengths\<close>

lemma length_code_points: "length (code_points s) \<le> length s"
  by (induction s rule: code_points.induct) auto

lemma varcharI: "length s \<le> n \<Longrightarrow> varchar n s"
  using length_code_points [of s] by (simp add: varchar_def)

lemma varchar_null_None [simp]: "varchar_null n None"
  by (simp add: varchar_null_def)

lemma varchar_null_Some [simp]: "varchar_null n (Some s) \<longleftrightarrow> varchar n s"
  by (simp add: varchar_null_def)

lemma hash_fits: "(\<And>m. length (sha256 m) = 32) \<Longrightarrow> varchar 128 (hashCanonicalJson sha256 v)"
  by (rule varcharI) (simp add: hashCanonicalJson_def)

section \<open>Failures only abort\<close>

text \<open>
  A program is \<open>fault_safe\<close> when a failing statement can only make it throw: a run that
  returns is the run without failures, and it leaves the session usable.
\<close>

definition fault_safe :: "('x, 'a) tx \<Rightarrow> bool" where
  "fault_safe p \<longleftrightarrow>
     (\<forall>e s x s'. \<not> aborted s \<longrightarrow> p e s = (Inr x, s') \<longrightarrow> \<not> aborted s' \<and> p (calm e) s = (Inr x, s'))"

named_theorems fault_safe_intros \<open>the programs that a failing statement can only make throw\<close>

lemma fault_safeI:
  assumes "\<And>e s x s'. \<not> aborted s \<Longrightarrow> p e s = (Inr x, s') \<Longrightarrow> \<not> aborted s' \<and> p (calm e) s = (Inr x, s')"
  shows "fault_safe p"
  using assms unfolding fault_safe_def by blast

lemma fault_safeD:
  assumes "fault_safe p" and "\<not> aborted s" and "p e s = (Inr x, s')"
  shows "\<not> aborted s'" and "p (calm e) s = (Inr x, s')"
  using assms unfolding fault_safe_def by blast+

lemma fault_safe_basic [fault_safe_intros]:
  "fault_safe (tx_return x)" "fault_safe (tx_throw err)" "fault_safe tx_clock" "fault_safe tx_uuid"
  by (auto intro!: fault_safeI simp: tx_run)

lemma fault_safe_ask [fault_safe_intros]:
  "(\<And>e. f (calm e) = f e) \<Longrightarrow> fault_safe (tx_ask f)"
  by (auto intro!: fault_safeI simp: tx_run)

lemma fault_safe_sql [fault_safe_intros]: "fault_safe (sql f)"
  by (auto intro!: fault_safeI simp: sql_def Let_def split: option.splits sum.splits if_splits)

lemma fault_safe_query [fault_safe_intros]: "fault_safe (query f)"
  unfolding query_def by (rule fault_safe_sql)

lemma fault_safe_bind [fault_safe_intros]:
  assumes "fault_safe m" and "\<And>x. fault_safe (f x)"
  shows "fault_safe (tx_bind m f)"
proof (rule fault_safeI)
  fix e and s :: "'a session" and y s'
  assume s: "\<not> aborted s" and run: "tx_bind m f e s = (Inr y, s')"
  from run obtain x s1 where 1: "m e s = (Inr x, s1)" and 2: "f x e s1 = (Inr y, s')"
    by (auto simp: tx_bind_def split: prod.splits sum.splits)
  note m = fault_safeD [OF assms(1) s 1]
  note f = fault_safeD [OF assms(2) m(1) 2]
  show "\<not> aborted s' \<and> tx_bind m f (calm e) s = (Inr y, s')"
    using f m(2) by (simp add: tx_bind_def)
qed

lemma fault_safe_if [fault_safe_intros]:
  "fault_safe p \<Longrightarrow> fault_safe q \<Longrightarrow> fault_safe (if b then p else q)"
  by simp

lemma fault_safe_option [fault_safe_intros]:
  "fault_safe p \<Longrightarrow> (\<And>x. fault_safe (q x)) \<Longrightarrow> fault_safe (case y of None \<Rightarrow> p | Some x \<Rightarrow> q x)"
  by (cases y) simp_all

text \<open>
  What \<open>dataSource.transaction\<close> promises of a callback whose failures are not caught: either the
  call returns what it returns without failures and the tables are those of that run,
  or it throws and the tables are as before, or COMMIT took effect without being acknowledged.
\<close>

locale atomic_operation =
  fixes body :: "('x, 'a) tx"
  assumes safe: "fault_safe body"
begin

lemma run_calm:
  "transaction body (calm e) st =
     (case body (calm e) (new_session (fst st) (snd st)) of
        (Inl err, s) \<Rightarrow> (Inl err, fst st, ext s)
      | (Inr x, s) \<Rightarrow> (Inr x, tables s, ext s))"
proof (cases "body (calm e) (new_session (fst st) (snd st))")
  case (Pair r s)
  have "\<not> aborted (new_session (fst st) (snd st))" by (simp add: new_session_def)
  from fault_safeD(1) [OF safe this] Pair show ?thesis
    by (cases r) (auto simp: transaction_def)
qed

lemma outcome:
  "transaction body e st = transaction body (calm e) st \<or>
   (\<exists>err x. transaction body e st = (Inl err, fst st, x)) \<or>
   (\<exists>err x r. transaction body e st = (Inl err, x) \<and> transaction body (calm e) st = (Inr r, x))"
proof (cases "body e (new_session (fst st) (snd st))")
  case (Pair r s)
  have open_session: "\<not> aborted (new_session (fst st) (snd st))" by (simp add: new_session_def)
  show ?thesis
  proof (cases r)
    case (Inl err)
    with Pair show ?thesis by (simp add: transaction_def)
  next
    case (Inr x)
    with Pair fault_safeD [OF safe open_session, of e x s]
    have "\<not> aborted s" and "body (calm e) (new_session (fst st) (snd st)) = (Inr x, s)" by simp_all
    with Pair Inr show ?thesis by (cases "commit e") (auto simp: transaction_def)
  qed
qed

end

locale atomic_db_operation = atomic_operation body for body :: "(unit, 'a) tx"
begin

lemma db_calm:
  "db_transaction body (calm e) d =
     (case body (calm e) (new_session d ()) of
        (Inl err, s) \<Rightarrow> (Inl err, d)
      | (Inr x, s) \<Rightarrow> (Inr x, tables s))"
  by (simp add: db_transaction_def run_calm split: prod.splits sum.splits)

lemma db_outcome:
  "db_transaction body e d = db_transaction body (calm e) d \<or>
   (\<exists>err. db_transaction body e d = (Inl err, d)) \<or>
   (\<exists>err d' r. db_transaction body e d = (Inl err, d') \<and> db_transaction body (calm e) d = (Inr r, d'))"
  using outcome [of e "(d, ())"] unfolding db_transaction_def
  by (elim disjE exE) (auto split: prod.splits)

lemma returns_calm:
  "db_transaction body e d = (Inr r, d') \<Longrightarrow> db_transaction body (calm e) d = (Inr r, d')"
  using db_outcome [of e d] by auto

lemma effect_cases:
  obtains "snd (db_transaction body e d) = d"
  | r where "db_transaction body (calm e) d = (Inr r, snd (db_transaction body e d))"
proof (cases "db_transaction body (calm e) d")
  case (Pair r d')
  have "d' = d" if "r = Inl err" for err
    using Pair that unfolding db_calm by (auto split: prod.splits sum.splits)
  with db_outcome [of e d] Pair that show ?thesis by (cases r) (auto simp: Pair)
qed

lemma error_unchanged:
  "db_transaction body (calm e) d = (Inl err, d') \<Longrightarrow> snd (db_transaction body e d) = d"
  using effect_cases [of e d] by (metis Pair_inject sum.distinct(2))

end

section \<open>Unique rows\<close>

text \<open>
  A table with a primary key and a (partial) unique index: no two rows have the same key,
  and no two rows conflict.
\<close>

locale unique_index =
  fixes key :: "'r \<Rightarrow> 'k" and conflicts :: "'r \<Rightarrow> 'r \<Rightarrow> bool"
  assumes conflicts_sym: "conflicts a b \<longleftrightarrow> conflicts b a"
begin

definition unique_rows :: "'r list \<Rightarrow> bool" where
  "unique_rows rows \<longleftrightarrow> distinct (map key rows) \<and> (\<forall>a\<in>set rows. \<forall>b\<in>set rows. key a \<noteq> key b \<longrightarrow> \<not> conflicts a b)"

lemma unique_Nil: "unique_rows []"
  by (simp add: unique_rows_def)

lemma unique_append:
  assumes "unique_rows rows" and "\<not> list_ex (\<lambda>r. key r = key row \<or> conflicts row r) rows"
  shows "unique_rows (rows @ [row])"
  using assms conflicts_sym unfolding unique_rows_def list_ex_iff by auto

lemma unique_update:
  assumes "unique_rows rows" and key: "\<And>r. key r = k \<Longrightarrow> key (f r) = k"
    and new: "\<And>r r'. r \<in> set rows \<Longrightarrow> key r = k \<Longrightarrow> r' \<in> set rows \<Longrightarrow> key r' \<noteq> k \<Longrightarrow> \<not> conflicts (f r) r'"
  shows "unique_rows (row_update key k f rows)"
proof -
  have "map key (row_update key k f rows) = map key rows"
    by (rule row_update_keys) (simp add: key)
  then have "distinct (map key (row_update key k f rows))" using assms(1) by (simp add: unique_rows_def)
  moreover have "\<not> conflicts a b"
    if "a \<in> set (row_update key k f rows)" "b \<in> set (row_update key k f rows)" "key a \<noteq> key b" for a b
    using that assms(1) new key conflicts_sym unfolding unique_rows_def in_row_update
    by (metis (full_types))
  ultimately show ?thesis unfolding unique_rows_def by blast
qed

lemma unique_same:
  assumes "unique_rows rows" and "\<And>r. key r = k \<Longrightarrow> key (f r) = k"
    and "\<And>r r'. key r = k \<Longrightarrow> conflicts (f r) r' \<longleftrightarrow> conflicts r r'"
  shows "unique_rows (row_update key k f rows)"
  using assms by (intro unique_update) (auto simp: unique_rows_def)

lemma conflict_unique:
  assumes "unique_rows rows" and "a \<in> set rows" and "b \<in> set rows" and "conflicts a b"
  shows "a = b"
  using assms unfolding unique_rows_def by (metis distinct_map inj_on_def)

lemma find_unique:
  "unique_rows rows \<Longrightarrow> row_find key k rows = Some r \<longleftrightarrow> r \<in> set rows \<and> key r = k"
  unfolding unique_rows_def by (simp add: row_find_iff)

end

interpretation payment_rows: unique_index pi_id pi_conflicts
  by unfold_locales (auto simp: pi_conflicts_def)

interpretation idempotency_rows: unique_index ir_id ir_conflicts
  by unfold_locales (auto simp: ir_conflicts_def)

interpretation webhook_rows: unique_index we_id we_conflicts
  by unfold_locales (auto simp: we_conflicts_def)

interpretation outbox_rows: unique_index ob_id "\<lambda>_ _. False"
  by unfold_locales auto

interpretation attempt_rows: unique_index wa_id "\<lambda>_ _. False"
  by unfold_locales auto

lemma empty_db_sel [simp]:
  "payment_intents empty_db = []" "idempotency_records empty_db = []" "webhook_events empty_db = []"
  "outbox_events empty_db = []" "webhook_processing_attempts empty_db = []"
  by (simp_all add: empty_db_def)

section \<open>A sample environment\<close>

text \<open>
  Concrete values for the witnesses: a clock, distinct identifiers, no failures, and
  conversions that behave as the two definitions above ask.
\<close>

definition sample_env :: "nat \<Rightarrow> env" where
  "sample_env n =
     \<lparr>clock = (\<lambda>k. 1700000000000 + int k), pg_now = 1700000000000,
      new_uuid = (\<lambda>k. js ''id'' @ [of_nat n, of_nat k]),
      faults = (\<lambda>_. None), commit = Commit_Ok, locked = (\<lambda>_. False), pg_uuid = Some, pg_numeric = Some\<rparr>"

definition sample_sha256 :: "bytes \<Rightarrow> bytes" where
  "sample_sha256 m = take 32 (m @ replicate 32 0)"

lemma length_sample_sha256 [simp]: "length (sample_sha256 m) = 32"
  by (simp add: sample_sha256_def)

lemma sample_env_sel [simp]:
  "clock (sample_env n) k = 1700000000000 + int k" "pg_now (sample_env n) = 1700000000000"
  "new_uuid (sample_env n) k = js ''id'' @ [of_nat n, of_nat k]" "faults (sample_env n) k = None"
  "commit (sample_env n) = Commit_Ok" "locked (sample_env n) i = False" "pg_uuid (sample_env n) = Some"
  "pg_numeric (sample_env n) = Some" "calm (sample_env n) = sample_env n"
  by (simp_all add: sample_env_def calm_def)

lemma sample_columns: "numeric_column Some" "uuid_column Some"
  by (auto simp: numeric_column_def uuid_column_def isValidPaymentAmount_def pattern_decimal Let_def
      split: json.splits if_splits)

end
