(* ===== verification/Idempotency.thy ===== *)
theory Idempotency
  imports Prelude
begin

text \<open>
  The contract that the two write endpoints share: a request carries a key, the first
  request with a key is carried out and its answer is recorded together with a digest of the
  request, and every later request with that key gets the recorded answer or is refused.

  \<open>delivered\<close> is a history of such requests, interleaved with any other steps of the system;
  it collects the requests that were answered, in order.  The lemmas of the locale hold for
  every provider of the contract; the providers interpret it in their own theories.
\<close>

inductive delivered ::
  "('q \<Rightarrow> 'e \<Rightarrow> 's \<Rightarrow> ('err + 'r) \<times> 's) \<Rightarrow> ('s \<Rightarrow> 's \<Rightarrow> bool) \<Rightarrow> 's \<Rightarrow> ('q \<times> 'r) list \<Rightarrow> 's \<Rightarrow> bool"
  for handle other st where
  start: "delivered handle other st [] st"
| answered: "delivered handle other st rs st1 \<Longrightarrow> handle q e st1 = (Inr r, st2) \<Longrightarrow>
    delivered handle other st (rs @ [(q, r)]) st2"
| refused: "delivered handle other st rs st1 \<Longrightarrow> handle q e st1 = (Inl err, st2) \<Longrightarrow>
    delivered handle other st rs st2"
| other: "delivered handle other st rs st1 \<Longrightarrow> other st1 st2 \<Longrightarrow> delivered handle other st rs st2"

locale idempotent_receiver =
  fixes handle :: "'q \<Rightarrow> 'e \<Rightarrow> 's \<Rightarrow> ('err + 'r) \<times> 's"
    and other :: "'s \<Rightarrow> 's \<Rightarrow> bool"
    and recorded :: "'s \<Rightarrow> 'k \<Rightarrow> ('d \<times> 'a) option"
    and key :: "'q \<Rightarrow> 'k"
    and digest :: "'q \<Rightarrow> 'd"
    and answer :: "'r \<Rightarrow> 'a"
    and first :: "'r \<Rightarrow> bool"
    and inv :: "'s \<Rightarrow> bool"
  assumes inv_handle: "inv st \<Longrightarrow> inv (snd (handle q e st))"
    and inv_other: "inv st \<Longrightarrow> other st st' \<Longrightarrow> inv st'"
    and keeps_handle: "inv st \<Longrightarrow> recorded st k = Some v \<Longrightarrow> recorded (snd (handle q e st)) k = Some v"
    and keeps_other: "inv st \<Longrightarrow> other st st' \<Longrightarrow> recorded st k = Some v \<Longrightarrow> recorded st' k = Some v"
    and answers: "inv st \<Longrightarrow> handle q e st = (Inr r, st') \<Longrightarrow> recorded st' (key q) = Some (digest q, answer r)"
    and first_iff: "inv st \<Longrightarrow> handle q e st = (Inr r, st') \<Longrightarrow> first r \<longleftrightarrow> recorded st (key q) = None"
begin

lemma delivered_inv:
  assumes "inv st" and "delivered handle other st rs st'"
  shows "inv st'"
  using assms(2)
proof induction
  case (answered rs st1 q e r st2)
  then show ?case using inv_handle [of st1 q e] by simp
next
  case (refused rs st1 q e err st2)
  then show ?case using inv_handle [of st1 q e] by simp
qed (use assms(1) inv_other in blast)+

lemma delivered_recorded:
  assumes "inv st" and "delivered handle other st rs st'" and "(q, r) \<in> set rs"
  shows "recorded st' (key q) = Some (digest q, answer r)"
  using assms(2,3)
proof induction
  case (answered rs st1 q' e r' st2)
  note i = delivered_inv [OF assms(1) answered.hyps(1)]
  show ?case
  proof (cases "(q, r) \<in> set rs")
    case True
    then show ?thesis using keeps_handle [OF i answered.IH, of q' e] answered.hyps(2) by simp
  next
    case False
    then show ?thesis using answers [OF i answered.hyps(2)] answered.prems by auto
  qed
next
  case (refused rs st1 q' e err st2)
  then show ?case
    using keeps_handle [OF delivered_inv [OF assms(1) refused.hyps(1)] refused.IH, of q' e] by simp
next
  case (other rs st1 st2)
  then show ?case using keeps_other delivered_inv [OF assms(1)] by blast
qed simp

text \<open>All answers given for one key are the same answer to the same request.\<close>

lemma same_answer:
  assumes "inv st" and "delivered handle other st rs st'"
    and "(q, r) \<in> set rs" and "(q', r') \<in> set rs" and "key q = key q'"
  shows "digest q = digest q' \<and> answer r = answer r'"
  using delivered_recorded [OF assms(1,2,3)] delivered_recorded [OF assms(1,2,4)] assms(5) by simp

text \<open>At most one request with a key is carried out.\<close>

lemma carried_out_once:
  assumes "inv st" and "delivered handle other st rs st'"
  shows "distinct (map (\<lambda>(q, r). key q) (filter (\<lambda>(q, r). first r) rs))"
  using assms(2)
proof induction
  case (answered rs st1 q e r st2)
  note i = delivered_inv [OF assms(1) answered.hyps(1)]
  have "recorded st1 k' \<noteq> None" if "k' \<in> set (map (\<lambda>(q, r). key q) (filter (\<lambda>(q, r). first r) rs))" for k'
    using that delivered_recorded [OF assms(1) answered.hyps(1)] by fastforce
  then have "key q \<notin> set (map (\<lambda>(q, r). key q) (filter (\<lambda>(q, r). first r) rs))" if "first r"
    using that first_iff [OF i answered.hyps(2)] by blast
  then show ?case using answered.IH by auto
qed simp_all

end

end
