(* ===== verification/Payment_Intents.thy ===== *)
theory Payment_Intents
  imports Database Idempotency
begin

text \<open>
  Idempotent creation and reading of payment intents:
  \<open>src/payment-intents/payment-intents.service.ts\<close> and
  \<open>src/payment-intents/payment-intents.controller.ts\<close>.

  The service methods are programs over a database session; \<open>sha256\<close> is the hash
  function of \<open>node:crypto\<close>.  The controller receives the DTO that Nest's
  \<open>ValidationPipe\<close> built from the body.  Log events are returned beside the result.
\<close>

section \<open>Service\<close>

definition IDEMPOTENCY_SCOPE :: jsstr where
  "IDEMPOTENCY_SCOPE = js ''payment-intents:create''"

definition IDEMPOTENCY_RESOURCE_TYPE :: jsstr where
  "IDEMPOTENCY_RESOURCE_TYPE = js ''payment_intent''"

definition IDEMPOTENCY_RECORD_TTL_DAYS :: int where
  "IDEMPOTENCY_RECORD_TTL_DAYS = 30"

record CreatePaymentIntentDto =
  pd_amount :: jsstr
  pd_asset :: jsstr
  pd_destination :: jsstr
  pd_reference :: "jsstr option"
  pd_clientRequestId :: "jsstr option"
  pd_metadata :: "json option"

record CreatePaymentIntentResult =
  cr_httpStatus :: nat
  cr_replayed :: bool
  cr_body :: PaymentIntentResponse

text \<open>\<open>value ?? null\<close> and \<open>value ?? {}\<close>\<close>

definition string_or_null :: "jsstr option \<Rightarrow> json" where
  "string_or_null v = (case v of None \<Rightarrow> JNull | Some s \<Rightarrow> JStr s)"

definition metadata_or_empty :: "CreatePaymentIntentDto \<Rightarrow> json" where
  "metadata_or_empty dto = (case pd_metadata dto of None \<Rightarrow> JObj [] | Some m \<Rightarrow> m)"

definition toCanonicalPayload :: "CreatePaymentIntentDto \<Rightarrow> json" where
  "toCanonicalPayload dto = JObj
     [(js ''amount'', JStr (pd_amount dto)),
      (js ''asset'', JStr (pd_asset dto)),
      (js ''destination'', JStr (pd_destination dto)),
      (js ''reference'', string_or_null (pd_reference dto)),
      (js ''clientRequestId'', string_or_null (pd_clientRequestId dto)),
      (js ''metadata'', metadata_or_empty dto)]"

definition toResponse :: "PaymentIntentEntity \<Rightarrow> PaymentIntentResponse" where
  "toResponse paymentIntent =
     \<lparr>pr_id = pi_id paymentIntent,
      pr_status = pi_status paymentIntent,
      pr_amount = toCanonicalAmount (pi_amount paymentIntent),
      pr_asset = pi_asset paymentIntent,
      pr_destination = pi_destination paymentIntent,
      pr_reference = pi_reference paymentIntent,
      pr_clientRequestId = pi_clientRequestId paymentIntent,
      pr_confirmedTxHash = pi_confirmedTxHash paymentIntent,
      pr_createdAt = pi_createdAt paymentIntent,
      pr_updatedAt = pi_updatedAt paymentIntent\<rparr>"

definition find_idempotency_record :: "jsstr \<Rightarrow> db \<Rightarrow> IdempotencyRecordEntity option" where
  "find_idempotency_record key d =
     find (\<lambda>r. ir_scope r = IDEMPOTENCY_SCOPE \<and> ir_idempotencyKey r = key) (idempotency_records d)"

definition tryInsertIdempotencyRecord :: "jsstr \<Rightarrow> jsstr \<Rightarrow> ('x, uuid option) tx" where
  "tryInsertIdempotencyRecord idempotencyKey requestHash =
     tx_bind tx_clock (\<lambda>now.
     tx_bind tx_uuid (\<lambda>i.
     tx_bind (tx_ask pg_now) (\<lambda>createdAt.
     sql (ir_insert_or_ignore
       \<lparr>ir_id = i, ir_scope = IDEMPOTENCY_SCOPE, ir_idempotencyKey = idempotencyKey,
        ir_requestHash = requestHash, ir_responseStatus = None, ir_responseBody = None,
        ir_resourceType = None, ir_resourceId = None, ir_createdAt = createdAt,
        ir_expiresAt = Some (now + IDEMPOTENCY_RECORD_TTL_DAYS * 24 * 60 * 60 * 1000)\<rparr>))))"

definition replayOrRejectConflict :: "jsstr \<Rightarrow> jsstr \<Rightarrow> ('x, CreatePaymentIntentResult) tx" where
  "replayOrRejectConflict idempotencyKey requestHash =
     tx_bind (query (find_idempotency_record idempotencyKey)) (\<lambda>existingRecord.
     case existingRecord of
       None \<Rightarrow> tx_throw (http_exception 503 ''SERVICE_UNAVAILABLE''
         ''The idempotency record could not be read after conflict detection.'')
     | Some r \<Rightarrow>
         if ir_requestHash r \<noteq> requestHash
         then tx_throw (http_exception 409 ''IDEMPOTENCY_CONFLICT''
           ''The provided Idempotency-Key was already used with a different request payload.'')
         else (case (ir_responseStatus r, ir_responseBody r) of
             (Some st, Some body) \<Rightarrow> tx_return \<lparr>cr_httpStatus = 200, cr_replayed = True, cr_body = body\<rparr>
           | _ \<Rightarrow> tx_throw (http_exception 503 ''SERVICE_UNAVAILABLE''
               ''The idempotent response snapshot is not available.'')))"

text \<open>
  The callback of the transaction in \<open>createPaymentIntent\<close>: after the idempotency record
  was inserted, the intent is stored and the response is kept with the record.
\<close>

definition store_payment_intent ::
  "uuid \<Rightarrow> CreatePaymentIntentDto \<Rightarrow> ('x, CreatePaymentIntentResult) tx" where
  "store_payment_intent idempotencyRecordId dto =
     tx_bind tx_uuid (\<lambda>i.
     tx_bind (tx_ask pg_now) (\<lambda>now.
     tx_bind (tx_ask pg_numeric) (\<lambda>numeric.
     tx_bind (sql (pi_insert numeric
       \<lparr>pi_id = i, pi_status = PI_Created, pi_amount = pd_amount dto, pi_asset = pd_asset dto,
        pi_destination = pd_destination dto, pi_reference = pd_reference dto,
        pi_clientRequestId = pd_clientRequestId dto, pi_metadata = metadata_or_empty dto,
        pi_confirmedTxHash = None, pi_failureReason = None, pi_expiresAt = None,
        pi_createdAt = now, pi_updatedAt = now\<rparr>)) (\<lambda>paymentIntent.
     tx_bind (query (\<lambda>d. row_find ir_id idempotencyRecordId (idempotency_records d))) (\<lambda>found.
     case found of
       None \<Rightarrow> tx_throw (js_error ''Could not find any entity of type IdempotencyRecordEntity'')
     | Some idempotencyRecord \<Rightarrow>
         tx_bind (sql (ir_save (idempotencyRecord
           \<lparr>ir_responseStatus := Some 201,
            ir_responseBody := Some (toResponse paymentIntent),
            ir_resourceType := Some IDEMPOTENCY_RESOURCE_TYPE,
            ir_resourceId := Some (pi_id paymentIntent)\<rparr>))) (\<lambda>_.
         tx_return \<lparr>cr_httpStatus = 201, cr_replayed = False, cr_body = toResponse paymentIntent\<rparr>))))))"

definition create_payment_intent_body ::
  "jsstr \<Rightarrow> jsstr \<Rightarrow> CreatePaymentIntentDto \<Rightarrow> ('x, CreatePaymentIntentResult) tx" where
  "create_payment_intent_body idempotencyKey requestHash dto =
     tx_bind (tryInsertIdempotencyRecord idempotencyKey requestHash) (\<lambda>idempotencyRecordId.
     case idempotencyRecordId of
       None \<Rightarrow> replayOrRejectConflict idempotencyKey requestHash
     | Some recordId \<Rightarrow> store_payment_intent recordId dto)"

fun payment_intent_status_text :: "PaymentIntentStatus \<Rightarrow> jsstr" where
  "payment_intent_status_text PI_Created = js ''CREATED''"
| "payment_intent_status_text PI_Processing = js ''PROCESSING''"
| "payment_intent_status_text PI_Confirmed = js ''CONFIRMED''"
| "payment_intent_status_text PI_Failed = js ''FAILED''"
| "payment_intent_status_text PI_Expired = js ''EXPIRED''"

definition createPaymentIntent ::
  "(bytes \<Rightarrow> bytes) \<Rightarrow> jsstr \<Rightarrow> CreatePaymentIntentDto \<Rightarrow> env \<Rightarrow> db \<Rightarrow>
   ((uval + CreatePaymentIntentResult) \<times> db) \<times> log_event list" where
  "createPaymentIntent sha256 idempotencyKey dto e d =
     (let requestHash = hashCanonicalJson sha256 (toCanonicalPayload dto);
          outcome = db_transaction (create_payment_intent_body idempotencyKey requestHash dto) e d
      in case fst outcome of
           Inr result \<Rightarrow>
             (outcome,
              [(Log_Info,
                if cr_replayed result then js ''payment_intent_replayed'' else js ''payment_intent_created'',
                [(js ''paymentIntentId'', U_String (pr_id (cr_body result))),
                 (js ''status'', U_String (payment_intent_status_text (pr_status (cr_body result))))])])
         | Inl error \<Rightarrow>
             (let errorCode = toSafeErrorCode error (js ''PAYMENT_INTENT_CREATE_FAILED'')
              in (outcome,
                  if errorCode = js ''IDEMPOTENCY_CONFLICT''
                  then [(Log_Warn, js ''payment_intent_conflict'',
                         [(js ''status'', U_String (js ''CONFLICT'')), (js ''errorCode'', U_String errorCode)])]
                  else [])))"

text \<open>
  A read outside a transaction: one statement, which may fail.  The identifier is a
  text parameter that PostgreSQL converts to \<open>uuid\<close>.
\<close>

definition find_payment_intent :: "(jsstr \<Rightarrow> uuid option) \<Rightarrow> jsstr \<Rightarrow> db \<Rightarrow> uval + PaymentIntentEntity option" where
  "find_payment_intent uuid_of i d =
     (case uuid_of i of
        None \<Rightarrow> Inl (pg_error ''22P02'')
      | Some u \<Rightarrow> Inr (row_find pi_id u (payment_intents d)))"

definition getPaymentIntent :: "jsstr \<Rightarrow> env \<Rightarrow> db \<Rightarrow> uval + PaymentIntentResponse" where
  "getPaymentIntent i e d =
     (case faults e 0 of
        Some err \<Rightarrow> Inl err
      | None \<Rightarrow>
          (case find_payment_intent (pg_uuid e) i d of
             Inl err \<Rightarrow> Inl err
           | Inr None \<Rightarrow> Inl (http_exception 404 ''NOT_FOUND'' ''Payment intent not found.'')
           | Inr (Some paymentIntent) \<Rightarrow> Inr (toResponse paymentIntent)))"

section \<open>Controller\<close>

definition validateIdempotencyKey :: "jsstr option \<Rightarrow> uval + jsstr" where
  "validateIdempotencyKey idempotencyKey =
     (case idempotencyKey of
        None \<Rightarrow> Inl (http_exception 400 ''VALIDATION_ERROR'' ''Idempotency-Key header is required.'')
      | Some k \<Rightarrow>
          if k = [] \<or> trim k = []
          then Inl (http_exception 400 ''VALIDATION_ERROR'' ''Idempotency-Key header is required.'')
          else if 255 < length k
          then Inl (http_exception 400 ''VALIDATION_ERROR'' ''Idempotency-Key header must be 255 characters or fewer.'')
          else Inr k)"

text \<open>What the controller sends: a status, the headers it sets and the body.\<close>

record 'b http_response =
  res_status :: nat
  res_headers :: "(jsstr \<times> jsstr) list"
  res_body :: 'b

definition create_payment_intent_endpoint ::
  "(bytes \<Rightarrow> bytes) \<Rightarrow> jsstr option \<Rightarrow> CreatePaymentIntentDto \<Rightarrow> env \<Rightarrow> db \<Rightarrow>
   (uval + PaymentIntentResponse http_response) \<times> db" where
  "create_payment_intent_endpoint sha256 idempotencyKey dto e d =
     (case validateIdempotencyKey idempotencyKey of
        Inl err \<Rightarrow> (Inl err, d)
      | Inr validatedIdempotencyKey \<Rightarrow>
          (case fst (createPaymentIntent sha256 validatedIdempotencyKey dto e d) of
             (Inl err, d') \<Rightarrow> (Inl err, d')
           | (Inr result, d') \<Rightarrow>
               (Inr \<lparr>res_status = cr_httpStatus result,
                     res_headers = (if cr_replayed result then [(js ''Idempotent-Replayed'', js ''true'')] else []),
                     res_body = cr_body result\<rparr>, d')))"

text \<open>\<open>ParseUUIDPipe\<close> is Nest's; \<open>is_uuid\<close> stands for its test.\<close>

definition get_payment_intent_endpoint ::
  "(jsstr \<Rightarrow> bool) \<Rightarrow> jsstr \<Rightarrow> env \<Rightarrow> db \<Rightarrow> uval + PaymentIntentResponse" where
  "get_payment_intent_endpoint is_uuid i e d =
     (if is_uuid i then getPaymentIntent i e d
      else Inl (U_Object (Class_Http 400 (JObj
        [(js ''error'', JStr (js ''VALIDATION_ERROR'')),
         (js ''message'', JStr (js ''Request validation failed.'')),
         (js ''details'', JArr [JObj [(js ''field'', JStr (js ''id'')), (js ''message'', JStr (js ''id must be a UUID''))]])]))
        [(js ''message'', U_String (js ''Request validation failed.''))]))"

section \<open>Runs\<close>

text \<open>The rows a successful creation writes.\<close>

definition intent_row :: "uuid \<Rightarrow> time \<Rightarrow> CreatePaymentIntentDto \<Rightarrow> PaymentIntentEntity" where
  "intent_row i now dto =
     \<lparr>pi_id = i, pi_status = PI_Created, pi_amount = pd_amount dto, pi_asset = pd_asset dto,
      pi_destination = pd_destination dto, pi_reference = pd_reference dto,
      pi_clientRequestId = pd_clientRequestId dto, pi_metadata = metadata_or_empty dto,
      pi_confirmedTxHash = None, pi_failureReason = None, pi_expiresAt = None,
      pi_createdAt = now, pi_updatedAt = now\<rparr>"

definition record_row :: "uuid \<Rightarrow> jsstr \<Rightarrow> jsstr \<Rightarrow> time \<Rightarrow> time \<Rightarrow> PaymentIntentEntity \<Rightarrow> IdempotencyRecordEntity" where
  "record_row i key requestHash createdAt now row =
     \<lparr>ir_id = i, ir_scope = IDEMPOTENCY_SCOPE, ir_idempotencyKey = key, ir_requestHash = requestHash,
      ir_responseStatus = Some 201, ir_responseBody = Some (toResponse row),
      ir_resourceType = Some IDEMPOTENCY_RESOURCE_TYPE, ir_resourceId = Some (pi_id row),
      ir_createdAt = createdAt,
      ir_expiresAt = Some (now + IDEMPOTENCY_RECORD_TTL_DAYS * 24 * 60 * 60 * 1000)\<rparr>"

definition created_db :: "jsstr \<Rightarrow> jsstr \<Rightarrow> CreatePaymentIntentDto \<Rightarrow> env \<Rightarrow> jsstr \<Rightarrow> db \<Rightarrow> db" where
  "created_db key requestHash dto e amount d =
     (let row = intent_row (new_uuid e 1) (pg_now e) dto
      in d\<lparr>payment_intents := payment_intents d @ [row\<lparr>pi_amount := amount\<rparr>],
           idempotency_records := idempotency_records d
             @ [record_row (new_uuid e 0) key requestHash (pg_now e) (clock e 0) row]\<rparr>)"

lemma insert_or_ignore_cases:
  "ir_insert_or_ignore row d = Inr (r, d') \<longleftrightarrow>
     ir_fits row \<and>
     (if list_ex (\<lambda>r. ir_id r = ir_id row \<or> ir_conflicts row r) (idempotency_records d)
      then r = None \<and> d' = d
      else r = Some (ir_id row) \<and> d' = d\<lparr>idempotency_records := idempotency_records d @ [row]\<rparr>)"
  by (auto simp: ir_insert_or_ignore_def)

lemma conflict_found:
  "list_ex (\<lambda>r. ir_scope r = IDEMPOTENCY_SCOPE \<and> ir_idempotencyKey r = key) rs \<longleftrightarrow>
   find (\<lambda>r. ir_scope r = IDEMPOTENCY_SCOPE \<and> ir_idempotencyKey r = key) rs \<noteq> None"
  by (induction rs) auto

lemma replay_success:
  assumes "replayOrRejectConflict key requestHash e s = (Inr res, s')"
  obtains r where "find_idempotency_record key (tables s) = Some r" "ir_requestHash r = requestHash"
    "ir_responseStatus r \<noteq> None" "ir_responseBody r = Some (cr_body res)"
    "cr_httpStatus res = 200" "cr_replayed res" "tables s' = tables s" "ext s' = ext s"
  using assms unfolding replayOrRejectConflict_def
  by (auto simp: tx_inv split: option.splits if_splits)

lemma try_insert_success:
  assumes "tryInsertIdempotencyRecord key requestHash e (new_session d x) = (Inr i, s1)"
  shows "ext s1 = x \<and> fresh s1 = 1 \<and>
    (i = None \<and> tables s1 = d \<or>
     find_idempotency_record key d = None \<and> i = Some (new_uuid e 0) \<and>
     new_uuid e 0 \<notin> ir_id ` set (idempotency_records d) \<and>
     tables s1 = d\<lparr>idempotency_records := idempotency_records d @
       [\<lparr>ir_id = new_uuid e 0, ir_scope = IDEMPOTENCY_SCOPE, ir_idempotencyKey = key,
         ir_requestHash = requestHash, ir_responseStatus = None, ir_responseBody = None,
         ir_resourceType = None, ir_resourceId = None, ir_createdAt = pg_now e,
         ir_expiresAt = Some (clock e 0 + IDEMPOTENCY_RECORD_TTL_DAYS * 24 * 60 * 60 * 1000)\<rparr>]\<rparr>)"
  using assms
  by (auto simp: tryInsertIdempotencyRecord_def tx_inv insert_or_ignore_cases find_idempotency_record_def
      ir_conflicts_def list_ex_iff find_None_iff split: if_splits)

lemma store_success:
  assumes "store_payment_intent i dto e s = (Inr res, s')"
  shows "\<exists>amount r row. row = intent_row (new_uuid e (fresh s)) (pg_now e) dto \<and>
    pg_numeric e (pd_amount dto) = Some amount \<and> amount_units amount \<noteq> 0 \<and> pi_fits row \<and>
    new_uuid e (fresh s) \<notin> pi_id ` set (payment_intents (tables s)) \<and>
    row_find ir_id i (idempotency_records (tables s)) = Some r \<and>
    res = \<lparr>cr_httpStatus = 201, cr_replayed = False, cr_body = toResponse row\<rparr> \<and> ext s' = ext s \<and>
    tables s' = (tables s)\<lparr>payment_intents := payment_intents (tables s) @ [row\<lparr>pi_amount := amount\<rparr>],
      idempotency_records := row_update ir_id (ir_id r)
        (\<lambda>_. r\<lparr>ir_responseStatus := Some 201, ir_responseBody := Some (toResponse row),
               ir_resourceType := Some IDEMPOTENCY_RESOURCE_TYPE, ir_resourceId := Some (pi_id row)\<rparr>)
        (idempotency_records (tables s))\<rparr>"
  using assms unfolding store_payment_intent_def
  by (auto simp: tx_inv pi_insert_def ir_save_def intent_row_def list_ex_iff split: option.splits if_splits)

lemma create_success:
  assumes run: "create_payment_intent_body key requestHash dto e (new_session d x) = (Inr res, s')"
  shows "(\<exists>r. find_idempotency_record key d = Some r \<and> ir_requestHash r = requestHash \<and>
            ir_responseStatus r \<noteq> None \<and> ir_responseBody r = Some (cr_body res) \<and>
            cr_httpStatus res = 200 \<and> cr_replayed res \<and> tables s' = d \<and> ext s' = x) \<or>
         (\<exists>amount. find_idempotency_record key d = None \<and> pg_numeric e (pd_amount dto) = Some amount \<and>
            amount_units amount \<noteq> 0 \<and> pi_fits (intent_row (new_uuid e 1) (pg_now e) dto) \<and>
            new_uuid e 0 \<notin> ir_id ` set (idempotency_records d) \<and>
            new_uuid e 1 \<notin> pi_id ` set (payment_intents d) \<and>
            res = \<lparr>cr_httpStatus = 201, cr_replayed = False,
                   cr_body = toResponse (intent_row (new_uuid e 1) (pg_now e) dto)\<rparr> \<and>
            tables s' = created_db key requestHash dto e amount d \<and> ext s' = x)"
proof -
  from run obtain i s1 where 1: "tryInsertIdempotencyRecord key requestHash e (new_session d x) = (Inr i, s1)"
    and 2: "(case i of None \<Rightarrow> replayOrRejectConflict key requestHash
      | Some recordId \<Rightarrow> store_payment_intent recordId dto) e s1 = (Inr res, s')"
    unfolding create_payment_intent_body_def by (auto simp: tx_bind_Inr)
  note first = try_insert_success [OF 1]
  show ?thesis
  proof (cases i)
    case None
    with first have "tables s1 = d" "ext s1 = x" by auto
    then show ?thesis using 2 None by (auto elim!: replay_success)
  next
    case (Some recordId)
    with first 2 store_success [of recordId dto e s1 res s'] show ?thesis
      by (auto simp: created_db_def record_row_def Let_def row_find_new row_update_append row_update_absent
          intent_row_def)
  qed
qed

section \<open>The contract\<close>

definition recorded_payment :: "db \<Rightarrow> jsstr \<Rightarrow> (jsstr \<times> PaymentIntentResponse) option" where
  "recorded_payment st key =
     (case find_idempotency_record key st of
        None \<Rightarrow> None
      | Some r \<Rightarrow>
          (case (ir_responseStatus r, ir_responseBody r) of
             (Some _, Some body) \<Rightarrow> Some (ir_requestHash r, body)
           | _ \<Rightarrow> None))"

definition payment_digest :: "(bytes \<Rightarrow> bytes) \<Rightarrow> CreatePaymentIntentDto \<Rightarrow> jsstr" where
  "payment_digest sha256 dto = hashCanonicalJson sha256 (toCanonicalPayload dto)"

definition keeps_payment_records :: "db \<Rightarrow> db \<Rightarrow> bool" where
  "keeps_payment_records st st' \<longleftrightarrow> (\<forall>k v. recorded_payment st k = Some v \<longrightarrow> recorded_payment st' k = Some v)"

lemma create_fault_safe: "fault_safe (create_payment_intent_body key requestHash dto)"
  unfolding create_payment_intent_body_def tryInsertIdempotencyRecord_def replayOrRejectConflict_def
    store_payment_intent_def
  by (auto intro!: fault_safe_intros split: option.splits prod.splits)

interpretation create: atomic_db_operation "create_payment_intent_body key requestHash dto"
  for key requestHash dto
  by unfold_locales (rule create_fault_safe)

lemma created_recorded:
  "find_idempotency_record key d = None \<Longrightarrow>
   recorded_payment (created_db key requestHash dto e amount d) k =
     (if k = key then Some (requestHash, toResponse (intent_row (new_uuid e 1) (pg_now e) dto))
      else recorded_payment d k)"
  by (auto simp: recorded_payment_def created_db_def find_idempotency_record_def find_append record_row_def
      Let_def split: option.splits)

lemma create_fst: "fst (createPaymentIntent sha256 key dto e st) =
    db_transaction (create_payment_intent_body key (payment_digest sha256 dto) dto) e st"
  by (simp add: createPaymentIntent_def payment_digest_def Let_def split: sum.splits)

lemma create_transaction_success:
  assumes "db_transaction (create_payment_intent_body key requestHash dto) (calm e) st = (Inr res, st')"
  shows "(cr_replayed res \<and> cr_httpStatus res = 200 \<and> st' = st \<and>
            recorded_payment st key = Some (requestHash, cr_body res)) \<or>
         (\<exists>amount. \<not> cr_replayed res \<and> cr_httpStatus res = 201 \<and> find_idempotency_record key st = None \<and>
            pg_numeric e (pd_amount dto) = Some amount \<and> amount_units amount \<noteq> 0 \<and>
            pi_fits (intent_row (new_uuid e 1) (pg_now e) dto) \<and>
            new_uuid e 0 \<notin> ir_id ` set (idempotency_records st) \<and>
            new_uuid e 1 \<notin> pi_id ` set (payment_intents st) \<and>
            cr_body res = toResponse (intent_row (new_uuid e 1) (pg_now e) dto) \<and>
            st' = created_db key requestHash dto e amount st)"
proof -
  from assms obtain s where
    run: "create_payment_intent_body key requestHash dto (calm e) (new_session st ()) = (Inr res, s)"
    and st': "st' = tables s"
    unfolding create.db_calm by (auto split: prod.splits sum.splits)
  from create_success [OF run] show ?thesis
    unfolding st' by (auto simp: recorded_payment_def created_db_def)
qed

lemma create_keeps:
  assumes "recorded_payment st k = Some v"
  shows "recorded_payment (snd (db_transaction (create_payment_intent_body key requestHash dto) e st)) k = Some v"
proof (rule create.effect_cases [of key requestHash dto e st])
  fix r assume "db_transaction (create_payment_intent_body key requestHash dto) (calm e) st =
    (Inr r, snd (db_transaction (create_payment_intent_body key requestHash dto) e st))"
  from create_transaction_success [OF this] show ?thesis
    using assms created_recorded [of key st requestHash dto e _ k]
    by (auto simp: recorded_payment_def)
qed (simp add: assms)

definition handle_create ::
  "(bytes \<Rightarrow> bytes) \<Rightarrow> jsstr \<times> CreatePaymentIntentDto \<Rightarrow> env \<Rightarrow> db \<Rightarrow> (uval + CreatePaymentIntentResult) \<times> db" where
  "handle_create sha256 q e d = fst (createPaymentIntent sha256 (fst q) (snd q) e d)"

interpretation payment_requests: idempotent_receiver
  "handle_create sha256" keeps_payment_records recorded_payment fst
  "\<lambda>q. payment_digest sha256 (snd q)" cr_body "\<lambda>res. \<not> cr_replayed res" "\<lambda>_. True"
  for sha256
proof unfold_locales
  fix st q e r st'
  assume "handle_create sha256 q e st = (Inr r, st')"
  then have *: "db_transaction (create_payment_intent_body (fst q) (payment_digest sha256 (snd q)) (snd q)) (calm e) st =
      (Inr r, st')"
    unfolding handle_create_def create_fst by (rule create.returns_calm)
  from create_transaction_success [OF this]
  show "recorded_payment st' (fst q) = Some (payment_digest sha256 (snd q), cr_body r)"
    using created_recorded [of "fst q" st "payment_digest sha256 (snd q)" "snd q" e _ "fst q"] by auto
  from create_transaction_success [OF *]
  show "(\<not> cr_replayed r) = (recorded_payment st (fst q) = None)"
    by (auto simp: recorded_payment_def)
qed (auto simp: handle_create_def create_fst create_keeps keeps_payment_records_def)

section \<open>Runs without failures\<close>

definition dto_fits :: "CreatePaymentIntentDto \<Rightarrow> bool" where
  "dto_fits dto \<longleftrightarrow> varchar 32 (pd_asset dto) \<and> varchar 255 (pd_destination dto) \<and>
     varchar_null 255 (pd_reference dto) \<and> varchar_null 255 (pd_clientRequestId dto)"

definition valid_key :: "jsstr \<Rightarrow> bool" where
  "valid_key key \<longleftrightarrow> trim key \<noteq> [] \<and> length key \<le> 255"

lemma valid_key_iff: "validateIdempotencyKey k = Inr key \<longleftrightarrow> k = Some key \<and> valid_key key"
  by (auto simp: validateIdempotencyKey_def valid_key_def trim_def split: option.splits)

lemma scope_fits: "varchar 128 IDEMPOTENCY_SCOPE" "varchar 128 IDEMPOTENCY_RESOURCE_TYPE"
  by (rule varcharI, simp add: IDEMPOTENCY_SCOPE_def IDEMPOTENCY_RESOURCE_TYPE_def js_def)+

lemma key_fits: "valid_key key \<Longrightarrow> varchar 255 key"
  by (simp add: valid_key_def varcharI)

lemma create_calm_replay:
  assumes "valid_key key" and "varchar 128 h" and "recorded_payment d key = Some (h, body)"
  shows "db_transaction (create_payment_intent_body key h dto) (calm e) d =
    (Inr \<lparr>cr_httpStatus = 200, cr_replayed = True, cr_body = body\<rparr>, d)"
proof -
  from assms(3) obtain r st where r: "find_idempotency_record key d = Some r" "ir_requestHash r = h"
    "ir_responseStatus r = Some st" "ir_responseBody r = Some body"
    by (auto simp: recorded_payment_def split: option.splits)
  then have "list_ex (\<lambda>r. ir_id r = i \<or> ir_scope r = IDEMPOTENCY_SCOPE \<and> ir_idempotencyKey r = key)
      (idempotency_records d)" for i
    by (auto simp: find_idempotency_record_def list_ex_iff find_Some_iff)
  then show ?thesis
    using r assms(1,2)
    unfolding create.db_calm
    by (simp add: create_payment_intent_body_def tryInsertIdempotencyRecord_def
        replayOrRejectConflict_def query_def tx_eval ir_insert_or_ignore_def ir_fits_def ir_conflicts_def
        scope_fits key_fits)
qed

lemma create_calm_new:
  assumes "valid_key key" and "varchar 128 h" and "find_idempotency_record key d = None" and "dto_fits dto"
    and "pg_numeric e (pd_amount dto) = Some amount" and "amount_units amount \<noteq> 0"
    and "new_uuid e 0 \<notin> ir_id ` set (idempotency_records d)"
    and "new_uuid e 1 \<notin> pi_id ` set (payment_intents d)"
  shows "db_transaction (create_payment_intent_body key h dto) (calm e) d =
    (Inr \<lparr>cr_httpStatus = 201, cr_replayed = False,
           cr_body = toResponse (intent_row (new_uuid e 1) (pg_now e) dto)\<rparr>,
     created_db key h dto e amount d)"
proof -
  have "\<not> list_ex (\<lambda>r. ir_id r = new_uuid e 0 \<or> ir_scope r = IDEMPOTENCY_SCOPE \<and> ir_idempotencyKey r = key)
      (idempotency_records d)"
    using assms(3,7) by (auto simp: find_idempotency_record_def list_ex_iff find_None_iff image_iff)
  moreover have "\<not> list_ex (\<lambda>r. pi_id r = new_uuid e 1) (payment_intents d)"
    using assms(8) by (auto simp: list_ex_iff image_iff)
  ultimately show ?thesis
    using assms
    unfolding create.db_calm
    by (simp add: create_payment_intent_body_def tryInsertIdempotencyRecord_def
        store_payment_intent_def query_def tx_eval ir_insert_or_ignore_def ir_fits_def ir_conflicts_def
        scope_fits key_fits pi_insert_def pi_fits_def dto_fits_def pi_conflicts_def row_find_new ir_save_def
        row_update_append row_update_absent created_db_def intent_row_def record_row_def)
qed

lemma create_calm_conflict:
  assumes "valid_key key" and "varchar 128 h" and "recorded_payment d key = Some (h', body)" and "h' \<noteq> h"
  shows "db_transaction (create_payment_intent_body key h dto) (calm e) d =
    (Inl (http_exception 409 ''IDEMPOTENCY_CONFLICT''
       ''The provided Idempotency-Key was already used with a different request payload.''), d)"
proof -
  from assms(3) obtain r where r: "find_idempotency_record key d = Some r" "ir_requestHash r = h'"
    by (auto simp: recorded_payment_def split: option.splits)
  then have "list_ex (\<lambda>r. ir_id r = i \<or> ir_scope r = IDEMPOTENCY_SCOPE \<and> ir_idempotencyKey r = key)
      (idempotency_records d)" for i
    by (auto simp: find_idempotency_record_def list_ex_iff find_Some_iff)
  then show ?thesis
    using r assms(1,2,4) unfolding create.db_calm
    by (simp add: create_payment_intent_body_def tryInsertIdempotencyRecord_def
        replayOrRejectConflict_def query_def tx_eval ir_insert_or_ignore_def ir_fits_def ir_conflicts_def
        scope_fits key_fits)
qed

section \<open>Properties\<close>

lemma endpoint_run:
  assumes "valid_key key"
  shows "create_payment_intent_endpoint sha256 (Some key) dto e d =
    (case db_transaction (create_payment_intent_body key (payment_digest sha256 dto) dto) e d of
       (Inl err, d') \<Rightarrow> (Inl err, d')
     | (Inr result, d') \<Rightarrow>
         (Inr \<lparr>res_status = cr_httpStatus result,
               res_headers = (if cr_replayed result then [(js ''Idempotent-Replayed'', js ''true'')] else []),
               res_body = cr_body result\<rparr>, d'))"
proof -
  have "validateIdempotencyKey (Some key) = Inr key" using assms by (simp add: valid_key_iff)
  then show ?thesis by (simp only: create_payment_intent_endpoint_def create_fst sum.case)
qed

lemma create_effect:
  assumes "find_idempotency_record key d = None"
  obtains "snd (db_transaction (create_payment_intent_body key h dto) e d) = d"
  | amount where
    "snd (db_transaction (create_payment_intent_body key h dto) e d) = created_db key h dto e amount d"
    "new_uuid e 1 \<notin> pi_id ` set (payment_intents d)"
proof (rule create.effect_cases [of key h dto e d])
  fix r assume "db_transaction (create_payment_intent_body key h dto) (calm e) d =
    (Inr r, snd (db_transaction (create_payment_intent_body key h dto) e d))"
  from create_transaction_success [OF this] show thesis
    using assms that by (auto simp: recorded_payment_def)
qed (rule that(1))

text \<open>
  C6: retrying is safe.  Whatever failures the first attempt met (a lost connection, a
  failed statement, a COMMIT that took effect without being acknowledged), sending the same
  request again with the same key, without failures, is answered with 200 or 201, and the two
  attempts together have created exactly one payment intent, the one in the answer.
\<close>

theorem create_retry_exactly_once:
  assumes "valid_key key" and "dto_fits dto" and "\<And>m. length (sha256 m) = 32"
    and "find_idempotency_record key d = None"
    and "pg_numeric e' (pd_amount dto) = Some amount" and "amount_units amount \<noteq> 0"
    and "new_uuid e' 0 \<notin> ir_id ` set (idempotency_records d)"
    and "new_uuid e' 1 \<notin> pi_id ` set (payment_intents d)"
  shows "\<exists>res row.
    fst (create_payment_intent_endpoint sha256 (Some key) dto (calm e')
      (snd (create_payment_intent_endpoint sha256 (Some key) dto e d))) = Inr res \<and>
    res_status res \<in> {200, 201} \<and>
    payment_intents (snd (create_payment_intent_endpoint sha256 (Some key) dto (calm e')
      (snd (create_payment_intent_endpoint sha256 (Some key) dto e d)))) = payment_intents d @ [row] \<and>
    pi_id row = pr_id (res_body res)"
proof -
  let ?h = "payment_digest sha256 dto"
  let ?b = "create_payment_intent_body key ?h dto"
  have h: "varchar 128 ?h" using assms(3) by (simp add: payment_digest_def hash_fits)
  have snd: "snd (create_payment_intent_endpoint sha256 (Some key) dto e d) =
      snd (db_transaction ?b e d)"
    by (simp add: endpoint_run [OF assms(1)] split: prod.splits sum.splits)
  show ?thesis
  proof (rule create_effect [OF assms(4), of ?h dto e])
    assume "snd (db_transaction ?b e d) = d"
    then show ?thesis
      unfolding snd unfolding endpoint_run [OF assms(1)]
      using create_calm_new [OF assms(1) h assms(4,2,5,6,7,8)]
      by (simp add: created_db_def toResponse_def intent_row_def Let_def)
  next
    fix a assume d': "snd (db_transaction ?b e d) = created_db key ?h dto e a d"
    have "recorded_payment (created_db key ?h dto e a d) key =
        Some (?h, toResponse (intent_row (new_uuid e 1) (pg_now e) dto))"
      using created_recorded [OF assms(4)] by simp
    then show ?thesis
      unfolding snd unfolding endpoint_run [OF assms(1)] d'
      using create_calm_replay [OF assms(1) h]
      by (simp add: created_db_def toResponse_def intent_row_def Let_def)
  qed
qed



text \<open>
  a key that is used again with a different payload is refused with 409
  (or the request fails for another reason); the stored response is never sent for it and
  nothing changes.  The hypothesis on the hash says that the two payloads do not collide.
\<close>

theorem create_conflict_refused:
  assumes "recorded_payment d key = Some (hashCanonicalJson sha256 (toCanonicalPayload first_dto), body)"
    and "hashCanonicalJson sha256 (toCanonicalPayload dto) \<noteq> hashCanonicalJson sha256 (toCanonicalPayload first_dto)"
    and "\<And>m. length (sha256 m) = 32" and "valid_key key"
  shows "\<exists>err. create_payment_intent_endpoint sha256 (Some key) dto e d = (Inl err, d) \<and>
    (e = calm e \<longrightarrow> err = http_exception 409 ''IDEMPOTENCY_CONFLICT''
       ''The provided Idempotency-Key was already used with a different request payload.'')"
proof -
  let ?h = "payment_digest sha256 dto"
  let ?b = "create_payment_intent_body key ?h dto"
  have h: "varchar 128 ?h" using assms(3) by (simp add: payment_digest_def hash_fits)
  have "db_transaction ?b (calm e) d = (Inl (http_exception 409 ''IDEMPOTENCY_CONFLICT''
       ''The provided Idempotency-Key was already used with a different request payload.''), d)"
    using assms(1,2) by (intro create_calm_conflict [OF assms(4) h]) (auto simp: payment_digest_def)
  then show ?thesis
    using create.db_outcome [of key ?h dto e d] unfolding endpoint_run [OF assms(4)]
    by (elim disjE exE conjE) auto
qed

text \<open>
  C9: reading an intent back gives the body its creation was answered with: the response
  uses one representation of the amount, although the row holds the text of the
  \<open>numeric(36,18)\<close> column and the entity in memory the text of the request.
\<close>

theorem read_after_create:
  assumes "isValidPaymentAmount (JStr (pd_amount dto))" and "numeric_column (pg_numeric e)"
    and "create_payment_intent_endpoint sha256 (Some key) dto e d = (Inr res, d')" and "res_status res = 201"
    and "pg_uuid e (pr_id (res_body res)) = Some (pr_id (res_body res))"
  shows "getPaymentIntent (pr_id (res_body res)) (calm e) d' = Inr (res_body res)"
proof -
  have key: "valid_key key"
    using assms(3) by (auto simp: create_payment_intent_endpoint_def valid_key_iff split: sum.splits)
  let ?b = "create_payment_intent_body key (payment_digest sha256 dto) dto"
  from assms(3) obtain r where "db_transaction ?b e d = (Inr r, d')" and r: "res_status res = cr_httpStatus r"
    "res_body res = cr_body r"
    unfolding endpoint_run [OF key] by (auto split: prod.splits sum.splits)
  from create_transaction_success [OF create.returns_calm [OF this(1)]] assms(4) r
  obtain b where b: "pg_numeric e (pd_amount dto) = Some b"
    and new: "new_uuid e 1 \<notin> pi_id ` set (payment_intents d)"
    and body: "res_body res = toResponse (intent_row (new_uuid e 1) (pg_now e) dto)"
    and d': "d' = created_db key (payment_digest sha256 dto) dto e b d" by auto
  from assms(1,2) b have "decimal b" "length (fractional_part b) \<le> 18" "amount_units b = amount_units (pd_amount dto)"
    by (fastforce simp: numeric_column_def)+
  moreover from assms(1) have "decimal (pd_amount dto)" "length (fractional_part (pd_amount dto)) \<le> 18"
    by (auto simp: isValidPaymentAmount_def pattern_decimal Let_def split: if_splits)
  ultimately have "toCanonicalAmount b = toCanonicalAmount (pd_amount dto)"
    by (simp add: canonical_amount_eq_iff)
  with new show ?thesis
    using assms(5) unfolding body d'
    by (simp add: getPaymentIntent_def find_payment_intent_def created_db_def Let_def row_find_new toResponse_def
        intent_row_def)
qed

section \<open>Witnesses\<close>

definition sample_dto :: CreatePaymentIntentDto where
  "sample_dto = \<lparr>pd_amount = js ''125.50'', pd_asset = js ''USDC'', pd_destination = js ''wallet_test_123'',
     pd_reference = None, pd_clientRequestId = None, pd_metadata = None\<rparr>"

lemma sample_dto_facts:
  "valid_key (js ''k1'')" "dto_fits sample_dto" "isValidPaymentAmount (JStr (pd_amount sample_dto))"
  "amount_units (js ''125.50'') \<noteq> 0"
proof -
  show "valid_key (js ''k1'')" by (simp add: valid_key_def, code_simp)
  show "dto_fits sample_dto" by (simp add: dto_fits_def sample_dto_def varcharI js_def)
  show v: "isValidPaymentAmount (JStr (pd_amount sample_dto))" by (simp add: sample_dto_def, code_simp)
  show "amount_units (js ''125.50'') \<noteq> 0" using valid_amount_facts(3) [OF v] by (simp add: sample_dto_def)
qed

lemma sample_create:
  "find_idempotency_record (js ''k1'') d = None \<Longrightarrow> new_uuid (sample_env n) 0 \<notin> ir_id ` set (idempotency_records d) \<Longrightarrow>
   new_uuid (sample_env n) 1 \<notin> pi_id ` set (payment_intents d) \<Longrightarrow>
   fst (createPaymentIntent sample_sha256 (js ''k1'') sample_dto (sample_env n) d) =
    (Inr \<lparr>cr_httpStatus = 201, cr_replayed = False,
           cr_body = toResponse (intent_row (new_uuid (sample_env n) 1) (pg_now (sample_env n)) sample_dto)\<rparr>,
     created_db (js ''k1'') (payment_digest sample_sha256 sample_dto) sample_dto (sample_env n) (js ''125.50'') d)"
  using create_calm_new [OF sample_dto_facts(1) _ _ sample_dto_facts(2), of "payment_digest sample_sha256 sample_dto" d
      "sample_env n" "js ''125.50''"] sample_dto_facts(4)
  by (simp add: create_fst payment_digest_def hash_fits sample_dto_def)

lemma empty_db_find [simp]: "find_idempotency_record k empty_db = None"
  by (simp add: find_idempotency_record_def)

theorem create_retry_exactly_once_witness:
  "\<exists>res row.
    fst (create_payment_intent_endpoint sample_sha256 (Some (js ''k1'')) sample_dto (sample_env 1)
      (snd (create_payment_intent_endpoint sample_sha256 (Some (js ''k1'')) sample_dto
        ((sample_env 0)\<lparr>commit := Commit_Unacknowledged (pg_error ''08006'')\<rparr>) empty_db))) = Inr res \<and>
    res_status res \<in> {200, 201} \<and>
    payment_intents (snd (create_payment_intent_endpoint sample_sha256 (Some (js ''k1'')) sample_dto (sample_env 1)
      (snd (create_payment_intent_endpoint sample_sha256 (Some (js ''k1'')) sample_dto
        ((sample_env 0)\<lparr>commit := Commit_Unacknowledged (pg_error ''08006'')\<rparr>) empty_db)))) = [row] \<and>
    pi_id row = pr_id (res_body res)"
proof -
  note t = create_retry_exactly_once [of "js ''k1''" sample_dto sample_sha256 empty_db "sample_env 1"
      "js ''125.50''" "(sample_env 0)\<lparr>commit := Commit_Unacknowledged (pg_error ''08006'')\<rparr>"]
  have "pg_numeric (sample_env 1) (pd_amount sample_dto) = Some (js ''125.50'')" by (simp add: sample_dto_def)
  from t [OF sample_dto_facts(1,2) length_sample_sha256 _ this] sample_dto_facts(4) show ?thesis by simp
qed



theorem create_conflict_refused_witness:
  "\<exists>d err. create_payment_intent_endpoint sample_sha256 (Some (js ''k1'')) (sample_dto\<lparr>pd_amount := js ''126.50''\<rparr>)
     (sample_env 1) d = (Inl err, d) \<and> payment_intents d \<noteq> []"
proof -
  let ?d = "created_db (js ''k1'') (payment_digest sample_sha256 sample_dto) sample_dto (sample_env 0) (js ''125.50'') empty_db"
  have "recorded_payment ?d (js ''k1'') = Some (hashCanonicalJson sample_sha256 (toCanonicalPayload sample_dto),
      toResponse (intent_row (new_uuid (sample_env 0) 1) (pg_now (sample_env 0)) sample_dto))"
    using created_recorded [of "js ''k1''" empty_db] by (simp add: payment_digest_def)
  moreover have "hashCanonicalJson sample_sha256 (toCanonicalPayload (sample_dto\<lparr>pd_amount := js ''126.50''\<rparr>)) \<noteq>
      hashCanonicalJson sample_sha256 (toCanonicalPayload sample_dto)" by code_simp
  ultimately obtain err where
    "create_payment_intent_endpoint sample_sha256 (Some (js ''k1'')) (sample_dto\<lparr>pd_amount := js ''126.50''\<rparr>)
      (sample_env 1) ?d = (Inl err, ?d)"
    using create_conflict_refused [of ?d "js ''k1''" sample_sha256 sample_dto] sample_dto_facts(1) length_sample_sha256
    by meson
  moreover have "payment_intents ?d \<noteq> []" by (simp add: created_db_def Let_def)
  ultimately show ?thesis by blast
qed

theorem read_after_create_witness:
  "\<exists>res d'. create_payment_intent_endpoint sample_sha256 (Some (js ''k1'')) sample_dto (sample_env 0) empty_db = (Inr res, d') \<and>
     getPaymentIntent (pr_id (res_body res)) (sample_env 0) d' = Inr (res_body res)"
proof -
  obtain res d' where run: "create_payment_intent_endpoint sample_sha256 (Some (js ''k1'')) sample_dto (sample_env 0) empty_db =
      (Inr res, d')" and st: "res_status res = 201"
    using sample_create [of empty_db 0] endpoint_run [OF sample_dto_facts(1)] by (simp add: create_fst)
  have "numeric_column (pg_numeric (sample_env 0))" by (simp add: sample_columns)
  from read_after_create [OF sample_dto_facts(3) this run st] run show ?thesis by simp
qed

end
