(* ===== verification/Tx_Hash.thy ===== *)
theory Tx_Hash
  imports Bytes
begin

text \<open>
  Transaction hashes: \<open>normalizeTxHash\<close> (\<open>src/webhooks/tx-hash.ts\<close>), the form in which
  hashes are stored and compared, and the SQL expression of the migration
  \<open>migrations/1790150000000-NormalizeConfirmedTxHashes.ts\<close> that has to compute the same
  form.  The lemmas characterise when two spellings have the same normal form and
  show that the two implementations agree on every string.
\<close>

section \<open>Normalization in the services\<close>

text \<open>\<open>/^0x[0-9a-f]+$/i\<close>\<close>

fun HEX_TX_HASH_PATTERN :: "jsstr \<Rightarrow> bool" where
  "HEX_TX_HASH_PATTERN (c # d # r) \<longleftrightarrow>
     c = 0x30 \<and> (d = 0x78 \<or> d = 0x58) \<and> r \<noteq> [] \<and> list_all is_hex r"
| "HEX_TX_HASH_PATTERN _ \<longleftrightarrow> False"

definition normalizeTxHash :: "jsstr \<Rightarrow> jsstr" where
  "normalizeTxHash txHash =
     (let trimmed = trim txHash
      in if HEX_TX_HASH_PATTERN trimmed then to_lower trimmed else trimmed)"

section \<open>Normalization in the migration\<close>

text \<open>The characters of the migration's \<open>U&'...'\<close> literal, in its order.\<close>

definition JS_WHITESPACE :: jsstr where
  "JS_WHITESPACE =
     [0x20, 0x9, 0xA, 0xB, 0xC, 0xD, 0xA0, 0x1680, 0x2000, 0x2001, 0x2002, 0x2003, 0x2004, 0x2005,
      0x2006, 0x2007, 0x2008, 0x2009, 0x200A, 0x2028, 0x2029, 0x202F, 0x205F, 0x3000, 0xFEFF]"

definition btrim :: "jsstr \<Rightarrow> jsstr \<Rightarrow> jsstr" where
  "btrim s chars = strip_both (\<lambda>c. c \<in> set chars) s"

text \<open>\<open>~ '^0[xX][0-9a-fA-F]+$'\<close>; SQL's \<open>lower\<close> is only applied to a string that matches.\<close>

definition sql_hex_pattern :: "jsstr \<Rightarrow> bool" where
  "sql_hex_pattern s \<longleftrightarrow>
     2 < length s \<and> s ! 0 = 0x30 \<and> (s ! 1 = 0x78 \<or> s ! 1 = 0x58) \<and>
     list_all (\<lambda>c. (0x30 \<le> c \<and> c \<le> 0x39) \<or> (0x61 \<le> c \<and> c \<le> 0x66) \<or> (0x41 \<le> c \<and> c \<le> 0x46)) (drop 2 s)"

definition sql_lower :: "jsstr \<Rightarrow> jsstr" where
  "sql_lower s = map (\<lambda>c. if 0x41 \<le> c \<and> c \<le> 0x5A then c + 0x20 else c) s"

definition CANONICAL_CONFIRMED_TX_HASH_SQL :: "jsstr \<Rightarrow> jsstr" where
  "CANONICAL_CONFIRMED_TX_HASH_SQL confirmed_tx_hash =
     (if sql_hex_pattern (btrim confirmed_tx_hash JS_WHITESPACE)
      then sql_lower (btrim confirmed_tx_hash JS_WHITESPACE)
      else btrim confirmed_tx_hash JS_WHITESPACE)"

section \<open>Facts\<close>

text \<open>Two spellings of one transaction hash.\<close>

definition same_tx_hash :: "jsstr \<Rightarrow> jsstr \<Rightarrow> bool" where
  "same_tx_hash a b \<longleftrightarrow>
     trim a = trim b \<or>
     (HEX_TX_HASH_PATTERN (trim a) \<and> HEX_TX_HASH_PATTERN (trim b) \<and>
      to_lower (trim a) = to_lower (trim b))"

lemma lower_unit_x: "lower_unit d = 0x78 \<longleftrightarrow> d = 0x78 \<or> d = 0x58"
  by (auto simp: word_unat_eq_iff unat_lower_unit)

lemma lower_unit_0: "lower_unit c = 0x30 \<longleftrightarrow> c = 0x30"
  by (auto simp: word_unat_eq_iff unat_lower_unit)

lemma lower_unit_not_X: "lower_unit d \<noteq> 0x58"
  by (auto simp: word_unat_eq_iff unat_lower_unit)

lemma hex_pattern_lower [simp]: "HEX_TX_HASH_PATTERN (to_lower s) = HEX_TX_HASH_PATTERN s"
  by (cases s rule: HEX_TX_HASH_PATTERN.cases)
    (auto simp: to_lower_def lower_unit_x lower_unit_0 lower_unit_not_X list_all_iff)

lemma normalizeTxHash_idem [simp]: "normalizeTxHash (normalizeTxHash a) = normalizeTxHash a"
  by (simp add: normalizeTxHash_def Let_def trim_to_lower)

lemma normalizeTxHash_trimmed: "trim (normalizeTxHash a) = normalizeTxHash a"
  by (simp add: normalizeTxHash_def Let_def trim_to_lower)

lemma space_JS_WHITESPACE: "c \<in> set JS_WHITESPACE \<longleftrightarrow> is_space c"
  by (auto simp: JS_WHITESPACE_def is_space_def js_spaces_def)

lemma btrim_trim: "btrim s JS_WHITESPACE = trim s"
  by (simp add: btrim_def trim_def space_JS_WHITESPACE)

lemma sql_hex_pattern_eq: "sql_hex_pattern s = HEX_TX_HASH_PATTERN s"
  by (cases s rule: HEX_TX_HASH_PATTERN.cases)
    (auto simp: sql_hex_pattern_def is_hex_def is_digit_def list_all_iff)

lemma hex_pattern_ascii:
  assumes "HEX_TX_HASH_PATTERN s" and "c \<in> set s"
  shows "c < 0x80"
  using assms by (cases s rule: HEX_TX_HASH_PATTERN.cases)
    (auto simp: list_all_iff is_hex_def is_digit_def unit_nat dest!: bspec)

lemma lower_unit_ascii: "c < 0x80 \<Longrightarrow> lower_unit c = (if 0x41 \<le> c \<and> c \<le> 0x5A then c + 0x20 else c)"
  by (simp add: lower_unit_def is_upper_def unit_nat)

lemma sql_lower_ascii: "(\<And>c. c \<in> set s \<Longrightarrow> c < 0x80) \<Longrightarrow> sql_lower s = to_lower s"
  by (simp add: sql_lower_def to_lower_def lower_unit_ascii)

text \<open>The SQL expression of the migration computes the same form on every string.\<close>

lemma canonical_sql_eq: "CANONICAL_CONFIRMED_TX_HASH_SQL s = normalizeTxHash s"
  using hex_pattern_ascii [of "trim s"]
  by (auto simp: CANONICAL_CONFIRMED_TX_HASH_SQL_def normalizeTxHash_def btrim_trim sql_hex_pattern_eq
      Let_def intro!: sql_lower_ascii)

section \<open>Properties\<close>

text \<open>
  Normalization picks one representative per transaction hash: two strings have
  the same normal form exactly when they are spellings of one hash (equal after
  trimming, or both 0x-prefixed hexadecimal and equal up to letter case), and the
  normal form is itself normal.
\<close>

theorem normalizeTxHash_representative:
  "normalizeTxHash (normalizeTxHash a) = normalizeTxHash a \<and>
   (normalizeTxHash a = normalizeTxHash b \<longleftrightarrow> same_tx_hash a b)"
proof
  show "normalizeTxHash a = normalizeTxHash b \<longleftrightarrow> same_tx_hash a b"
  proof (cases "HEX_TX_HASH_PATTERN (trim a) = HEX_TX_HASH_PATTERN (trim b)")
    case True
    then show ?thesis by (auto simp: normalizeTxHash_def same_tx_hash_def Let_def)
  next
    case False
    have "HEX_TX_HASH_PATTERN (normalizeTxHash s) = HEX_TX_HASH_PATTERN (trim s)" for s
      by (simp add: normalizeTxHash_def Let_def)
    with False have "normalizeTxHash a \<noteq> normalizeTxHash b" by metis
    with False show ?thesis by (auto simp: same_tx_hash_def)
  qed
qed simp

end
