(* ===== verification/Webhook_Security.thy ===== *)
theory Webhook_Security
  imports Bytes
begin

text \<open>
  Webhook authentication: the signature
  (\<open>src/webhooks/security/webhook-signature.ts\<close>) and the timestamp window
  (\<open>src/webhooks/security/webhook-timestamp.ts\<close>).

  \<open>hmac\<close> stands for HMAC-SHA-256 of \<open>node:crypto\<close>, a function of the key and the
  message bytes; the theorems use of it only that a digest has 32 bytes.  JavaScript
  numbers are doubles: \<open>js_round\<close> rounds an exact integer result to the nearest
  double (ties to even), so the window check is modelled with the rounding it has.
\<close>

section \<open>Signature\<close>

definition WEBHOOK_SIGNATURE_PREFIX :: jsstr where
  "WEBHOOK_SIGNATURE_PREFIX = js ''v1=''"

datatype raw_webhook_body = Raw_Buffer bytes | Raw_String jsstr

fun raw_bytes :: "raw_webhook_body \<Rightarrow> bytes" where
  "raw_bytes (Raw_Buffer bs) = bs"
| "raw_bytes (Raw_String s) = utf8 s"

definition signed_message :: "jsstr \<Rightarrow> jsstr \<Rightarrow> raw_webhook_body \<Rightarrow> bytes" where
  "signed_message timestamp nonce rawBody =
     utf8 timestamp @ utf8 (js ''.'') @ utf8 nonce @ utf8 (js ''.'') @ raw_bytes rawBody"

definition createWebhookSignature ::
  "(bytes \<Rightarrow> bytes \<Rightarrow> bytes) \<Rightarrow> jsstr \<Rightarrow> jsstr \<Rightarrow> jsstr \<Rightarrow> raw_webhook_body \<Rightarrow> jsstr" where
  "createWebhookSignature hmac secret timestamp nonce rawBody =
     WEBHOOK_SIGNATURE_PREFIX @ hex_encode (hmac (utf8 secret) (signed_message timestamp nonce rawBody))"

text \<open>\<open>/^v1=[a-fA-F0-9]{64}$/\<close>\<close>

definition hasValidWebhookSignatureFormat :: "jsstr \<Rightarrow> bool" where
  "hasValidWebhookSignatureFormat signatureHeader \<longleftrightarrow>
     take 3 signatureHeader = js ''v1='' \<and> length (drop 3 signatureHeader) = 64 \<and>
     list_all is_hex (drop 3 signatureHeader)"

definition verifyWebhookSignature ::
  "(bytes \<Rightarrow> bytes \<Rightarrow> bytes) \<Rightarrow> jsstr \<Rightarrow> jsstr \<Rightarrow> jsstr \<Rightarrow> raw_webhook_body \<Rightarrow> jsstr \<Rightarrow> bool" where
  "verifyWebhookSignature hmac secret timestamp nonce rawBody signatureHeader =
     (if \<not> hasValidWebhookSignatureFormat signatureHeader then False
      else
        let expectedSignature =
              drop (length WEBHOOK_SIGNATURE_PREFIX) (createWebhookSignature hmac secret timestamp nonce rawBody);
            providedSignature = drop (length WEBHOOK_SIGNATURE_PREFIX) signatureHeader;
            expectedBuffer = hex_decode expectedSignature;
            providedBuffer = hex_decode providedSignature
        in if length expectedBuffer \<noteq> length providedBuffer then False
           else expectedBuffer = providedBuffer)"

section \<open>Doubles\<close>

fun bit_length :: "nat \<Rightarrow> nat" where
  "bit_length n = (if n = 0 then 0 else Suc (bit_length (n div 2)))"

declare bit_length.simps [simp del]

definition round_nat :: "nat \<Rightarrow> nat" where
  "round_nat n =
     (let e = bit_length n - 53; q = n div 2 ^ e; r = n mod 2 ^ e
      in if 2 * r < 2 ^ e \<or> (2 * r = 2 ^ e \<and> even q) then q * 2 ^ e else (q + 1) * 2 ^ e)"

definition js_round :: "int \<Rightarrow> int" where
  "js_round i = (if i < 0 then - int (round_nat (nat (- i))) else int (round_nat (nat i)))"

definition MAX_SAFE_INTEGER :: int where
  "MAX_SAFE_INTEGER = 9007199254740991"

section \<open>Timestamp\<close>

datatype timestamp_result = Timestamp_Ok int | INVALID_FORMAT | OUTSIDE_TOLERANCE

definition validateWebhookTimestamp :: "jsstr \<Rightarrow> int \<Rightarrow> int \<Rightarrow> timestamp_result" where
  "validateWebhookTimestamp timestamp toleranceSeconds nowMs =
     (if timestamp = [] \<or> \<not> list_all is_digit timestamp then INVALID_FORMAT
      else
        let timestampSeconds = js_round (int (digits_val timestamp))
        in if MAX_SAFE_INTEGER < \<bar>timestampSeconds\<bar> then INVALID_FORMAT
           else
             let deltaMs = \<bar>js_round (nowMs - js_round (timestampSeconds * 1000))\<bar>
             in if js_round (toleranceSeconds * 1000) < deltaMs then OUTSIDE_TOLERANCE
                else Timestamp_Ok timestampSeconds)"

section \<open>Facts about rounding\<close>

lemma bit_length_bounds: "0 < n \<Longrightarrow> 0 < bit_length n \<and> 2 ^ (bit_length n - 1) \<le> n \<and> n < 2 ^ bit_length n"
proof (induction n rule: bit_length.induct)
  case (1 n)
  show ?case
  proof (cases "n = 1")
    case True
    then show ?thesis by (simp add: bit_length.simps)
  next
    case False
    with 1 have IH: "0 < bit_length (n div 2)" "2 ^ (bit_length (n div 2) - 1) \<le> n div 2"
      "n div 2 < 2 ^ bit_length (n div 2)" by (auto simp: div_greater_zero_iff)
    have b: "bit_length n = Suc (bit_length (n div 2))" using 1 by (subst bit_length.simps) simp
    have "2 * 2 ^ (bit_length (n div 2) - 1) = (2::nat) ^ bit_length (n div 2)"
      using IH(1) by (metis Suc_diff_1 power_Suc)
    moreover have "2 * (n div 2) \<le> n" and "n < 2 * (n div 2) + 2" by simp_all
    ultimately show ?thesis using IH(2,3) unfolding b by (simp, linarith)
  qed
qed

lemma bit_length_le: "n < 2 ^ k \<Longrightarrow> bit_length n \<le> k"
proof (cases "n = 0")
  case False
  assume "n < 2 ^ k"
  then have "(2::nat) ^ (bit_length n - 1) < 2 ^ k"
    using bit_length_bounds [of n] False by (meson bot_nat_0.not_eq_extremum order.strict_trans1)
  then have "bit_length n - 1 < k" by simp
  then show ?thesis by simp
qed (simp add: bit_length.simps)

lemma round_nat_exact: "n < 2 ^ 53 \<Longrightarrow> round_nat n = n"
  using bit_length_le [of n 53] by (simp add: round_nat_def Let_def)

lemma round_nat_large:
  assumes "2 ^ 53 \<le> n"
  shows "2 ^ 53 \<le> round_nat n"
proof -
  have n: "0 < n" using assms by (metis gr0I not_le zero_less_numeral zero_less_power)
  let ?b = "bit_length n" and ?e = "bit_length n - 53"
  have "(2::nat) ^ 53 < 2 ^ ?b" using assms bit_length_bounds [OF n] by (meson order.strict_trans1)
  then have b: "53 < ?b" by (metis one_less_numeral_iff power_less_imp_less_exp semiring_norm(76))
  have "2 ^ (?b - 1) div 2 ^ ?e \<le> n div 2 ^ ?e" using bit_length_bounds [OF n] by (simp add: div_le_mono)
  moreover have "?b - 1 = 52 + ?e" using b by simp
  then have "(2::nat) ^ (?b - 1) = 2 ^ 52 * 2 ^ ?e" by (simp only: power_add)
  ultimately have "2 ^ 52 \<le> n div 2 ^ ?e" by simp
  then have q: "2 ^ 52 * 2 ^ ?e \<le> n div 2 ^ ?e * 2 ^ ?e" by (rule mult_right_mono) simp
  have "(2::nat) ^ 1 \<le> 2 ^ ?e" using b by (intro power_increasing) simp_all
  then have "(2::nat) ^ 53 \<le> 2 ^ 52 * 2 ^ ?e" by simp
  also note q
  also have "n div 2 ^ ?e * 2 ^ ?e \<le> round_nat n" by (simp add: round_nat_def Let_def)
  finally show ?thesis .
qed

lemma js_round_exact: "\<bar>i\<bar> < 2 ^ 53 \<Longrightarrow> js_round i = i"
  by (simp add: js_round_def round_nat_exact nat_less_iff)

lemma js_round_large: "2 ^ 53 \<le> i \<Longrightarrow> 2 ^ 53 \<le> js_round i"
proof -
  assume i: "2 ^ 53 \<le> i"
  then have "2 ^ 53 \<le> nat i" by (simp add: le_nat_iff)
  then have "int (2 ^ 53) \<le> int (round_nat (nat i))" using round_nat_large by (simp only: zle_int)
  with i show ?thesis by (simp add: js_round_def)
qed

lemma js_round_beyond:
  assumes "k \<le> \<bar>i\<bar>" and "k \<le> 2 ^ 53"
  shows "k \<le> \<bar>js_round i\<bar>"
proof (cases "\<bar>i\<bar> < 2 ^ 53")
  case True
  with assms show ?thesis by (simp add: js_round_exact)
next
  case False
  then have "2 ^ 53 \<le> js_round \<bar>i\<bar>" by (intro js_round_large) simp
  moreover have "\<bar>js_round i\<bar> = js_round \<bar>i\<bar>" by (simp add: js_round_def)
  ultimately show ?thesis using assms(2) by linarith
qed

section \<open>Facts about signatures\<close>

text \<open>A function with digests of the right length, to evaluate the definitions with.\<close>

definition sample_hmac :: "bytes \<Rightarrow> bytes \<Rightarrow> bytes" where
  "sample_hmac key message = replicate 32 (of_nat (length key + length message))"

lemma length_sample_hmac [simp]: "length (sample_hmac key message) = 32"
  by (simp add: sample_hmac_def)

lemma signature_prefix_length [simp]: "length WEBHOOK_SIGNATURE_PREFIX = 3"
  by (simp add: WEBHOOK_SIGNATURE_PREFIX_def js_def)

lemma to_lower_prefix: "to_lower WEBHOOK_SIGNATURE_PREFIX = WEBHOOK_SIGNATURE_PREFIX"
  by code_simp

lemma drop_created_signature:
  "drop 3 (createWebhookSignature hmac secret timestamp nonce rawBody)
    = hex_encode (hmac (utf8 secret) (signed_message timestamp nonce rawBody))"
  by (simp add: createWebhookSignature_def)

lemma valid_format_split:
  assumes "hasValidWebhookSignatureFormat h"
  shows "h = WEBHOOK_SIGNATURE_PREFIX @ drop 3 h"
  using assms by (metis append_take_drop_id hasValidWebhookSignatureFormat_def WEBHOOK_SIGNATURE_PREFIX_def)

lemma hex_decode_64:
  assumes "hasValidWebhookSignatureFormat h"
  shows "hex_encode (hex_decode (drop 3 h)) = to_lower (drop 3 h)"
    and "length (hex_decode (drop 3 h)) = 32"
proof -
  have h: "list_all is_hex (drop 3 h)" "length (drop 3 h) = 64"
    using assms by (simp_all add: hasValidWebhookSignatureFormat_def)
  then show e: "hex_encode (hex_decode (drop 3 h)) = to_lower (drop 3 h)"
    by (intro hex_encode_decode) simp_all
  have "2 * length (hex_decode (drop 3 h)) = 64"
    using arg_cong [OF e, of length] h(2) by (simp add: to_lower_def)
  then show "length (hex_decode (drop 3 h)) = 32" by simp
qed

lemma to_lower_append: "to_lower (s @ t) = to_lower s @ to_lower t"
  by (simp add: to_lower_def)

section \<open>Facts about timestamps\<close>

lemma timestamp_window:
  assumes "0 \<le> nowMs" and "nowMs < 2 ^ 51" and "0 \<le> toleranceSeconds" and "toleranceSeconds * 1000 < 2 ^ 51"
  shows "(validateWebhookTimestamp timestamp toleranceSeconds nowMs = Timestamp_Ok t \<longleftrightarrow>
      timestamp \<noteq> [] \<and> list_all is_digit timestamp \<and> t = int (digits_val timestamp) \<and>
      \<bar>nowMs - t * 1000\<bar> \<le> toleranceSeconds * 1000) \<and>
    (\<not> list_all is_digit timestamp \<longrightarrow>
      validateWebhookTimestamp timestamp toleranceSeconds nowMs = INVALID_FORMAT)"
proof (cases "timestamp \<noteq> [] \<and> list_all is_digit timestamp")
  case True
  let ?v = "int (digits_val timestamp)"
  have tol: "js_round (toleranceSeconds * 1000) = toleranceSeconds * 1000"
    using assms by (intro js_round_exact) simp
  consider "2 ^ 53 \<le> ?v" | "?v < 2 ^ 53" "2 ^ 53 \<le> ?v * 1000" | "?v * 1000 < 2 ^ 53" by linarith
  then show ?thesis
  proof cases
    case 1
    from js_round_large [OF 1] have "MAX_SAFE_INTEGER < \<bar>js_round ?v\<bar>"
      by (simp add: MAX_SAFE_INTEGER_def)
    with True 1 assms show ?thesis by (auto simp: validateWebhookTimestamp_def Let_def)
  next
    case 2
    have v: "js_round ?v = ?v" using 2 by (intro js_round_exact) simp
    from js_round_large [OF 2(2)] assms have "2 ^ 52 \<le> \<bar>nowMs - js_round (?v * 1000)\<bar>" by simp
    then have "2 ^ 52 \<le> \<bar>js_round (nowMs - js_round (?v * 1000))\<bar>" by (intro js_round_beyond) simp_all
    with True 2 assms show ?thesis
      by (auto simp: validateWebhookTimestamp_def Let_def v tol)
  next
    case 3
    have v: "js_round ?v = ?v" "js_round (?v * 1000) = ?v * 1000"
      using 3 by (intro js_round_exact; simp)+
    have "js_round (nowMs - ?v * 1000) = nowMs - ?v * 1000"
      using 3 assms by (intro js_round_exact) simp
    with True 3 assms show ?thesis
      by (auto simp: validateWebhookTimestamp_def Let_def v tol MAX_SAFE_INTEGER_def)
  qed
qed (auto simp: validateWebhookTimestamp_def)

section \<open>Properties\<close>

text \<open>
  C28: a signature header verifies exactly when it has the form \<open>v1=\<close> and 64
  hexadecimal digits and spells, in either letter case, the HMAC of timestamp, nonce
  and raw body under the secret; in particular the header that
  \<open>createWebhookSignature\<close> produces verifies.
\<close>

theorem verify_signature_exact:
  assumes digest: "\<And>key message. length (hmac key message) = 32"
  shows "(verifyWebhookSignature hmac secret timestamp nonce rawBody header \<longleftrightarrow>
      hasValidWebhookSignatureFormat header \<and>
      to_lower header = createWebhookSignature hmac secret timestamp nonce rawBody) \<and>
    verifyWebhookSignature hmac secret timestamp nonce rawBody
      (createWebhookSignature hmac secret timestamp nonce rawBody)"
proof -
  let ?mac = "hmac (utf8 secret) (signed_message timestamp nonce rawBody)"
  let ?sig = "createWebhookSignature hmac secret timestamp nonce rawBody"
  have exact: "verifyWebhookSignature hmac secret timestamp nonce rawBody h \<longleftrightarrow>
      hasValidWebhookSignatureFormat h \<and> to_lower h = ?sig" for h
  proof (cases "hasValidWebhookSignatureFormat h")
    case True
    have "verifyWebhookSignature hmac secret timestamp nonce rawBody h \<longleftrightarrow> ?mac = hex_decode (drop 3 h)"
      using True hex_decode_64(2) [OF True] digest
      by (simp add: verifyWebhookSignature_def drop_created_signature Let_def)
    also have "\<dots> \<longleftrightarrow> hex_encode ?mac = to_lower (drop 3 h)"
      using hex_decode_64(1) [OF True] by (metis hex_decode_encode)
    also have "\<dots> \<longleftrightarrow> to_lower h = ?sig"
      by (subst (2) valid_format_split [OF True])
        (auto simp: to_lower_append to_lower_prefix createWebhookSignature_def)
    finally show ?thesis using True by simp
  qed (simp add: verifyWebhookSignature_def)
  have "hasValidWebhookSignatureFormat ?sig"
    using digest by (simp add: hasValidWebhookSignatureFormat_def createWebhookSignature_def
        WEBHOOK_SIGNATURE_PREFIX_def js_def hex_encode_hex)
  moreover have "to_lower ?sig = ?sig"
    by (simp add: createWebhookSignature_def to_lower_append to_lower_prefix)
  ultimately show ?thesis using exact by blast
qed

theorem verify_signature_exact_witness:
  "verifyWebhookSignature sample_hmac (js ''secret'') (js ''1700000000'') (js ''n1'')
     (Raw_Buffer [0x7B, 0x7D])
     (createWebhookSignature sample_hmac (js ''secret'') (js ''1700000000'') (js ''n1'')
       (Raw_Buffer [0x7B, 0x7D]))"
  using verify_signature_exact [of sample_hmac, OF length_sample_hmac] by blast

text \<open>
  C29: with a clock and a tolerance below \<open>2^51\<close> ms the rounding of doubles does not
  matter: a timestamp passes exactly when it is a non-empty string of digits whose
  value in seconds is within the tolerance of the clock, it is returned unchanged, and
  a string that is not all digits is reported as \<open>INVALID_FORMAT\<close>.
\<close>

theorem timestamp_window_exact:
  assumes "0 \<le> nowMs" and "nowMs < 2 ^ 51" and "0 \<le> toleranceSeconds" and "toleranceSeconds * 1000 < 2 ^ 51"
  shows "(validateWebhookTimestamp timestamp toleranceSeconds nowMs = Timestamp_Ok t \<longleftrightarrow>
      timestamp \<noteq> [] \<and> list_all is_digit timestamp \<and> t = int (digits_val timestamp) \<and>
      \<bar>nowMs - t * 1000\<bar> \<le> toleranceSeconds * 1000) \<and>
    (\<not> list_all is_digit timestamp \<longrightarrow>
      validateWebhookTimestamp timestamp toleranceSeconds nowMs = INVALID_FORMAT)"
  using assms by (rule timestamp_window)

theorem timestamp_window_exact_witness:
  "validateWebhookTimestamp (js ''1700000000'') 300 1700000299000 = Timestamp_Ok 1700000000"
proof -
  have "digits_val (js ''1700000000'') = 1700000000" by (simp add: js_eval)
  moreover have "list_all is_digit (js ''1700000000'')" and "js ''1700000000'' \<noteq> []"
    by (simp_all add: js_eval)
  ultimately show ?thesis
    using timestamp_window_exact [of 1700000299000 300 "js ''1700000000''" 1700000000] by simp
qed

end
