(* ===== verification/Body_Guard.thy ===== *)
theory Body_Guard
  imports Canonical_Json Errors
begin

text \<open>
  The request body guard, \<open>src/common/validation/request-body-guard.middleware.ts\<close>: parsed
  bodies are walked with an explicit stack before they reach the routes, and bodies that are
  nested too deeply, use reserved property names or contain control characters or unpaired
  surrogates are refused.

  The walk is compared with a recursive description of the bodies that may pass.
\<close>

section \<open>The guard\<close>

definition MAX_REQUEST_BODY_DEPTH :: nat where
  "MAX_REQUEST_BODY_DEPTH = 32"

text \<open>\<open>Object.getOwnPropertyNames(Object.prototype)\<close> and \<open>prototype\<close>\<close>

definition RESERVED_KEYS :: "jsstr list" where
  "RESERVED_KEYS = map js
     [''constructor'', ''__defineGetter__'', ''__defineSetter__'', ''hasOwnProperty'', ''__lookupGetter__'',
      ''__lookupSetter__'', ''isPrototypeOf'', ''propertyIsEnumerable'', ''toString'', ''valueOf'',
      ''__proto__'', ''toLocaleString'', ''prototype'']"

datatype violation = V_depth | V_controlCharacter | V_loneSurrogate | V_reservedKey

fun VIOLATION_MESSAGES :: "violation \<Rightarrow> string" where
  "VIOLATION_MESSAGES V_depth = ''Request body must not be nested deeper than 32 levels.''"
| "VIOLATION_MESSAGES V_controlCharacter =
     ''Request body must not contain control characters other than tab, line feed, and carriage return.''"
| "VIOLATION_MESSAGES V_loneSurrogate = ''Request body must not contain unpaired UTF-16 surrogates.''"
| "VIOLATION_MESSAGES V_reservedKey =
     ''Request body must not use reserved property names such as __proto__, constructor, or prototype.''"

definition is_control :: "code_unit \<Rightarrow> bool" where
  "is_control c \<longleftrightarrow> c < 0x20 \<and> c \<noteq> 0x09 \<and> c \<noteq> 0x0A \<and> c \<noteq> 0x0D"

text \<open>
  The loop over the code units; the recursion is on the rest of the string, and after a
  pair it skips two units.  \<open>charCodeAt\<close> past the end is \<open>NaN\<close>, which is in no range.
\<close>

fun findStringViolation :: "jsstr \<Rightarrow> violation option" where
  "findStringViolation [] = None"
| "findStringViolation (c # rest) =
     (if is_control c then Some V_controlCharacter
      else if is_high_surrogate c then
        (case rest of
           [] \<Rightarrow> Some V_loneSurrogate
         | d # rest' \<Rightarrow> if is_low_surrogate d then findStringViolation rest' else Some V_loneSurrogate)
      else if is_low_surrogate c then Some V_loneSurrogate
      else findStringViolation rest)"

text \<open>
  One round of the inner loop: the entries of a value, with \<open>None\<close> for the index of an array
  item.  It ends with a violation or with the values to push; the stack has its top first, so
  the child pushed last comes first.
\<close>

fun value_entries :: "json \<Rightarrow> (jsstr option \<times> json) list" where
  "value_entries (JArr xs) = map (\<lambda>x. (None, x)) xs"
| "value_entries (JObj es) = map (\<lambda>(k, v). (Some k, v)) (own_entries es)"
| "value_entries _ = []"

fun key_violation :: "jsstr option \<Rightarrow> violation option" where
  "key_violation None = None"
| "key_violation (Some key) = (if key \<in> set RESERVED_KEYS then Some V_reservedKey else findStringViolation key)"

fun is_container :: "json \<Rightarrow> bool" where
  "is_container (JArr xs) = True"
| "is_container (JObj es) = True"
| "is_container _ = False"

fun child_violation :: "json \<Rightarrow> violation option" where
  "child_violation (JStr s) = findStringViolation s"
| "child_violation _ = None"

fun scan_entries :: "(jsstr option \<times> json) list \<Rightarrow> nat \<Rightarrow> (json \<times> nat) list \<Rightarrow> violation + (json \<times> nat) list" where
  "scan_entries [] depth pending = Inr pending"
| "scan_entries ((key, child) # entries) depth pending =
     (case key_violation key of
        Some v \<Rightarrow> Inl v
      | None \<Rightarrow>
          (case child_violation child of
             Some v \<Rightarrow> Inl v
           | None \<Rightarrow>
               scan_entries entries depth (if is_container child then (child, depth + 1) # pending else pending)))"

primrec json_weight :: "json \<Rightarrow> nat" where
  "json_weight JNull = 1"
| "json_weight (JBool b) = 1"
| "json_weight (JNum n) = 1"
| "json_weight (JStr s) = 1"
| "json_weight (JArr xs) = Suc (sum_list (map json_weight xs))"
| "json_weight (JObj es) = Suc (sum_list (map snd (map (map_prod id json_weight) es)))"

definition pending_weight :: "(json \<times> nat) list \<Rightarrow> nat" where
  "pending_weight pending = sum_list (map (\<lambda>p. json_weight (fst p)) pending)"

lemma entries_weight:
  "is_container v \<Longrightarrow> json_weight v = Suc (sum_list (map (\<lambda>e. json_weight (snd e)) (value_entries v)))"
proof (cases v)
  case (JObj es)
  have "sum_mset (image_mset (\<lambda>e. json_weight (snd e)) (mset (own_entries es))) =
      sum_mset (image_mset (\<lambda>e. json_weight (snd e)) (mset es))" by (simp only: mset_own_entries)
  then have "sum_list (map (\<lambda>e. json_weight (snd e)) (own_entries es)) = sum_list (map (\<lambda>e. json_weight (snd e)) es)"
    by (simp only: sum_mset_sum_list mset_map [symmetric])
  then show ?thesis using JObj by (simp add: case_prod_beta comp_def)
qed (simp_all add: comp_def)

lemma scan_weight:
  "scan_entries entries depth pending = Inr pending' \<Longrightarrow>
   pending_weight pending' \<le> pending_weight pending + sum_list (map (\<lambda>e. json_weight (snd e)) entries)"
proof (induction entries depth pending rule: scan_entries.induct)
  case (2 key child entries depth pending)
  then show ?case by (fastforce simp: pending_weight_def split: option.splits if_splits)
qed simp

function guard_loop :: "(json \<times> nat) list \<Rightarrow> violation option" where
  "guard_loop [] = None"
| "guard_loop ((value, depth) # pending) =
     (if \<not> is_container value then guard_loop pending
      else if MAX_REQUEST_BODY_DEPTH < depth then Some V_depth
      else (case scan_entries (value_entries value) depth pending of
              Inl v \<Rightarrow> Some v
            | Inr pending' \<Rightarrow> guard_loop pending'))"
  by pat_completeness auto
termination
proof (relation "measure pending_weight")
  fix v depth and pending :: "(json \<times> nat) list"
  show "(pending, (v, depth) # pending) \<in> measure pending_weight" by (cases v) (simp_all add: pending_weight_def)
next
  fix v depth and pending pending' :: "(json \<times> nat) list"
  assume "\<not> \<not> is_container v" and "scan_entries (value_entries v) depth pending = Inr pending'"
  then show "(pending', (v, depth) # pending) \<in> measure pending_weight"
    using scan_weight entries_weight by (fastforce simp: pending_weight_def)
qed auto

definition findRequestBodyViolation :: "json option \<Rightarrow> violation option" where
  "findRequestBodyViolation body =
     (case body of
        None \<Rightarrow> None
      | Some (JStr s) \<Rightarrow> findStringViolation s
      | Some v \<Rightarrow> guard_loop [(v, 1)])"

definition requestBodyGuardMiddleware :: "json option \<Rightarrow> uval option" where
  "requestBodyGuardMiddleware body =
     map_option (\<lambda>violation. http_exception 400 ''VALIDATION_ERROR'' (VIOLATION_MESSAGES violation))
       (findRequestBodyViolation body)"

section \<open>What may pass\<close>

text \<open>Well-formed UTF-16 without forbidden control characters.\<close>

inductive clean_text :: "jsstr \<Rightarrow> bool" where
  empty: "clean_text []"
| unit: "\<not> is_control c \<Longrightarrow> \<not> is_high_surrogate c \<Longrightarrow> \<not> is_low_surrogate c \<Longrightarrow> clean_text s \<Longrightarrow> clean_text (c # s)"
| pair: "is_high_surrogate h \<Longrightarrow> is_low_surrogate l \<Longrightarrow> clean_text s \<Longrightarrow> clean_text (h # l # s)"

inductive_cases clean_text_ConsE: "clean_text (c # s)"

text \<open>A value that nests at most \<open>n\<close> containers, with clean strings and keys and no reserved key.\<close>

primrec guarded :: "nat \<Rightarrow> json \<Rightarrow> bool" where
  "guarded 0 v \<longleftrightarrow> \<not> is_container v \<and> (\<forall>s. v = JStr s \<longrightarrow> clean_text s)"
| "guarded (Suc n) v \<longleftrightarrow>
     (case v of
        JStr s \<Rightarrow> clean_text s
      | JArr xs \<Rightarrow> \<forall>x\<in>set xs. guarded n x
      | JObj es \<Rightarrow> \<forall>(k, x)\<in>set es. clean_text k \<and> k \<notin> set RESERVED_KEYS \<and> guarded n x
      | _ \<Rightarrow> True)"

lemma high_not_control: "is_high_surrogate c \<Longrightarrow> \<not> is_control c \<and> \<not> is_low_surrogate c"
  by (auto simp: is_high_surrogate_def is_low_surrogate_def is_control_def word_le_nat_alt word_less_nat_alt)

lemma string_violation_iff: "findStringViolation s = None \<longleftrightarrow> clean_text s"
proof (induction s rule: findStringViolation.induct)
  case (2 c rest)
  show ?case
  proof (cases "is_high_surrogate c")
    case True
    with high_not_control have "\<not> is_control c" "\<not> is_low_surrogate c" by blast+
    with True 2 show ?thesis
      by (cases rest) (auto intro: clean_text.intros elim: clean_text_ConsE)
  next
    case False
    with 2 show ?thesis by (auto intro: clean_text.intros elim: clean_text_ConsE)
  qed
qed (simp add: clean_text.empty)

lemma guarded_leaf: "\<not> is_container v \<Longrightarrow> guarded n v \<longleftrightarrow> child_violation v = None"
  by (cases n; cases v) (auto simp: string_violation_iff)

lemma guarded_container:
  "is_container v \<Longrightarrow> guarded (Suc n) v \<longleftrightarrow>
     (\<forall>(k, x)\<in>set (value_entries v). key_violation k = None \<and> guarded n x)"
  by (cases v) (auto simp: string_violation_iff set_own_entries case_prod_beta)

declare guarded.simps(2) [simp del]

lemma guarded_string: "guarded n child \<Longrightarrow> child_violation child = None"
  using guarded_leaf [of child n] by (cases "is_container child"; cases child) auto

definition item_ok :: "json \<times> nat \<Rightarrow> bool" where
  "item_ok p \<longleftrightarrow>
     (is_container (fst p) \<longrightarrow>
        snd p \<le> MAX_REQUEST_BODY_DEPTH \<and> guarded (Suc (MAX_REQUEST_BODY_DEPTH - snd p)) (fst p))"

lemma item_ok_leaf: "\<not> is_container v \<Longrightarrow> item_ok (v, depth)"
  by (simp add: item_ok_def)

lemma item_ok_container:
  "is_container v \<Longrightarrow> item_ok (v, depth) \<longleftrightarrow> depth \<le> MAX_REQUEST_BODY_DEPTH \<and>
     (\<forall>(k, x)\<in>set (value_entries v). key_violation k = None \<and> guarded (MAX_REQUEST_BODY_DEPTH - depth) x)"
  by (simp add: item_ok_def guarded_container)

lemma item_ok_child:
  "is_container c \<Longrightarrow> depth \<le> MAX_REQUEST_BODY_DEPTH \<Longrightarrow>
   item_ok (c, depth + 1) \<longleftrightarrow> guarded (MAX_REQUEST_BODY_DEPTH - depth) c"
  by (cases "depth = MAX_REQUEST_BODY_DEPTH") (auto simp: item_ok_def Suc_diff_Suc)

lemma scan_ok:
  assumes "depth \<le> MAX_REQUEST_BODY_DEPTH"
  shows "(\<exists>pending'. scan_entries entries depth pending = Inr pending' \<and> list_all item_ok pending') \<longleftrightarrow>
    list_all item_ok pending \<and>
    (\<forall>(k, x)\<in>set entries. key_violation k = None \<and> guarded (MAX_REQUEST_BODY_DEPTH - depth) x)"
  using assms
proof (induction entries depth pending rule: scan_entries.induct)
  case (2 key child entries depth pending)
  show ?case
  proof (cases "key_violation key = None \<and> child_violation child = None")
    case True
    with 2 show ?thesis by (auto simp: item_ok_child [simplified] guarded_leaf)
  next
    case False
    then show ?thesis using guarded_string [of "MAX_REQUEST_BODY_DEPTH - depth" child] by (auto split: option.splits)
  qed
qed simp

lemma guard_loop_ok: "guard_loop pending = None \<longleftrightarrow> list_all item_ok pending"
proof (induction pending rule: guard_loop.induct)
  case (2 v depth pending)
  show ?case
  proof (cases "is_container v \<and> depth \<le> MAX_REQUEST_BODY_DEPTH")
    case True
    then show ?thesis
      using 2(2) scan_ok [of depth "value_entries v" pending] by (auto simp: item_ok_container split: sum.splits)
  next
    case False
    with 2(1) show ?thesis by (cases "is_container v") (auto simp: item_ok_leaf item_ok_container)
  qed
qed simp

section \<open>Properties\<close>

text \<open>
  C25: the iterative walk accepts exactly the bodies that nest at most 32 containers,
  consist of well-formed text without control characters, and use no reserved property
  name; in particular it always ends.
\<close>

theorem body_guard_exact:
  "requestBodyGuardMiddleware body = None \<longleftrightarrow> (\<forall>v. body = Some v \<longrightarrow> guarded MAX_REQUEST_BODY_DEPTH v)"
proof (cases body)
  case (Some v)
  have "guard_loop [(v, 1)] = None \<longleftrightarrow> guarded MAX_REQUEST_BODY_DEPTH v" if "is_container v"
    using that by (simp only: guard_loop_ok list.pred_inject simp_thms item_ok_def fst_conv snd_conv)
      (simp add: MAX_REQUEST_BODY_DEPTH_def)
  moreover have "guard_loop [(v, 1)] = None" if "\<not> is_container v" using that by simp
  ultimately show ?thesis
    using Some guarded_leaf [of v MAX_REQUEST_BODY_DEPTH]
    by (cases v) (auto simp: requestBodyGuardMiddleware_def findRequestBodyViolation_def)
qed (simp add: requestBodyGuardMiddleware_def findRequestBodyViolation_def)

theorem body_guard_exact_witness:
  "requestBodyGuardMiddleware (Some (JObj [(js ''a'', JArr [JStr (js ''b'')])])) = None \<and>
   requestBodyGuardMiddleware (Some (JObj [(js ''constructor'', JNull)])) \<noteq> None"
proof -
  have "clean_text (js ''a'')" "clean_text (js ''b'')" by (simp_all flip: string_violation_iff, code_simp+)
  then have "guarded 32 (JObj [(js ''a'', JArr [JStr (js ''b'')])])"
    by (simp add: numeral_eq_Suc guarded.simps(2) RESERVED_KEYS_def js_def)
  moreover have "\<not> guarded 32 (JObj [(js ''constructor'', JNull)])" by (simp add: numeral_eq_Suc guarded.simps(2) RESERVED_KEYS_def)
  ultimately show ?thesis
    using body_guard_exact [of "Some (JObj [(js ''a'', JArr [JStr (js ''b'')])])"]
      body_guard_exact [of "Some (JObj [(js ''constructor'', JNull)])"]
    by (simp add: MAX_REQUEST_BODY_DEPTH_def)
qed

end
