(* ===== verification/Validation.thy ===== *)
theory Validation
  imports Amounts Body_Guard
begin

text \<open>
  The rules of the request DTOs and the error they give:
  \<open>src/payment-intents/dto/create-payment-intent.dto.ts\<close>,
  \<open>src/webhooks/dto/blockchain-webhook.dto.ts\<close> and
  \<open>src/common/validation/validation-error-response.ts\<close>.

  The decorators of a DTO are data: a list of rules, one per property, each with the
  condition of its \<open>ValidateIf\<close> and its checks.  The libraries that read them,
  class-transformer (\<open>plainToInstance\<close>) and class-validator (\<open>validate\<close>), are not code
  of the repository: they are the record \<open>validator_library\<close>, and
  \<open>documented_validator\<close> states what their documentation says of the options
  \<open>whitelist\<close> and \<open>forbidNonWhitelisted\<close> and of the decorators that are used.
\<close>

section \<open>Validation errors\<close>

datatype validation_error =
  Validation_Error (ve_property: jsstr) (ve_constraints: "(jsstr \<times> jsstr) list") (ve_children: "validation_error list")

fun flattenValidationErrors :: "validation_error list \<Rightarrow> jsstr \<Rightarrow> (jsstr \<times> jsstr) list" where
  "flattenValidationErrors [] parentPath = []"
| "flattenValidationErrors (Validation_Error property constraints children # errors) parentPath =
     (let fieldPath = (if parentPath \<noteq> [] then parentPath @ js ''.'' @ property else property);
          ownDetails = map (\<lambda>c. (fieldPath, snd c)) constraints;
          childDetails = flattenValidationErrors children fieldPath
      in (ownDetails @ childDetails) @ flattenValidationErrors errors parentPath)"

definition createValidationException :: "validation_error list \<Rightarrow> uval" where
  "createValidationException errors =
     U_Object (Class_Http 400 (JObj
       [(js ''error'', JStr (js ''VALIDATION_ERROR'')),
        (js ''message'', JStr (js ''Request validation failed.'')),
        (js ''details'', JArr (map (\<lambda>(field, message).
           JObj [(js ''field'', JStr field), (js ''message'', JStr message)]) (flattenValidationErrors errors [])))]))
       [(js ''message'', U_String (js ''Request validation failed.''))]"

section \<open>Rules\<close>

datatype field_check =
    IsString | IsNotEmpty | MaxLength nat | Matches "jsstr \<Rightarrow> bool" | IsUUID | IsObject | IsPaymentAmount

record field_rule =
  fr_field :: jsstr
  fr_when :: "(jsstr \<times> json) list \<Rightarrow> json option \<Rightarrow> bool"
  fr_checks :: "field_check list"

text \<open>\<open>/^[A-Z0-9][A-Z0-9._:-]*$/\<close> and \<open>/^\s*\S+\s*$/\<close>\<close>

definition asset_unit :: "code_unit \<Rightarrow> bool" where
  "asset_unit c \<longleftrightarrow> is_upper c \<or> is_digit c \<or> c = 0x2E \<or> c = 0x5F \<or> c = 0x3A \<or> c = 0x2D"

definition asset_pattern :: "jsstr \<Rightarrow> bool" where
  "asset_pattern s \<longleftrightarrow> s \<noteq> [] \<and> (is_upper (hd s) \<or> is_digit (hd s)) \<and> list_all asset_unit (tl s)"

definition tx_hash_pattern :: "jsstr \<Rightarrow> bool" where
  "tx_hash_pattern s \<longleftrightarrow>
     (let rest = dropWhile is_space s
      in rest \<noteq> [] \<and> list_all is_space (dropWhile (\<lambda>c. \<not> is_space c) rest))"

definition always :: "(jsstr \<times> json) list \<Rightarrow> json option \<Rightarrow> bool" where
  "always dto value = True"

definition when_defined :: "(jsstr \<times> json) list \<Rightarrow> json option \<Rightarrow> bool" where
  "when_defined dto value \<longleftrightarrow> value \<noteq> None"

definition CreatePaymentIntentDto_rules :: "field_rule list" where
  "CreatePaymentIntentDto_rules =
    [\<lparr>fr_field = js ''amount'', fr_when = always, fr_checks = [IsPaymentAmount]\<rparr>,
     \<lparr>fr_field = js ''asset'', fr_when = always,
      fr_checks = [IsString, IsNotEmpty, MaxLength 32, Matches asset_pattern]\<rparr>,
     \<lparr>fr_field = js ''destination'', fr_when = always, fr_checks = [IsString, IsNotEmpty, MaxLength 255]\<rparr>,
     \<lparr>fr_field = js ''reference'', fr_when = when_defined, fr_checks = [IsString, MaxLength 255]\<rparr>,
     \<lparr>fr_field = js ''clientRequestId'', fr_when = when_defined, fr_checks = [IsString, MaxLength 255]\<rparr>,
     \<lparr>fr_field = js ''metadata'', fr_when = when_defined, fr_checks = [IsObject]\<rparr>]"

definition tx_hash_when :: "(jsstr \<times> json) list \<Rightarrow> json option \<Rightarrow> bool" where
  "tx_hash_when dto value \<longleftrightarrow>
     value \<noteq> None \<or> map_of dto (js ''type'') = Some (JStr (js ''transaction.confirmed''))"

definition BlockchainWebhookDto_rules :: "field_rule list" where
  "BlockchainWebhookDto_rules =
    [\<lparr>fr_field = js ''eventId'', fr_when = always, fr_checks = [IsString, IsNotEmpty, MaxLength 255]\<rparr>,
     \<lparr>fr_field = js ''type'', fr_when = always, fr_checks = [IsString, IsNotEmpty, MaxLength 128]\<rparr>,
     \<lparr>fr_field = js ''paymentIntentId'', fr_when = always, fr_checks = [IsUUID]\<rparr>,
     \<lparr>fr_field = js ''txHash'', fr_when = tx_hash_when,
      fr_checks = [IsString, IsNotEmpty, MaxLength 255, Matches tx_hash_pattern]\<rparr>,
     \<lparr>fr_field = js ''amount'', fr_when = always, fr_checks = [IsPaymentAmount]\<rparr>,
     \<lparr>fr_field = js ''asset'', fr_when = always,
      fr_checks = [IsString, IsNotEmpty, MaxLength 32, Matches asset_pattern]\<rparr>]"

section \<open>The libraries\<close>

text \<open>
  \<open>vl_length\<close> is the way class-validator counts the characters of a string, \<open>vl_isUUID\<close> its
  test for UUIDs.
\<close>

record validator_library =
  vl_plainToInstance :: "field_rule list \<Rightarrow> (jsstr \<times> json) list \<Rightarrow> (jsstr \<times> json) list"
  vl_validate :: "field_rule list \<Rightarrow> (jsstr \<times> json) list \<Rightarrow> validation_error list"
  vl_isUUID :: "jsstr \<Rightarrow> bool"
  vl_length :: "jsstr \<Rightarrow> nat"

fun check_holds :: "validator_library \<Rightarrow> json option \<Rightarrow> field_check \<Rightarrow> bool" where
  "check_holds lib v IsString \<longleftrightarrow> (case v of Some (JStr s) \<Rightarrow> True | _ \<Rightarrow> False)"
| "check_holds lib v IsNotEmpty \<longleftrightarrow> v \<noteq> None \<and> v \<noteq> Some JNull \<and> v \<noteq> Some (JStr [])"
| "check_holds lib v (MaxLength n) \<longleftrightarrow> (case v of Some (JStr s) \<Rightarrow> vl_length lib s \<le> n | _ \<Rightarrow> False)"
| "check_holds lib v (Matches p) \<longleftrightarrow> (case v of Some (JStr s) \<Rightarrow> p s | _ \<Rightarrow> False)"
| "check_holds lib v IsUUID \<longleftrightarrow> (case v of Some (JStr s) \<Rightarrow> vl_isUUID lib s | _ \<Rightarrow> False)"
| "check_holds lib v IsObject \<longleftrightarrow> (case v of Some (JObj es) \<Rightarrow> True | _ \<Rightarrow> False)"
| "check_holds lib v IsPaymentAmount \<longleftrightarrow> (case v of Some a \<Rightarrow> isValidPaymentAmount a | None \<Rightarrow> False)"

definition rule_holds :: "validator_library \<Rightarrow> (jsstr \<times> json) list \<Rightarrow> field_rule \<Rightarrow> bool" where
  "rule_holds lib dto r \<longleftrightarrow>
     (let value = map_of dto (fr_field r)
      in fr_when r dto value \<longrightarrow> list_all (check_holds lib value) (fr_checks r))"

definition whitelisted :: "field_rule list \<Rightarrow> (jsstr \<times> json) list \<Rightarrow> bool" where
  "whitelisted rules dto \<longleftrightarrow> list_all (\<lambda>e. fst e \<in> set (map fr_field rules)) dto"

definition accepts :: "validator_library \<Rightarrow> field_rule list \<Rightarrow> (jsstr \<times> json) list \<Rightarrow> bool" where
  "accepts lib rules dto \<longleftrightarrow> whitelisted rules dto \<and> list_all (rule_holds lib dto) rules"

definition documented_validator :: "validator_library \<Rightarrow> bool" where
  "documented_validator lib \<longleftrightarrow>
     (\<forall>rules es. requestBodyGuardMiddleware (Some (JObj es)) = None \<longrightarrow> vl_plainToInstance lib rules es = es) \<and>
     (\<forall>rules dto. vl_validate lib rules dto = [] \<longleftrightarrow> accepts lib rules dto)"

section \<open>Facts\<close>

lemma flatten_append:
  "flattenValidationErrors (xs @ ys) p = flattenValidationErrors xs p @ flattenValidationErrors ys p"
  by (induction xs p rule: flattenValidationErrors.induct) (simp_all add: Let_def)

text \<open>A library that behaves as documented, for the witnesses.\<close>

definition sample_tests :: validator_library where
  "sample_tests = \<lparr>vl_plainToInstance = (\<lambda>_ es. es), vl_validate = (\<lambda>_ _. []),
     vl_isUUID = (\<lambda>s. length s = 36), vl_length = length\<rparr>"

definition sample_validator :: validator_library where
  "sample_validator =
     sample_tests\<lparr>vl_validate := (\<lambda>rules dto. if accepts sample_tests rules dto then [] else [Validation_Error [] [] []])\<rparr>"

lemma check_holds_cong:
  "vl_isUUID lib = vl_isUUID lib' \<Longrightarrow> vl_length lib = vl_length lib' \<Longrightarrow> check_holds lib v c = check_holds lib' v c"
  by (cases c) (simp_all split: option.splits json.splits)

lemma accepts_cong:
  assumes "vl_isUUID lib = vl_isUUID lib'" and "vl_length lib = vl_length lib'"
  shows "accepts lib rules dto = accepts lib' rules dto"
proof -
  have "check_holds lib = check_holds lib'" using check_holds_cong [OF assms] by blast
  then show ?thesis by (simp add: accepts_def rule_holds_def [abs_def])
qed

lemma sample_validator_documented: "documented_validator sample_validator"
proof -
  have "accepts sample_validator rules dto = accepts sample_tests rules dto" for rules dto
    by (rule accepts_cong) (simp_all add: sample_validator_def)
  then show ?thesis by (simp add: documented_validator_def sample_validator_def sample_tests_def)
qed

end
