(* ===== verification/Webhook_Acceptance.thy ===== *)
theory Webhook_Acceptance
  imports Database Idempotency Tx_Hash Webhook_Security Validation
begin

text \<open>
  Acceptance of signed webhooks: \<open>src/webhooks/webhook-events.service.ts\<close>,
  \<open>src/webhooks/webhooks.controller.ts\<close> and \<open>src/webhooks/webhooks.types.ts\<close>.

  A request is checked in the order of the code (headers, timestamp, signature, payload)
  and then stored in one transaction together with an outbox event.  \<open>sha256\<close> and \<open>hmac\<close>
  are the functions of \<open>node:crypto\<close>, \<open>lib\<close> is the validation library, \<open>correlationId\<close>
  the identifier of the request context.  Header values are ASCII, for which \<open>to_lower\<close> is
  \<open>toLowerCase\<close>.
\<close>

section \<open>Types\<close>

definition BLOCKCHAIN_WEBHOOK_PROVIDER :: jsstr where
  "BLOCKCHAIN_WEBHOOK_PROVIDER = js ''blockchain''"

definition PROCESS_WEBHOOK_OUTBOX_TYPE :: jsstr where
  "PROCESS_WEBHOOK_OUTBOX_TYPE = js ''process-webhook-event''"

definition WEBHOOK_OUTBOX_AGGREGATE_TYPE :: jsstr where
  "WEBHOOK_OUTBOX_AGGREGATE_TYPE = js ''webhook_event''"

record WebhookRequestHeaders =
  wh_contentType :: "jsstr option"
  wh_timestamp :: "jsstr option"
  wh_nonce :: "jsstr option"
  wh_signature :: "jsstr option"

record ValidatedWebhookHeaders =
  vh_timestamp :: jsstr
  vh_nonce :: jsstr
  vh_signature :: jsstr

record AcceptBlockchainWebhookRequest =
  rq_headers :: WebhookRequestHeaders
  rq_rawBody :: bytes
  rq_body :: "json option"

record BlockchainWebhookDto =
  wd_eventId :: jsstr
  wd_type :: jsstr
  wd_paymentIntentId :: jsstr
  wd_txHash :: "jsstr option"
  wd_amount :: jsstr
  wd_asset :: jsstr

record BlockchainWebhookPayload =
  wp_eventId :: jsstr
  wp_type :: jsstr
  wp_paymentIntentId :: jsstr
  wp_txHash :: "jsstr option"
  wp_amount :: jsstr
  wp_asset :: jsstr

datatype WebhookAcceptanceStatus = ACCEPTED | ALREADY_ACCEPTED

record WebhookAcceptance =
  ac_eventId :: jsstr
  ac_status :: WebhookAcceptanceStatus
  ac_webhookEventId :: uuid

record WebhookAcceptanceResponse =
  ar_eventId :: jsstr
  ar_status :: WebhookAcceptanceStatus

text \<open>The configuration values that the service reads.\<close>

record webhook_config =
  WEBHOOK_TIMESTAMP_TOLERANCE_SECONDS :: "int option"
  WEBHOOK_SECRET :: "jsstr option"

definition payload_json :: "BlockchainWebhookPayload \<Rightarrow> json" where
  "payload_json p = JObj
     [(js ''eventId'', JStr (wp_eventId p)),
      (js ''type'', JStr (wp_type p)),
      (js ''paymentIntentId'', JStr (wp_paymentIntentId p)),
      (js ''txHash'', (case wp_txHash p of None \<Rightarrow> JNull | Some h \<Rightarrow> JStr h)),
      (js ''amount'', JStr (wp_amount p)),
      (js ''asset'', JStr (wp_asset p))]"

section \<open>Checks before the transaction\<close>

definition blank :: "jsstr option \<Rightarrow> bool" where
  "blank h \<longleftrightarrow> (case h of None \<Rightarrow> True | Some s \<Rightarrow> s = [] \<or> trim s = [])"

definition validateHeaders :: "WebhookRequestHeaders \<Rightarrow> uval + ValidatedWebhookHeaders" where
  "validateHeaders headers =
     (let contentType = map_option (\<lambda>c. trim (hd (split_on 0x3B (to_lower c)))) (wh_contentType headers)
      in if contentType \<noteq> Some (js ''application/json'')
         then Inl (http_exception 400 ''VALIDATION_ERROR'' ''Content-Type must be application/json.'')
         else if blank (wh_timestamp headers)
         then Inl (http_exception 400 ''VALIDATION_ERROR'' ''X-Webhook-Timestamp header is required.'')
         else if blank (wh_nonce headers)
         then Inl (http_exception 400 ''VALIDATION_ERROR'' ''X-Webhook-Nonce header is required.'')
         else if 255 < length (the (wh_nonce headers))
         then Inl (http_exception 400 ''VALIDATION_ERROR'' ''X-Webhook-Nonce header must be 255 characters or fewer.'')
         else if blank (wh_signature headers)
         then Inl (http_exception 400 ''VALIDATION_ERROR'' ''X-Webhook-Signature header is required.'')
         else Inr \<lparr>vh_timestamp = the (wh_timestamp headers), vh_nonce = the (wh_nonce headers),
                   vh_signature = the (wh_signature headers)\<rparr>)"

definition tolerance_seconds :: "webhook_config \<Rightarrow> int" where
  "tolerance_seconds cfg =
     (case WEBHOOK_TIMESTAMP_TOLERANCE_SECONDS cfg of None \<Rightarrow> 300 | Some n \<Rightarrow> n)"

definition validateTimestamp :: "webhook_config \<Rightarrow> int \<Rightarrow> jsstr \<Rightarrow> uval + unit" where
  "validateTimestamp cfg now timestamp =
     (case validateWebhookTimestamp timestamp (tolerance_seconds cfg) now of
        Timestamp_Ok _ \<Rightarrow> Inr ()
      | INVALID_FORMAT \<Rightarrow> Inl (http_exception 400 ''VALIDATION_ERROR''
          ''X-Webhook-Timestamp header must be a Unix timestamp.'')
      | OUTSIDE_TOLERANCE \<Rightarrow> Inl (http_exception 400 ''STALE_WEBHOOK_TIMESTAMP''
          ''Webhook timestamp is outside the configured tolerance window.''))"

definition verifySignature ::
  "(bytes \<Rightarrow> bytes \<Rightarrow> bytes) \<Rightarrow> webhook_config \<Rightarrow> ValidatedWebhookHeaders \<Rightarrow> bytes \<Rightarrow> uval + unit" where
  "verifySignature hmac cfg headers rawBody =
     (if \<not> hasValidWebhookSignatureFormat (vh_signature headers)
      then Inl (http_exception 400 ''VALIDATION_ERROR''
        ''X-Webhook-Signature header must use v1=<hex_signature> format.'')
      else (case WEBHOOK_SECRET cfg of
              None \<Rightarrow> Inl (http_exception 503 ''SERVICE_UNAVAILABLE'' ''Webhook verification is not configured.'')
            | Some secret \<Rightarrow>
                if secret = []
                then Inl (http_exception 503 ''SERVICE_UNAVAILABLE'' ''Webhook verification is not configured.'')
                else if \<not> verifyWebhookSignature hmac secret (vh_timestamp headers) (vh_nonce headers)
                          (Raw_Buffer rawBody) (vh_signature headers)
                then Inl (http_exception 401 ''INVALID_WEBHOOK_SIGNATURE'' ''Webhook signature verification failed.'')
                else Inr ()))"

text \<open>
  The static type of the DTO: the fields the service reads, as the values that pass
  validation have them.  A value of another shape would be a type error.
\<close>

definition webhook_dto :: "(jsstr \<times> json) list \<Rightarrow> BlockchainWebhookDto option" where
  "webhook_dto dto =
     (case (map_of dto (js ''eventId''), map_of dto (js ''type''), map_of dto (js ''paymentIntentId''),
            map_of dto (js ''amount''), map_of dto (js ''asset'')) of
        (Some (JStr eventId), Some (JStr type), Some (JStr paymentIntentId), Some (JStr amount), Some (JStr asset)) \<Rightarrow>
          (case map_of dto (js ''txHash'') of
             None \<Rightarrow> Some \<lparr>wd_eventId = eventId, wd_type = type, wd_paymentIntentId = paymentIntentId,
                           wd_txHash = None, wd_amount = amount, wd_asset = asset\<rparr>
           | Some (JStr txHash) \<Rightarrow>
               Some \<lparr>wd_eventId = eventId, wd_type = type, wd_paymentIntentId = paymentIntentId,
                     wd_txHash = Some txHash, wd_amount = amount, wd_asset = asset\<rparr>
           | _ \<Rightarrow> None)
      | _ \<Rightarrow> None)"

definition validatePayload :: "validator_library \<Rightarrow> json option \<Rightarrow> uval + BlockchainWebhookDto" where
  "validatePayload lib body =
     (case body of
        Some (JObj es) \<Rightarrow>
          (let dto = vl_plainToInstance lib BlockchainWebhookDto_rules es;
               errors = vl_validate lib BlockchainWebhookDto_rules dto
           in if errors \<noteq> [] then Inl (createValidationException errors)
              else (case webhook_dto dto of
                      None \<Rightarrow> Inl (js_error ''TypeError'')
                    | Some d \<Rightarrow> Inr d))
      | _ \<Rightarrow> Inl (http_exception 400 ''VALIDATION_ERROR'' ''Request body must be a JSON object.''))"

definition toPayload :: "BlockchainWebhookDto \<Rightarrow> BlockchainWebhookPayload" where
  "toPayload dto =
     \<lparr>wp_eventId = wd_eventId dto, wp_type = wd_type dto, wp_paymentIntentId = wd_paymentIntentId dto,
      wp_txHash = map_option normalizeTxHash (wd_txHash dto), wp_amount = wd_amount dto, wp_asset = wd_asset dto\<rparr>"

section \<open>The transaction\<close>

definition tryInsertWebhookEvent ::
  "jsstr \<Rightarrow> BlockchainWebhookPayload \<Rightarrow> jsstr \<Rightarrow> ('x, uuid option) tx" where
  "tryInsertWebhookEvent nonce payload payloadHash =
     tx_bind tx_clock (\<lambda>receivedAt.
     tx_bind tx_uuid (\<lambda>i.
     tx_bind (tx_ask pg_now) (\<lambda>now.
     tx_bind (tx_ask pg_uuid) (\<lambda>uuid_of.
     sql (\<lambda>d. case uuid_of (wp_paymentIntentId payload) of
                None \<Rightarrow> Inl (pg_error ''22P02'')
              | Some paymentIntentId \<Rightarrow>
                  we_insert_or_ignore
                    \<lparr>we_id = i, we_provider = BLOCKCHAIN_WEBHOOK_PROVIDER, we_externalEventId = wp_eventId payload,
                     we_nonce = Some nonce, we_eventType = wp_type payload,
                     we_paymentIntentId = Some paymentIntentId, we_txHash = wp_txHash payload,
                     we_payload = payload_json payload, we_payloadHash = payloadHash, we_status = WE_Received,
                     we_failureReason = None, we_receivedAt = receivedAt, we_processedAt = None,
                     we_createdAt = now, we_updatedAt = now\<rparr> d)))))"

definition hasSamePayload :: "(bytes \<Rightarrow> bytes) \<Rightarrow> WebhookEventEntity \<Rightarrow> jsstr \<Rightarrow> bool" where
  "hasSamePayload sha256 existingEvent payloadHash =
     (if we_payloadHash existingEvent = payloadHash then True
      else (case json_get (js ''txHash'') (we_payload existingEvent) of
              Some (JStr storedTxHash) \<Rightarrow>
                (case we_payload existingEvent of
                   JObj es \<Rightarrow>
                     hashCanonicalJson sha256 (JObj (obj_assign (js ''txHash'') (JStr (normalizeTxHash storedTxHash)) es))
                       = payloadHash
                 | _ \<Rightarrow> False)
            | _ \<Rightarrow> False))"

definition find_webhook_by_event :: "jsstr \<Rightarrow> db \<Rightarrow> WebhookEventEntity option" where
  "find_webhook_by_event eventId d =
     find (\<lambda>w. we_provider w = BLOCKCHAIN_WEBHOOK_PROVIDER \<and> we_externalEventId w = eventId) (webhook_events d)"

definition find_webhook_by_nonce :: "jsstr \<Rightarrow> db \<Rightarrow> WebhookEventEntity option" where
  "find_webhook_by_nonce nonce d =
     find (\<lambda>w. we_provider w = BLOCKCHAIN_WEBHOOK_PROVIDER \<and> we_nonce w = Some nonce) (webhook_events d)"

definition event_conflict :: uval where
  "event_conflict = http_exception 409 ''WEBHOOK_EVENT_CONFLICT''
     ''The provider event ID was already used with a different payload.''"

definition nonce_replay :: uval where
  "nonce_replay = http_exception 409 ''WEBHOOK_NONCE_REPLAY''
     ''The webhook nonce was already used for a different event.''"

definition replayOrRejectConflict ::
  "(bytes \<Rightarrow> bytes) \<Rightarrow> jsstr \<Rightarrow> jsstr \<Rightarrow> jsstr \<Rightarrow> ('x, WebhookAcceptance) tx" where
  "replayOrRejectConflict sha256 nonce eventId payloadHash =
     tx_bind (query (find_webhook_by_event eventId)) (\<lambda>existingEvent.
     case existingEvent of
       Some w \<Rightarrow>
         if hasSamePayload sha256 w payloadHash
         then tx_return \<lparr>ac_eventId = eventId, ac_status = ALREADY_ACCEPTED, ac_webhookEventId = we_id w\<rparr>
         else tx_throw event_conflict
     | None \<Rightarrow>
         tx_bind (query (find_webhook_by_nonce nonce)) (\<lambda>existingNonce.
         if existingNonce \<noteq> None
         then tx_throw nonce_replay
         else tx_throw (http_exception 503 ''SERVICE_UNAVAILABLE''
           ''The webhook conflict could not be classified after insert.'')))"

text \<open>The outbox payload; \<open>undefined\<close> properties are dropped when it is stored as JSON.\<close>

definition outbox_payload :: "uuid \<Rightarrow> jsstr option \<Rightarrow> json" where
  "outbox_payload webhookEventId correlationId =
     JObj ((js ''webhookEventId'', JStr webhookEventId)
           # (case correlationId of None \<Rightarrow> [] | Some c \<Rightarrow> [(js ''correlationId'', JStr c)]))"

definition insertOutboxEvent :: "jsstr option \<Rightarrow> uuid \<Rightarrow> ('x, unit) tx" where
  "insertOutboxEvent correlationId webhookEventId =
     tx_bind tx_uuid (\<lambda>i.
     tx_bind (tx_ask pg_now) (\<lambda>now.
     sql (ob_insert
       \<lparr>ob_id = i, ob_type = PROCESS_WEBHOOK_OUTBOX_TYPE, ob_aggregateType = WEBHOOK_OUTBOX_AGGREGATE_TYPE,
        ob_aggregateId = webhookEventId, ob_payload = outbox_payload webhookEventId correlationId,
        ob_status = OB_Pending, ob_attempts = 0, ob_nextAttemptAt = None, ob_lastError = None,
        ob_deadAt = None, ob_createdAt = now, ob_publishedAt = None, ob_updatedAt = now\<rparr>)))"

definition accept_webhook_body ::
  "(bytes \<Rightarrow> bytes) \<Rightarrow> jsstr option \<Rightarrow> jsstr \<Rightarrow> BlockchainWebhookPayload \<Rightarrow> jsstr \<Rightarrow> ('x, WebhookAcceptance) tx" where
  "accept_webhook_body sha256 correlationId nonce payload payloadHash =
     tx_bind (tryInsertWebhookEvent nonce payload payloadHash) (\<lambda>webhookEventId.
     case webhookEventId of
       None \<Rightarrow> replayOrRejectConflict sha256 nonce (wp_eventId payload) payloadHash
     | Some i \<Rightarrow>
         tx_bind (insertOutboxEvent correlationId i) (\<lambda>_.
         tx_return \<lparr>ac_eventId = wp_eventId payload, ac_status = ACCEPTED, ac_webhookEventId = i\<rparr>))"

section \<open>The service\<close>

definition extractExternalEventId :: "json option \<Rightarrow> jsstr option" where
  "extractExternalEventId body =
     (case body of
        Some (JObj es) \<Rightarrow> (case map_of es (js ''eventId'') of Some (JStr s) \<Rightarrow> Some s | _ \<Rightarrow> None)
      | _ \<Rightarrow> None)"

definition payload_hash :: "(bytes \<Rightarrow> bytes) \<Rightarrow> BlockchainWebhookPayload \<Rightarrow> jsstr" where
  "payload_hash sha256 payload = hashCanonicalJson sha256 (payload_json payload)"

text \<open>The \<open>try\<close> block: the checks, in the order of the code, and the transaction.\<close>

definition check_request ::
  "(bytes \<Rightarrow> bytes \<Rightarrow> bytes) \<Rightarrow> validator_library \<Rightarrow> webhook_config \<Rightarrow> int \<Rightarrow> AcceptBlockchainWebhookRequest \<Rightarrow>
   uval + ValidatedWebhookHeaders \<times> BlockchainWebhookPayload" where
  "check_request hmac lib cfg now request =
     (case validateHeaders (rq_headers request) of
        Inl err \<Rightarrow> Inl err
      | Inr headers \<Rightarrow>
          (case validateTimestamp cfg now (vh_timestamp headers) of
             Inl err \<Rightarrow> Inl err
           | Inr _ \<Rightarrow>
               (case verifySignature hmac cfg headers (rq_rawBody request) of
                  Inl err \<Rightarrow> Inl err
                | Inr _ \<Rightarrow>
                    (case validatePayload lib (rq_body request) of
                       Inl err \<Rightarrow> Inl err
                     | Inr dto \<Rightarrow> Inr (headers, toPayload dto)))))"

fun acceptance_status_text :: "WebhookAcceptanceStatus \<Rightarrow> jsstr" where
  "acceptance_status_text ACCEPTED = js ''ACCEPTED''"
| "acceptance_status_text ALREADY_ACCEPTED = js ''ALREADY_ACCEPTED''"

definition acceptBlockchainWebhook ::
  "(bytes \<Rightarrow> bytes) \<Rightarrow> (bytes \<Rightarrow> bytes \<Rightarrow> bytes) \<Rightarrow> validator_library \<Rightarrow> webhook_config \<Rightarrow> jsstr option \<Rightarrow> int \<Rightarrow>
   AcceptBlockchainWebhookRequest \<Rightarrow> env \<Rightarrow> db \<Rightarrow> ((uval + WebhookAcceptanceResponse) \<times> db) \<times> log_event list" where
  "acceptBlockchainWebhook sha256 hmac lib cfg correlationId now request e d =
     (let outcome =
            (case check_request hmac lib cfg now request of
               Inl err \<Rightarrow> (Inl err, d)
             | Inr (headers, payload) \<Rightarrow>
                 db_transaction
                   (accept_webhook_body sha256 correlationId (vh_nonce headers) payload (payload_hash sha256 payload)) e d)
      in case outcome of
           (Inr acceptance, d') \<Rightarrow>
             ((Inr \<lparr>ar_eventId = ac_eventId acceptance, ar_status = ac_status acceptance\<rparr>, d'),
              [(Log_Info,
                if ac_status acceptance = ACCEPTED then js ''webhook_accepted'' else js ''webhook_replayed'',
                [(js ''provider'', U_String BLOCKCHAIN_WEBHOOK_PROVIDER),
                 (js ''externalEventId'', U_String (ac_eventId acceptance)),
                 (js ''webhookEventId'', U_String (ac_webhookEventId acceptance)),
                 (js ''status'', U_String (acceptance_status_text (ac_status acceptance)))])])
         | (Inl error, d') \<Rightarrow>
             ((Inl error, d'),
              [(Log_Warn, js ''webhook_rejected'',
                [(js ''provider'', U_String BLOCKCHAIN_WEBHOOK_PROVIDER),
                 (js ''externalEventId'',
                  case extractExternalEventId (rq_body request) of None \<Rightarrow> U_Undefined | Some i \<Rightarrow> U_String i),
                 (js ''status'', U_String (js ''REJECTED'')),
                 (js ''errorCode'', U_String (toSafeErrorCode error (js ''WEBHOOK_REJECTED'')))])]))"

text \<open>
  The controller: the raw body must have been captured; a returned value is sent with
  status 202 (\<open>HttpCode(202)\<close>).
\<close>

definition accept_webhook_endpoint ::
  "(bytes \<Rightarrow> bytes) \<Rightarrow> (bytes \<Rightarrow> bytes \<Rightarrow> bytes) \<Rightarrow> validator_library \<Rightarrow> webhook_config \<Rightarrow> jsstr option \<Rightarrow> int \<Rightarrow>
   WebhookRequestHeaders \<Rightarrow> bytes option \<Rightarrow> json option \<Rightarrow> env \<Rightarrow> db \<Rightarrow> (uval + nat \<times> WebhookAcceptanceResponse) \<times> db" where
  "accept_webhook_endpoint sha256 hmac lib cfg correlationId now headers rawBody body e d =
     (case rawBody of
        None \<Rightarrow>
          (Inl (http_exception 400 ''VALIDATION_ERROR'' ''Raw request body is required for webhook verification.''), d)
      | Some raw \<Rightarrow>
          (case fst (acceptBlockchainWebhook sha256 hmac lib cfg correlationId now
                       \<lparr>rq_headers = headers, rq_rawBody = raw, rq_body = body\<rparr> e d) of
             (Inl err, d') \<Rightarrow> (Inl err, d')
           | (Inr response, d') \<Rightarrow> (Inr (202, response), d')))"

section \<open>Runs\<close>

text \<open>The rows that an accepted webhook writes.\<close>

definition webhook_row ::
  "uuid \<Rightarrow> time \<Rightarrow> time \<Rightarrow> uuid \<Rightarrow> jsstr \<Rightarrow> BlockchainWebhookPayload \<Rightarrow> jsstr \<Rightarrow> WebhookEventEntity" where
  "webhook_row i receivedAt now paymentIntentId nonce payload payloadHash =
     \<lparr>we_id = i, we_provider = BLOCKCHAIN_WEBHOOK_PROVIDER, we_externalEventId = wp_eventId payload,
      we_nonce = Some nonce, we_eventType = wp_type payload,
      we_paymentIntentId = Some paymentIntentId, we_txHash = wp_txHash payload,
      we_payload = payload_json payload, we_payloadHash = payloadHash, we_status = WE_Received,
      we_failureReason = None, we_receivedAt = receivedAt, we_processedAt = None,
      we_createdAt = now, we_updatedAt = now\<rparr>"

definition outbox_row :: "uuid \<Rightarrow> time \<Rightarrow> jsstr option \<Rightarrow> uuid \<Rightarrow> OutboxEventEntity" where
  "outbox_row i now correlationId webhookEventId =
     \<lparr>ob_id = i, ob_type = PROCESS_WEBHOOK_OUTBOX_TYPE, ob_aggregateType = WEBHOOK_OUTBOX_AGGREGATE_TYPE,
      ob_aggregateId = webhookEventId, ob_payload = outbox_payload webhookEventId correlationId,
      ob_status = OB_Pending, ob_attempts = 0, ob_nextAttemptAt = None, ob_lastError = None,
      ob_deadAt = None, ob_createdAt = now, ob_publishedAt = None, ob_updatedAt = now\<rparr>"

definition accepted_db ::
  "jsstr option \<Rightarrow> jsstr \<Rightarrow> BlockchainWebhookPayload \<Rightarrow> jsstr \<Rightarrow> env \<Rightarrow> uuid \<Rightarrow> db \<Rightarrow> db" where
  "accepted_db correlationId nonce payload payloadHash e paymentIntentId d =
     d\<lparr>webhook_events := webhook_events d
         @ [webhook_row (new_uuid e 0) (clock e 0) (pg_now e) paymentIntentId nonce payload payloadHash],
       outbox_events := outbox_events d @ [outbox_row (new_uuid e 1) (pg_now e) correlationId (new_uuid e 0)]\<rparr>"

lemma try_insert_webhook_success:
  assumes "tryInsertWebhookEvent nonce payload h e (new_session d x) = (Inr i, s1)"
  shows "ext s1 = x \<and> fresh s1 = 1 \<and>
    (i = None \<and> tables s1 = d \<or>
     (\<exists>pid. pg_uuid e (wp_paymentIntentId payload) = Some pid \<and>
       find_webhook_by_event (wp_eventId payload) d = None \<and> find_webhook_by_nonce nonce d = None \<and>
       i = Some (new_uuid e 0) \<and> new_uuid e 0 \<notin> we_id ` set (webhook_events d) \<and>
       we_fits (webhook_row (new_uuid e 0) (clock e 0) (pg_now e) pid nonce payload h) \<and>
       tables s1 = d\<lparr>webhook_events := webhook_events d
         @ [webhook_row (new_uuid e 0) (clock e 0) (pg_now e) pid nonce payload h]\<rparr>))"
  using assms unfolding tryInsertWebhookEvent_def
  by (auto simp: tx_inv we_insert_or_ignore_def we_conflicts_def list_ex_iff find_webhook_by_event_def
      find_webhook_by_nonce_def find_None_iff webhook_row_def split: if_splits option.splits)

lemma replay_webhook_success:
  assumes "replayOrRejectConflict sha256 nonce eventId h e s = (Inr res, s')"
  obtains w where "find_webhook_by_event eventId (tables s) = Some w" "hasSamePayload sha256 w h"
    "res = \<lparr>ac_eventId = eventId, ac_status = ALREADY_ACCEPTED, ac_webhookEventId = we_id w\<rparr>"
    "tables s' = tables s" "ext s' = ext s"
  using assms unfolding replayOrRejectConflict_def
  by (auto simp: tx_inv split: option.splits if_splits)

lemma insert_outbox_success:
  assumes "insertOutboxEvent correlationId i e s = (Inr u, s')"
  shows "new_uuid e (fresh s) \<notin> ob_id ` set (outbox_events (tables s)) \<and> ext s' = ext s \<and>
    tables s' = (tables s)\<lparr>outbox_events := outbox_events (tables s)
      @ [outbox_row (new_uuid e (fresh s)) (pg_now e) correlationId i]\<rparr>"
  using assms unfolding insertOutboxEvent_def
  by (auto simp: tx_inv ob_insert_def list_ex_iff outbox_row_def split: if_splits)

lemma accept_success:
  assumes "accept_webhook_body sha256 correlationId nonce payload h e (new_session d x) = (Inr res, s')"
  shows "(\<exists>w. find_webhook_by_event (wp_eventId payload) d = Some w \<and> hasSamePayload sha256 w h \<and>
      res = \<lparr>ac_eventId = wp_eventId payload, ac_status = ALREADY_ACCEPTED, ac_webhookEventId = we_id w\<rparr> \<and>
      tables s' = d \<and> ext s' = x) \<or>
    (\<exists>pid. pg_uuid e (wp_paymentIntentId payload) = Some pid \<and>
      find_webhook_by_event (wp_eventId payload) d = None \<and> find_webhook_by_nonce nonce d = None \<and>
      new_uuid e 0 \<notin> we_id ` set (webhook_events d) \<and> new_uuid e 1 \<notin> ob_id ` set (outbox_events d) \<and>
      we_fits (webhook_row (new_uuid e 0) (clock e 0) (pg_now e) pid nonce payload h) \<and>
      res = \<lparr>ac_eventId = wp_eventId payload, ac_status = ACCEPTED, ac_webhookEventId = new_uuid e 0\<rparr> \<and>
      tables s' = accepted_db correlationId nonce payload h e pid d \<and> ext s' = x)"
proof -
  from assms obtain i s1 where 1: "tryInsertWebhookEvent nonce payload h e (new_session d x) = (Inr i, s1)"
    and 2: "(case i of None \<Rightarrow> replayOrRejectConflict sha256 nonce (wp_eventId payload) h
      | Some i \<Rightarrow> tx_bind (insertOutboxEvent correlationId i) (\<lambda>_.
          tx_return \<lparr>ac_eventId = wp_eventId payload, ac_status = ACCEPTED, ac_webhookEventId = i\<rparr>)) e s1 = (Inr res, s')"
    unfolding accept_webhook_body_def by (auto simp: tx_bind_Inr)
  note first = try_insert_webhook_success [OF 1]
  show ?thesis
  proof (cases i)
    case None
    with first have "tables s1 = d" "ext s1 = x" by auto
    then show ?thesis using 2 None by (auto elim!: replay_webhook_success)
  next
    case (Some j)
    with 2 obtain u s2 where "insertOutboxEvent correlationId j e s1 = (Inr u, s2)" "s' = s2"
      "res = \<lparr>ac_eventId = wp_eventId payload, ac_status = ACCEPTED, ac_webhookEventId = j\<rparr>"
      by (auto simp: tx_inv)
    with insert_outbox_success [OF this(1)] first Some show ?thesis
      by (auto simp: accepted_db_def)
  qed
qed

lemma accept_fault_safe: "fault_safe (accept_webhook_body sha256 correlationId nonce payload h)"
  unfolding accept_webhook_body_def tryInsertWebhookEvent_def replayOrRejectConflict_def insertOutboxEvent_def
  by (auto intro!: fault_safe_intros split: option.splits)

interpretation accept: atomic_db_operation "accept_webhook_body sha256 correlationId nonce payload h"
  for sha256 correlationId nonce payload h
  by unfold_locales (rule accept_fault_safe)

lemma accept_transaction_success:
  assumes "db_transaction (accept_webhook_body sha256 correlationId nonce payload h) (calm e) d = (Inr res, d')"
  shows "(\<exists>w. find_webhook_by_event (wp_eventId payload) d = Some w \<and> hasSamePayload sha256 w h \<and>
      res = \<lparr>ac_eventId = wp_eventId payload, ac_status = ALREADY_ACCEPTED, ac_webhookEventId = we_id w\<rparr> \<and> d' = d) \<or>
    (\<exists>pid. pg_uuid e (wp_paymentIntentId payload) = Some pid \<and>
      find_webhook_by_event (wp_eventId payload) d = None \<and> find_webhook_by_nonce nonce d = None \<and>
      new_uuid e 0 \<notin> we_id ` set (webhook_events d) \<and> new_uuid e 1 \<notin> ob_id ` set (outbox_events d) \<and>
      we_fits (webhook_row (new_uuid e 0) (clock e 0) (pg_now e) pid nonce payload h) \<and>
      res = \<lparr>ac_eventId = wp_eventId payload, ac_status = ACCEPTED, ac_webhookEventId = new_uuid e 0\<rparr> \<and>
      d' = accepted_db correlationId nonce payload h e pid d)"
proof -
  from assms obtain s where
    run: "accept_webhook_body sha256 correlationId nonce payload h (calm e) (new_session d ()) = (Inr res, s)"
    and "d' = tables s"
    unfolding accept.db_calm by (auto split: prod.splits sum.splits)
  with accept_success [OF run] show ?thesis by (auto simp: accepted_db_def)
qed

section \<open>The contract\<close>

text \<open>
  Events stored by the current code hold a normalized payload and its hash.  The
  digest of a stored event is the hash that a redelivery of it has.
\<close>

definition stored_digest :: "(bytes \<Rightarrow> bytes) \<Rightarrow> WebhookEventEntity \<Rightarrow> jsstr" where
  "stored_digest sha256 w =
     (case (we_payload w, json_get (js ''txHash'') (we_payload w)) of
        (JObj es, Some (JStr t)) \<Rightarrow>
          hashCanonicalJson sha256 (JObj (obj_assign (js ''txHash'') (JStr (normalizeTxHash t)) es))
      | _ \<Rightarrow> we_payloadHash w)"

definition webhooks_normalized :: "(bytes \<Rightarrow> bytes) \<Rightarrow> db \<Rightarrow> bool" where
  "webhooks_normalized sha256 d \<longleftrightarrow> (\<forall>w\<in>set (webhook_events d). we_payloadHash w = stored_digest sha256 w)"

definition recorded_webhook :: "db \<Rightarrow> jsstr \<Rightarrow> (jsstr \<times> uuid) option" where
  "recorded_webhook d eventId = map_option (\<lambda>w. (we_payloadHash w, we_id w)) (find_webhook_by_event eventId d)"

lemma same_payload_digest:
  "hasSamePayload sha256 w h \<longleftrightarrow> we_payloadHash w = h \<or> stored_digest sha256 w = h"
  by (auto simp: hasSamePayload_def stored_digest_def split: option.splits json.splits)

text \<open>A request as the transaction sees it: nonce, correlation identifier, payload.\<close>

type_synonym webhook_request = "jsstr \<times> jsstr option \<times> BlockchainWebhookDto"

definition handle_webhook ::
  "(bytes \<Rightarrow> bytes) \<Rightarrow> webhook_request \<Rightarrow> env \<Rightarrow> db \<Rightarrow> (uval + WebhookAcceptance) \<times> db" where
  "handle_webhook sha256 q e d =
     (case q of (nonce, correlationId, dto) \<Rightarrow>
        db_transaction (accept_webhook_body sha256 correlationId nonce (toPayload dto) (payload_hash sha256 (toPayload dto))) e d)"

definition keeps_webhook_records :: "(bytes \<Rightarrow> bytes) \<Rightarrow> db \<Rightarrow> db \<Rightarrow> bool" where
  "keeps_webhook_records sha256 d d' \<longleftrightarrow>
     (webhooks_normalized sha256 d \<longrightarrow> webhooks_normalized sha256 d') \<and>
     (\<forall>k v. recorded_webhook d k = Some v \<longrightarrow> recorded_webhook d' k = Some v)"

lemma obj_assign_same:
  "map_of es k = Some v \<Longrightarrow> distinct (map fst es) \<Longrightarrow> k \<noteq> proto_key \<Longrightarrow> obj_assign k v es = es"
proof -
  assume a: "map_of es k = Some v" and d: "distinct (map fst es)" and "k \<noteq> proto_key"
  have "map (\<lambda>e. if fst e = k then (k, v) else e) es = es"
  proof (rule map_idI)
    fix x assume "x \<in> set es"
    with a d show "(if fst x = k then (k, v) else x) = x"
      by (cases x) (auto dest: map_of_is_SomeI [OF d])
  qed
  moreover have "k \<in> fst ` set es" using a by (metis map_of_eq_None_iff option.distinct(1))
  ultimately show ?thesis using \<open>k \<noteq> proto_key\<close> by (simp add: obj_assign_def)
qed

lemma payload_fields:
  "distinct (map fst [(js ''eventId'', a), (js ''type'', b), (js ''paymentIntentId'', c), (js ''txHash'', d'),
     (js ''amount'', e'), (js ''asset'', f)])"
  "map_of [(js ''eventId'', a), (js ''type'', b), (js ''paymentIntentId'', c), (js ''txHash'', d'),
     (js ''amount'', e'), (js ''asset'', f)] (js ''txHash'') = Some d'"
  "js ''txHash'' \<noteq> proto_key"
  by (simp_all add: js_def proto_key_def)

lemma webhook_row_digest:
  "stored_digest sha256 (webhook_row i r now pid nonce (toPayload dto) (payload_hash sha256 (toPayload dto))) =
   payload_hash sha256 (toPayload dto)"
proof (cases "wd_txHash dto")
  case None
  then show ?thesis
    by (simp add: stored_digest_def webhook_row_def payload_json_def toPayload_def payload_fields(2))
next
  case (Some t)
  then show ?thesis
    by (simp add: stored_digest_def webhook_row_def payload_json_def toPayload_def payload_fields(2)
        payload_hash_def obj_assign_same [OF payload_fields(2,1,3)])
qed

lemma accepted_recorded:
  assumes "find_webhook_by_event (wp_eventId payload) d = None"
  shows "recorded_webhook (accepted_db correlationId nonce payload h e pid d) k =
    (if k = wp_eventId payload then Some (h, new_uuid e 0) else recorded_webhook d k)"
  using assms
  by (auto simp: recorded_webhook_def accepted_db_def find_webhook_by_event_def find_append webhook_row_def
      split: option.splits)

lemma accepted_keeps:
  assumes "find_webhook_by_event (wp_eventId payload) d = None" and "recorded_webhook d k = Some v"
  shows "recorded_webhook (accepted_db correlationId nonce payload h e pid d) k = Some v"
proof -
  have "k \<noteq> wp_eventId payload" using assms by (auto simp: recorded_webhook_def)
  then show ?thesis using assms by (simp add: accepted_recorded)
qed

lemma toPayload_eventId [simp]: "wp_eventId (toPayload dto) = wd_eventId dto"
  by (simp add: toPayload_def)

lemma accepted_normalized:
  assumes "webhooks_normalized sha256 d"
  shows "webhooks_normalized sha256
    (accepted_db correlationId nonce (toPayload dto) (payload_hash sha256 (toPayload dto)) e pid d)"
  using assms webhook_row_digest [of sha256]
  by (auto simp: webhooks_normalized_def accepted_db_def) (simp add: webhook_row_def)

lemma handle_webhook_effect:
  obtains "snd (handle_webhook sha256 (nonce, correlationId, dto) e d) = d"
  | pid where "find_webhook_by_event (wd_eventId dto) d = None" "find_webhook_by_nonce nonce d = None"
    "new_uuid e 0 \<notin> we_id ` set (webhook_events d)" "new_uuid e 1 \<notin> ob_id ` set (outbox_events d)"
    "pg_uuid e (wd_paymentIntentId dto) = Some pid"
    "snd (handle_webhook sha256 (nonce, correlationId, dto) e d) =
       accepted_db correlationId nonce (toPayload dto) (payload_hash sha256 (toPayload dto)) e pid d"
proof (rule accept.effect_cases [of sha256 correlationId nonce "toPayload dto" "payload_hash sha256 (toPayload dto)" e d])
  fix r
  assume "db_transaction (accept_webhook_body sha256 correlationId nonce (toPayload dto) (payload_hash sha256 (toPayload dto)))
      (calm e) d = (Inr r, snd (db_transaction (accept_webhook_body sha256 correlationId nonce (toPayload dto)
        (payload_hash sha256 (toPayload dto))) e d))"
  from accept_transaction_success [OF this] that show thesis
    by (auto simp: handle_webhook_def toPayload_def)
qed (use that(1) in \<open>simp add: handle_webhook_def\<close>)

interpretation webhook_requests: idempotent_receiver
  "handle_webhook sha256" "keeps_webhook_records sha256" recorded_webhook "\<lambda>(nonce, correlationId, dto). wd_eventId dto"
  "\<lambda>(nonce, correlationId, dto). payload_hash sha256 (toPayload dto)" ac_webhookEventId
  "\<lambda>res. ac_status res = ACCEPTED" "webhooks_normalized sha256"
  for sha256
proof unfold_locales
  fix st e and q :: webhook_request
  assume inv: "webhooks_normalized sha256 st"
  obtain nonce correlationId dto where q: "q = (nonce, correlationId, dto)" by (cases q)
  show "webhooks_normalized sha256 (snd (handle_webhook sha256 q e st))"
    unfolding q by (rule handle_webhook_effect [of sha256 nonce correlationId dto e st]) (simp_all add: inv accepted_normalized)
  show "recorded_webhook (snd (handle_webhook sha256 q e st)) k = Some v" if "recorded_webhook st k = Some v" for k v
    unfolding q by (rule handle_webhook_effect [of sha256 nonce correlationId dto e st])
      (use that in \<open>simp_all add: accepted_keeps\<close>)
  fix r st'
  assume "handle_webhook sha256 q e st = (Inr r, st')"
  then have run: "db_transaction (accept_webhook_body sha256 correlationId nonce (toPayload dto) (payload_hash sha256 (toPayload dto)))
      (calm e) st = (Inr r, st')"
    unfolding q handle_webhook_def by (auto intro: accept.returns_calm)
  have "we_payloadHash w = payload_hash sha256 (toPayload dto)"
    if "find_webhook_by_event k st = Some w" "hasSamePayload sha256 w (payload_hash sha256 (toPayload dto))" for w k
    using that inv by (auto simp: same_payload_digest webhooks_normalized_def find_webhook_by_event_def find_Some_iff)
  then show "recorded_webhook st' (case q of (nonce, correlationId, dto) \<Rightarrow> wd_eventId dto) =
      Some (case q of (nonce, correlationId, dto) \<Rightarrow> payload_hash sha256 (toPayload dto), ac_webhookEventId r)"
    and "(ac_status r = ACCEPTED) = (recorded_webhook st (case q of (nonce, correlationId, dto) \<Rightarrow> wd_eventId dto) = None)"
    using accept_transaction_success [OF run] unfolding q
    by (auto simp: accepted_recorded) (auto simp: recorded_webhook_def)
qed (auto simp: keeps_webhook_records_def)

section \<open>Runs without failures\<close>

definition webhook_fits :: "jsstr \<Rightarrow> BlockchainWebhookPayload \<Rightarrow> bool" where
  "webhook_fits nonce payload \<longleftrightarrow>
     varchar 255 nonce \<and> varchar 255 (wp_eventId payload) \<and> varchar 128 (wp_type payload) \<and>
     varchar_null 255 (wp_txHash payload)"

lemma row_fits:
  assumes "webhook_fits nonce payload" and "varchar 128 h"
  shows "we_fits (webhook_row i receivedAt now pid nonce payload h)"
proof -
  have "varchar 128 BLOCKCHAIN_WEBHOOK_PROVIDER"
    by (rule varcharI) (simp add: BLOCKCHAIN_WEBHOOK_PROVIDER_def js_def)
  then show ?thesis using assms by (simp add: we_fits_def webhook_row_def webhook_fits_def)
qed

lemma try_insert_calm:
  assumes "webhook_fits nonce payload" and "varchar 128 h" and "pg_uuid e (wp_paymentIntentId payload) = Some pid"
    and "new_uuid e 0 \<notin> we_id ` set (webhook_events d)"
  shows "tryInsertWebhookEvent nonce payload h (calm e) (new_session d x) =
    (if find_webhook_by_event (wp_eventId payload) d = None \<and> find_webhook_by_nonce nonce d = None
     then (Inr (Some (new_uuid e 0)),
           \<lparr>tables = d\<lparr>webhook_events := webhook_events d
              @ [webhook_row (new_uuid e 0) (clock e 0) (pg_now e) pid nonce payload h]\<rparr>,
            aborted = False, stmts = 1, ticks = 1, fresh = 1, ext = x\<rparr>)
     else (Inr None, \<lparr>tables = d, aborted = False, stmts = 1, ticks = 1, fresh = 1, ext = x\<rparr>))"
proof -
  let ?row = "webhook_row (new_uuid e 0) (clock e 0) (pg_now e) pid nonce payload h"
  have "list_ex (\<lambda>r. we_id r = we_id ?row \<or> we_conflicts ?row r) (webhook_events d) \<longleftrightarrow>
      \<not> (find_webhook_by_event (wp_eventId payload) d = None \<and> find_webhook_by_nonce nonce d = None)"
    using assms(4)
    by (auto simp: list_ex_iff webhook_row_def we_conflicts_def find_webhook_by_event_def find_webhook_by_nonce_def
        find_None_iff image_iff)
  then have "we_insert_or_ignore ?row d =
      (if find_webhook_by_event (wp_eventId payload) d = None \<and> find_webhook_by_nonce nonce d = None
       then Inr (Some (new_uuid e 0), d\<lparr>webhook_events := webhook_events d @ [?row]\<rparr>) else Inr (None, d))"
    using row_fits [OF assms(1,2)] by (simp add: we_insert_or_ignore_def) (simp add: webhook_row_def)
  then show ?thesis
    unfolding tryInsertWebhookEvent_def webhook_row_def [symmetric]
    by (simp add: tx_eval new_session_def assms(3) webhook_row_def)
qed

lemma accept_calm:
  assumes "webhook_fits nonce payload" and "varchar 128 h" and "pg_uuid e (wp_paymentIntentId payload) = Some pid"
    and "new_uuid e 0 \<notin> we_id ` set (webhook_events d)" and "new_uuid e 1 \<notin> ob_id ` set (outbox_events d)"
  shows "db_transaction (accept_webhook_body sha256 correlationId nonce payload h) (calm e) d =
    (case find_webhook_by_event (wp_eventId payload) d of
       Some w \<Rightarrow>
         (if hasSamePayload sha256 w h
          then Inr \<lparr>ac_eventId = wp_eventId payload, ac_status = ALREADY_ACCEPTED, ac_webhookEventId = we_id w\<rparr>
          else Inl event_conflict, d)
     | None \<Rightarrow>
         if find_webhook_by_nonce nonce d \<noteq> None then (Inl nonce_replay, d)
         else (Inr \<lparr>ac_eventId = wp_eventId payload, ac_status = ACCEPTED, ac_webhookEventId = new_uuid e 0\<rparr>,
               accepted_db correlationId nonce payload h e pid d))"
proof -
  have "\<not> list_ex (\<lambda>r. ob_id r = new_uuid e 1) (outbox_events d)"
    using assms(5) by (auto simp: list_ex_iff image_iff)
  then show ?thesis
    unfolding accept.db_calm
    by (simp add: accept_webhook_body_def try_insert_calm [OF assms(1-4)] replayOrRejectConflict_def insertOutboxEvent_def query_def tx_eval ob_insert_def accepted_db_def
        outbox_row_def split: option.splits)
qed

section \<open>Properties\<close>

lemma validate_headers_success:
  assumes "validateHeaders h = Inr v"
  shows "wh_timestamp h = Some (vh_timestamp v) \<and> wh_nonce h = Some (vh_nonce v) \<and>
    wh_signature h = Some (vh_signature v) \<and> trim (vh_nonce v) \<noteq> [] \<and> length (vh_nonce v) \<le> 255"
  using assms by (auto simp: validateHeaders_def blank_def Let_def split: if_splits option.splits)

lemma validate_timestamp_success:
  "validateTimestamp cfg now ts = Inr u \<longleftrightarrow> (\<exists>t. validateWebhookTimestamp ts (tolerance_seconds cfg) now = Timestamp_Ok t)"
  by (auto simp: validateTimestamp_def split: timestamp_result.splits)

lemma verify_signature_success:
  assumes "verifySignature hmac cfg h raw = Inr u"
  shows "\<exists>secret. WEBHOOK_SECRET cfg = Some secret \<and> secret \<noteq> [] \<and>
    verifyWebhookSignature hmac secret (vh_timestamp h) (vh_nonce h) (Raw_Buffer raw) (vh_signature h)"
  using assms by (auto simp: verifySignature_def split: if_splits option.splits)

lemma validate_payload_success:
  assumes "validatePayload lib body = Inr dto"
  shows "\<exists>es. body = Some (JObj es) \<and>
    vl_validate lib BlockchainWebhookDto_rules (vl_plainToInstance lib BlockchainWebhookDto_rules es) = [] \<and>
    webhook_dto (vl_plainToInstance lib BlockchainWebhookDto_rules es) = Some dto"
  using assms by (auto simp: validatePayload_def Let_def split: option.splits json.splits if_splits)

lemma check_request_success:
  assumes "check_request hmac lib cfg now request = Inr (headers, payload)"
  obtains t secret dto where "validateHeaders (rq_headers request) = Inr headers"
    "validateWebhookTimestamp (vh_timestamp headers) (tolerance_seconds cfg) now = Timestamp_Ok t"
    "WEBHOOK_SECRET cfg = Some secret" "secret \<noteq> []"
    "verifyWebhookSignature hmac secret (vh_timestamp headers) (vh_nonce headers) (Raw_Buffer (rq_rawBody request))
       (vh_signature headers)"
    "validatePayload lib (rq_body request) = Inr dto" "payload = toPayload dto"
proof -
  from assms obtain dto where dto: "validateHeaders (rq_headers request) = Inr headers"
    "validateTimestamp cfg now (vh_timestamp headers) = Inr ()"
    "verifySignature hmac cfg headers (rq_rawBody request) = Inr ()"
    "validatePayload lib (rq_body request) = Inr dto" "payload = toPayload dto"
    unfolding check_request_def by (auto split: sum.splits)
  with that show thesis using verify_signature_success [OF dto(3)] unfolding validate_timestamp_success by blast
qed

abbreviation accept_tx where
  "accept_tx sha256 correlationId headers payload e d \<equiv>
     db_transaction (accept_webhook_body sha256 correlationId (vh_nonce headers) payload (payload_hash sha256 payload)) e d"

lemma accept_unfold:
  "check_request hmac lib cfg now request = Inl err \<Longrightarrow>
     fst (acceptBlockchainWebhook sha256 hmac lib cfg correlationId now request e d) = (Inl err, d)"
  "check_request hmac lib cfg now request = Inr (headers, payload) \<Longrightarrow>
     accept_tx sha256 correlationId headers payload e d = (r, d') \<Longrightarrow>
     fst (acceptBlockchainWebhook sha256 hmac lib cfg correlationId now request e d) =
       (map_sum id (\<lambda>a. \<lparr>ar_eventId = ac_eventId a, ar_status = ac_status a\<rparr>) r, d')"
  by (auto simp: acceptBlockchainWebhook_def Let_def split: sum.splits)

lemma accept_cases:
  obtains err where "check_request hmac lib cfg now request = Inl err"
    "fst (acceptBlockchainWebhook sha256 hmac lib cfg correlationId now request e d) = (Inl err, d)"
  | headers payload r d' where "check_request hmac lib cfg now request = Inr (headers, payload)"
    "accept_tx sha256 correlationId headers payload e d = (r, d')"
    "fst (acceptBlockchainWebhook sha256 hmac lib cfg correlationId now request e d) =
       (map_sum id (\<lambda>a. \<lparr>ar_eventId = ac_eventId a, ar_status = ac_status a\<rparr>) r, d')"
proof (cases "check_request hmac lib cfg now request")
  case (Inl err)
  with that(1) accept_unfold(1) show thesis by blast
next
  case (Inr c)
  obtain headers payload r d' where "c = (headers, payload)"
    "accept_tx sha256 correlationId headers payload e d = (r, d')" by (metis surj_pair)
  with Inr that(2) accept_unfold(2) show thesis by blast
qed

lemma accept_Inr:
  assumes "fst (acceptBlockchainWebhook sha256 hmac lib cfg correlationId now request e d) = (Inr response, d')"
  obtains headers payload a where "check_request hmac lib cfg now request = Inr (headers, payload)"
    "accept_tx sha256 correlationId headers payload e d = (Inr a, d')"
    "response = \<lparr>ar_eventId = ac_eventId a, ar_status = ac_status a\<rparr>"
proof (rule accept_cases [of hmac lib cfg now request sha256 correlationId e d])
  fix headers payload r d1
  assume c: "check_request hmac lib cfg now request = Inr (headers, payload)"
    "accept_tx sha256 correlationId headers payload e d = (r, d1)"
    "fst (acceptBlockchainWebhook sha256 hmac lib cfg correlationId now request e d) =
       (map_sum id (\<lambda>a. \<lparr>ar_eventId = ac_eventId a, ar_status = ac_status a\<rparr>) r, d1)"
  with assms obtain a where "r = Inr a" "d1 = d'" "response = \<lparr>ar_eventId = ac_eventId a, ar_status = ac_status a\<rparr>"
    by (cases r) auto
  with c that show thesis by blast
qed (use assms in simp)

text \<open>
  C10: an accepted webhook is authentic and complete.  When the service answers, the request
  carried a fresh timestamp and a valid signature over timestamp, nonce and the exact raw
  body, and a body that satisfies every rule of the DTO; and the database then holds the event:
  either exactly one event row (status RECEIVED) and one outbox row for it (PENDING, no
  attempts) were added in the same transaction, or nothing changed and an event with
  the same identifier and the same normalized payload was stored before.
\<close>

theorem accepted_webhook_authentic:
  assumes "documented_validator lib" and "requestBodyGuardMiddleware (rq_body request) = None"
    and "fst (acceptBlockchainWebhook sha256 hmac lib cfg correlationId now request e d) = (Inr response, d')"
  shows "\<exists>timestamp nonce signature t secret es dto.
    wh_timestamp (rq_headers request) = Some timestamp \<and> wh_nonce (rq_headers request) = Some nonce \<and>
    wh_signature (rq_headers request) = Some signature \<and>
    validateWebhookTimestamp timestamp (tolerance_seconds cfg) now = Timestamp_Ok t \<and>
    WEBHOOK_SECRET cfg = Some secret \<and> secret \<noteq> [] \<and>
    verifyWebhookSignature hmac secret timestamp nonce (Raw_Buffer (rq_rawBody request)) signature \<and>
    rq_body request = Some (JObj es) \<and> accepts lib BlockchainWebhookDto_rules es \<and> webhook_dto es = Some dto \<and>
    ar_eventId response = wd_eventId dto \<and>
    (ar_status response = ACCEPTED \<and>
       (\<exists>pid. pg_uuid e (wd_paymentIntentId dto) = Some pid \<and>
          d' = d\<lparr>webhook_events := webhook_events d @
                   [webhook_row (new_uuid e 0) (clock e 0) (pg_now e) pid nonce (toPayload dto) (payload_hash sha256 (toPayload dto))],
                 outbox_events := outbox_events d @ [outbox_row (new_uuid e 1) (pg_now e) correlationId (new_uuid e 0)]\<rparr>) \<or>
     ar_status response = ALREADY_ACCEPTED \<and> d' = d \<and>
       (\<exists>w\<in>set (webhook_events d). we_provider w = BLOCKCHAIN_WEBHOOK_PROVIDER \<and> we_externalEventId w = wd_eventId dto \<and>
          hasSamePayload sha256 w (payload_hash sha256 (toPayload dto))))"
proof -
  from accept_Inr [OF assms(3)] obtain headers payload a where
    ok: "check_request hmac lib cfg now request = Inr (headers, payload)"
    and run: "accept_tx sha256 correlationId headers payload e d = (Inr a, d')"
    and resp: "response = \<lparr>ar_eventId = ac_eventId a, ar_status = ac_status a\<rparr>" .
  from check_request_success [OF ok] obtain t secret dto where
    c: "validateHeaders (rq_headers request) = Inr headers"
      "validateWebhookTimestamp (vh_timestamp headers) (tolerance_seconds cfg) now = Timestamp_Ok t"
      "WEBHOOK_SECRET cfg = Some secret" "secret \<noteq> []"
      "verifyWebhookSignature hmac secret (vh_timestamp headers) (vh_nonce headers) (Raw_Buffer (rq_rawBody request))
         (vh_signature headers)"
    and dto: "validatePayload lib (rq_body request) = Inr dto" and p: "payload = toPayload dto" .
  from validate_payload_success [OF dto] assms(1,2) obtain es where
    es: "rq_body request = Some (JObj es)" "accepts lib BlockchainWebhookDto_rules es" "webhook_dto es = Some dto"
    unfolding documented_validator_def by metis
  from accept_transaction_success [OF accept.returns_calm [OF run]] c validate_headers_success [OF c(1)] es
  show ?thesis
    unfolding p resp
    by (elim disjE) (auto simp: accepted_db_def find_webhook_by_event_def find_Some_iff toPayload_def)
qed


text \<open>
  C12: a redelivery is recognized.  Once an event is stored, delivering it again, with any nonce
  and with any spelling of its transaction hash (surrounding white space, letter case of a
  0x-prefixed hash), is answered with ALREADY_ACCEPTED and changes nothing.  This covers
  events stored before hashes were normalized, whose payload and payload hash hold the
  hash as it was sent.
\<close>

theorem redelivery_recognized:
  assumes "find_webhook_by_event (wd_eventId dto) d = Some w"
    and "we_payload w = payload_json stored" and "we_payloadHash w = payload_hash sha256 stored"
    and "toPayload dto = stored\<lparr>wp_txHash := map_option normalizeTxHash (wp_txHash stored)\<rparr>"
    and "\<And>m. length (sha256 m) = 32" and "webhook_fits nonce (toPayload dto)"
    and "pg_uuid e (wd_paymentIntentId dto) = Some pid"
    and "new_uuid e 0 \<notin> we_id ` set (webhook_events d)" and "new_uuid e 1 \<notin> ob_id ` set (outbox_events d)"
  shows "handle_webhook sha256 (nonce, correlationId, dto) (calm e) d =
    (Inr \<lparr>ac_eventId = wd_eventId dto, ac_status = ALREADY_ACCEPTED, ac_webhookEventId = we_id w\<rparr>, d)"
proof -
  have "hasSamePayload sha256 w (payload_hash sha256 (toPayload dto))"
  proof (cases "wp_txHash stored")
    case None
    then have "stored\<lparr>wp_txHash := map_option normalizeTxHash (wp_txHash stored)\<rparr> = stored" by simp
    with assms(3,4) show ?thesis by (simp add: same_payload_digest)
  next
    case (Some t)
    have "obj_assign (js ''txHash'') (JStr (normalizeTxHash t))
        [(js ''eventId'', JStr (wp_eventId stored)), (js ''type'', JStr (wp_type stored)),
         (js ''paymentIntentId'', JStr (wp_paymentIntentId stored)), (js ''txHash'', JStr t),
         (js ''amount'', JStr (wp_amount stored)), (js ''asset'', JStr (wp_asset stored))] =
        [(js ''eventId'', JStr (wp_eventId stored)), (js ''type'', JStr (wp_type stored)),
         (js ''paymentIntentId'', JStr (wp_paymentIntentId stored)), (js ''txHash'', JStr (normalizeTxHash t)),
         (js ''amount'', JStr (wp_amount stored)), (js ''asset'', JStr (wp_asset stored))]"
      by (simp add: obj_assign_def proto_key_def js_def)
    with Some assms(2,4) show ?thesis
      by (simp add: same_payload_digest stored_digest_def payload_json_def payload_fields(2) payload_hash_def)
  qed
  moreover have "varchar 128 (payload_hash sha256 (toPayload dto))" using assms(5) by (simp add: payload_hash_def hash_fits)
  moreover have "wp_paymentIntentId (toPayload dto) = wd_paymentIntentId dto" by (simp add: toPayload_def)
  ultimately show ?thesis
    using accept_calm [OF assms(6), of "payload_hash sha256 (toPayload dto)" e pid d sha256 correlationId] assms(1,7,8,9)
    by (simp add: handle_webhook_def)
qed


text \<open>
  C14: idempotency of acceptance.  In any history of webhook requests, with any failures and
  interleaved with any steps that keep the stored events, at most one request per event
  identifier is accepted as new, and all requests answered for one identifier have the
  same payload hash and refer to the same stored event.
\<close>

theorem webhook_history_idempotent:
  assumes "webhooks_normalized sha256 d"
    and "delivered (handle_webhook sha256) (keeps_webhook_records sha256) d rs d'"
  shows "distinct (map (\<lambda>(q, res). wd_eventId (snd (snd q))) (filter (\<lambda>(q, res). ac_status res = ACCEPTED) rs)) \<and>
    (\<forall>nonce c dto res nonce' c' dto' res'. ((nonce, c, dto), res) \<in> set rs \<longrightarrow> ((nonce', c', dto'), res') \<in> set rs \<longrightarrow>
       wd_eventId dto = wd_eventId dto' \<longrightarrow>
       payload_hash sha256 (toPayload dto) = payload_hash sha256 (toPayload dto') \<and>
       ac_webhookEventId res = ac_webhookEventId res')"
proof (intro conjI allI impI)
  show "distinct (map (\<lambda>(q, res). wd_eventId (snd (snd q))) (filter (\<lambda>(q, res). ac_status res = ACCEPTED) rs))"
    using webhook_requests.carried_out_once [OF assms] by (simp add: case_prod_beta)
next
  fix nonce c dto res nonce' c' dto' res'
  assume "((nonce, c, dto), res) \<in> set rs" and "((nonce', c', dto'), res') \<in> set rs" and "wd_eventId dto = wd_eventId dto'"
  then show "payload_hash sha256 (toPayload dto) = payload_hash sha256 (toPayload dto')"
    and "ac_webhookEventId res = ac_webhookEventId res'"
    using webhook_requests.same_answer [OF assms, of "(nonce, c, dto)" res "(nonce', c', dto')" res'] by simp_all
qed

section \<open>Witnesses\<close>

definition sample_body :: "(jsstr \<times> json) list" where
  "sample_body =
     [(js ''eventId'', JStr (js ''evt_1'')), (js ''type'', JStr (js ''transaction.confirmed'')),
      (js ''paymentIntentId'', JStr (js ''5f70a0c2-7bb5-4545-b181-3fcff9b56b86'')), (js ''txHash'', JStr (js ''0xAB'')),
      (js ''amount'', JStr (js ''125.50'')), (js ''asset'', JStr (js ''USDC''))]"

definition sample_webhook_dto :: BlockchainWebhookDto where
  "sample_webhook_dto =
     \<lparr>wd_eventId = js ''evt_1'', wd_type = js ''transaction.confirmed'',
      wd_paymentIntentId = js ''5f70a0c2-7bb5-4545-b181-3fcff9b56b86'', wd_txHash = Some (js ''0xAB''),
      wd_amount = js ''125.50'', wd_asset = js ''USDC''\<rparr>"

definition sample_request :: AcceptBlockchainWebhookRequest where
  "sample_request =
     \<lparr>rq_headers = \<lparr>wh_contentType = Some (js ''application/json; charset=utf-8''),
        wh_timestamp = Some (js ''1700000000''), wh_nonce = Some (js ''n1''),
        wh_signature = Some (createWebhookSignature sample_hmac (js ''secret'') (js ''1700000000'') (js ''n1'') (Raw_Buffer [0x7B]))\<rparr>,
      rq_rawBody = [0x7B], rq_body = Some (JObj sample_body)\<rparr>"

definition sample_config :: webhook_config where
  "sample_config = \<lparr>WEBHOOK_TIMESTAMP_TOLERANCE_SECONDS = None, WEBHOOK_SECRET = Some (js ''secret'')\<rparr>"

definition sample_headers :: ValidatedWebhookHeaders where
  "sample_headers = \<lparr>vh_timestamp = js ''1700000000'', vh_nonce = js ''n1'',
     vh_signature = createWebhookSignature sample_hmac (js ''secret'') (js ''1700000000'') (js ''n1'') (Raw_Buffer [0x7B])\<rparr>"

lemma sample_step1: "validateHeaders (rq_headers sample_request) = Inr sample_headers"
  by code_simp
lemma sample_step2: "validateTimestamp sample_config 1700000299000 (vh_timestamp sample_headers) = Inr ()"
proof -
  have "digits_val (js ''1700000000'') = 1700000000" by (simp add: js_eval)
  moreover have "list_all is_digit (js ''1700000000'')" and "js ''1700000000'' \<noteq> []"
    by (simp_all add: js_eval)
  ultimately have "validateWebhookTimestamp (js ''1700000000'') 300 1700000299000 = Timestamp_Ok 1700000000"
    using timestamp_window [of 1700000299000 300 "js ''1700000000''" 1700000000] by simp
  then show ?thesis by (simp add: validateTimestamp_def sample_config_def sample_headers_def tolerance_seconds_def)
qed
lemma sample_step3: "verifySignature sample_hmac sample_config sample_headers (rq_rawBody sample_request) = Inr ()"
  by code_simp
lemma sample_step4: "validatePayload sample_validator (rq_body sample_request) = Inr sample_webhook_dto"
  by code_simp

lemma sample_guarded: "requestBodyGuardMiddleware (rq_body sample_request) = None"
  by code_simp

lemma sample_check:
  "check_request sample_hmac sample_validator sample_config 1700000299000 sample_request =
     Inr (sample_headers, toPayload sample_webhook_dto)"
  by (simp add: check_request_def sample_step1 sample_step2 sample_step3 sample_step4)

lemma sample_webhook_fits:
  "webhook_fits (js ''n1'') (toPayload sample_webhook_dto)"
  "varchar 128 (payload_hash sample_sha256 (toPayload sample_webhook_dto))"
proof -
  have "length (normalizeTxHash (js ''0xAB'')) \<le> 255" by code_simp
  then show "webhook_fits (js ''n1'') (toPayload sample_webhook_dto)"
    by (simp add: webhook_fits_def toPayload_def sample_webhook_dto_def varcharI) (simp add: varcharI js_def)
  show "varchar 128 (payload_hash sample_sha256 (toPayload sample_webhook_dto))" by (simp add: payload_hash_def hash_fits)
qed

lemma empty_db_webhook [simp]: "find_webhook_by_event k empty_db = None" "find_webhook_by_nonce n empty_db = None"
  by (simp_all add: find_webhook_by_event_def find_webhook_by_nonce_def)

definition sample_accepted :: db where
  "sample_accepted = accepted_db None (js ''n1'') (toPayload sample_webhook_dto)
     (payload_hash sample_sha256 (toPayload sample_webhook_dto)) (sample_env 0)
     (js ''5f70a0c2-7bb5-4545-b181-3fcff9b56b86'') empty_db"

lemma sample_accept:
  "handle_webhook sample_sha256 (js ''n1'', None, sample_webhook_dto) (sample_env 0) empty_db =
     (Inr \<lparr>ac_eventId = js ''evt_1'', ac_status = ACCEPTED, ac_webhookEventId = new_uuid (sample_env 0) 0\<rparr>, sample_accepted)"
  using accept_calm [OF sample_webhook_fits, of "sample_env 0" _ empty_db sample_sha256 None]
  by (simp add: handle_webhook_def sample_accepted_def toPayload_def sample_webhook_dto_def)

theorem accepted_webhook_authentic_witness:
  "\<exists>response d'. fst (acceptBlockchainWebhook sample_sha256 sample_hmac sample_validator sample_config None 1700000299000
      sample_request (sample_env 0) empty_db) = (Inr response, d') \<and>
    length (webhook_events d') = 1 \<and> length (outbox_events d') = 1"
proof -
  have tx: "accept_tx sample_sha256 None sample_headers (toPayload sample_webhook_dto) (sample_env 0) empty_db =
      (Inr \<lparr>ac_eventId = js ''evt_1'', ac_status = ACCEPTED, ac_webhookEventId = new_uuid (sample_env 0) 0\<rparr>, sample_accepted)"
    using sample_accept by (simp add: handle_webhook_def sample_headers_def)
  from accept_unfold(2) [OF sample_check tx] obtain response d' where
    run: "fst (acceptBlockchainWebhook sample_sha256 sample_hmac sample_validator sample_config None 1700000299000
      sample_request (sample_env 0) empty_db) = (Inr response, d')" and "d' \<noteq> empty_db"
    by (simp add: sample_accepted_def accepted_db_def empty_db_def)
  from accepted_webhook_authentic [OF sample_validator_documented sample_guarded run] this(2)
  have "length (webhook_events d') = 1 \<and> length (outbox_events d') = 1" by auto
  with run show ?thesis by blast
qed


lemma sample_stored:
  "find_webhook_by_event (js ''evt_1'') sample_accepted =
     Some (webhook_row (new_uuid (sample_env 0) 0) 1700000000000 1700000000000
       (js ''5f70a0c2-7bb5-4545-b181-3fcff9b56b86'') (js ''n1'') (toPayload sample_webhook_dto)
       (payload_hash sample_sha256 (toPayload sample_webhook_dto)))"
  "find_webhook_by_nonce (js ''n1'') sample_accepted \<noteq> None"
  "js ''id'' @ [1, 0] \<notin> we_id ` set (webhook_events sample_accepted)"
  "js ''id'' @ [1, 1] \<notin> ob_id ` set (outbox_events sample_accepted)"
  by (simp_all add: sample_accepted_def accepted_db_def find_webhook_by_event_def find_webhook_by_nonce_def webhook_row_def
      outbox_row_def toPayload_def sample_webhook_dto_def)

theorem redelivery_recognized_witness:
  "fst (handle_webhook sample_sha256 (js ''n2'', None, sample_webhook_dto\<lparr>wd_txHash := Some (js '' 0xab '')\<rparr>)
     (sample_env 1) sample_accepted) =
   Inr \<lparr>ac_eventId = js ''evt_1'', ac_status = ALREADY_ACCEPTED, ac_webhookEventId = new_uuid (sample_env 0) 0\<rparr>"
proof -
  let ?dto = "sample_webhook_dto\<lparr>wd_txHash := Some (js '' 0xab '')\<rparr>"
  have n: "normalizeTxHash (js '' 0xab '') = normalizeTxHash (js ''0xAB'')" by code_simp
  then have p: "toPayload ?dto = toPayload sample_webhook_dto" by (simp add: toPayload_def sample_webhook_dto_def)
  have f: "find_webhook_by_event (wd_eventId ?dto) sample_accepted =
     Some (webhook_row (new_uuid (sample_env 0) 0) 1700000000000 1700000000000
       (js ''5f70a0c2-7bb5-4545-b181-3fcff9b56b86'') (js ''n1'') (toPayload sample_webhook_dto)
       (payload_hash sample_sha256 (toPayload sample_webhook_dto)))"
    using sample_stored(1) by (simp add: sample_webhook_dto_def)
  have fits: "webhook_fits (js ''n2'') (toPayload ?dto)"
    using sample_webhook_fits(1) unfolding p by (simp add: webhook_fits_def varcharI js_def)
  from redelivery_recognized [OF f, of "toPayload sample_webhook_dto" sample_sha256 "js ''n2''" "sample_env 1"
      "wd_paymentIntentId ?dto" None]
  show ?thesis
    using fits sample_stored(3,4) p
    by (simp add: webhook_row_def) (simp add: toPayload_def sample_webhook_dto_def option.map_comp comp_def)
qed


theorem webhook_history_idempotent_witness:
  "\<exists>res res'. delivered (handle_webhook sample_sha256) (keeps_webhook_records sample_sha256) empty_db
     [((js ''n1'', None, sample_webhook_dto), res), ((js ''n2'', None, sample_webhook_dto), res')] sample_accepted \<and>
     ac_status res = ACCEPTED \<and> ac_status res' = ALREADY_ACCEPTED \<and> ac_webhookEventId res = ac_webhookEventId res'"
proof -
  let ?h = "handle_webhook sample_sha256" and ?o = "keeps_webhook_records sample_sha256"
  let ?q = "(js ''n1'', None, sample_webhook_dto)" and ?q' = "(js ''n2'', None, sample_webhook_dto)"
  obtain res where 1: "?h ?q (sample_env 0) empty_db = (Inr res, sample_accepted)" and s1: "ac_status res = ACCEPTED"
    using sample_accept by simp
  have fits: "webhook_fits (js ''n2'') (toPayload sample_webhook_dto)"
    using sample_webhook_fits(1) by (simp add: webhook_fits_def varcharI js_def)
  have e: "wp_eventId (toPayload sample_webhook_dto) = js ''evt_1''" by (simp add: sample_webhook_dto_def)
  obtain res' where 2: "?h ?q' (sample_env 1) sample_accepted = (Inr res', sample_accepted)"
    and s2: "ac_status res' = ALREADY_ACCEPTED"
    using accept_calm [OF fits sample_webhook_fits(2), of "sample_env 1" _ sample_accepted sample_sha256 None]
      sample_stored same_payload_digest e
    by (simp add: handle_webhook_def webhook_row_def)
  have r1: "delivered ?h ?o empty_db ([] @ [(?q, res)]) sample_accepted"
    by (rule delivered.answered, rule delivered.start, rule 1)
  have "delivered ?h ?o empty_db (([] @ [(?q, res)]) @ [(?q', res')]) sample_accepted"
    by (rule delivered.answered, rule r1, rule 2)
  then have run: "delivered ?h ?o empty_db [(?q, res), (?q', res')] sample_accepted" by simp
  have "webhooks_normalized sample_sha256 empty_db" by (simp add: webhooks_normalized_def)
  from webhook_history_idempotent [OF this run, THEN conjunct2, rule_format, of "js ''n1''" None sample_webhook_dto res
      "js ''n2''" None sample_webhook_dto res'] s1 s2 run
  show ?thesis by auto
qed

end
