(* ===== verification/Processor.thy ===== *)
theory Processor
  imports Database Tx_Hash
begin

text \<open>
  Processing of accepted events, \<open>src/processing/webhook-event-processor.service.ts\<close>: in one
  transaction the event row is locked, the rules are applied to it and to its payment
  intent, and an attempt is recorded.

  \<open>decide\<close> is the abstract description of the rules, a pure function of the event and
  of the payment intents; the lemmas show that the transaction carries out its decision.
  \<open>BigInt\<close> in \<open>normalizeAmount\<close> raises a \<open>SyntaxError\<close> on texts that are not integers;
  this is an exception of the transaction.
\<close>

section \<open>The service\<close>

datatype ProcessingFailureReason =
    UNKNOWN_PAYMENT_INTENT | UNSUPPORTED_EVENT_TYPE | MISSING_TX_HASH | AMOUNT_MISMATCH | ASSET_MISMATCH
  | PAYMENT_INTENT_TERMINAL | CONFIRMED_TX_HASH_CONFLICT

fun reason_text :: "ProcessingFailureReason \<Rightarrow> jsstr" where
  "reason_text UNKNOWN_PAYMENT_INTENT = js ''UNKNOWN_PAYMENT_INTENT''"
| "reason_text UNSUPPORTED_EVENT_TYPE = js ''UNSUPPORTED_EVENT_TYPE''"
| "reason_text MISSING_TX_HASH = js ''MISSING_TX_HASH''"
| "reason_text AMOUNT_MISMATCH = js ''AMOUNT_MISMATCH''"
| "reason_text ASSET_MISMATCH = js ''ASSET_MISMATCH''"
| "reason_text PAYMENT_INTENT_TERMINAL = js ''PAYMENT_INTENT_TERMINAL''"
| "reason_text CONFIRMED_TX_HASH_CONFLICT = js ''CONFIRMED_TX_HASH_CONFLICT''"

datatype ProcessingResult =
  PR_processed | PR_already_processed | PR_failed ProcessingFailureReason | PR_already_failed "jsstr option"

definition insertAttempt ::
  "uuid \<Rightarrow> jsstr option \<Rightarrow> WebhookProcessingAttemptStatus \<Rightarrow> jsstr option \<Rightarrow> time \<Rightarrow> ('x, unit) tx" where
  "insertAttempt webhookEventId jobId status errorMessage startedAt =
     tx_bind tx_clock (\<lambda>finishedAt.
     tx_bind tx_uuid (\<lambda>i.
     tx_bind (tx_ask pg_now) (\<lambda>now.
     sql (wa_insert
       \<lparr>wa_id = i, wa_webhookEventId = webhookEventId, wa_jobId = jobId, wa_status = status,
        wa_errorMessage = errorMessage, wa_startedAt = startedAt, wa_finishedAt = Some finishedAt,
        wa_createdAt = now\<rparr>))))"

definition markWebhookProcessed ::
  "WebhookEventEntity \<Rightarrow> jsstr option \<Rightarrow> time \<Rightarrow> ('x, ProcessingResult) tx" where
  "markWebhookProcessed webhookEvent jobId startedAt =
     tx_bind tx_clock (\<lambda>processedAt.
     tx_bind (tx_ask pg_now) (\<lambda>now.
     tx_bind (sql (we_save now (webhookEvent
       \<lparr>we_status := WE_Processed, we_failureReason := None, we_processedAt := Some processedAt\<rparr>))) (\<lambda>saved.
     tx_bind (insertAttempt (we_id saved) jobId WA_Succeeded None startedAt) (\<lambda>_.
     tx_return PR_processed))))"

definition failWebhookEvent ::
  "WebhookEventEntity \<Rightarrow> jsstr option \<Rightarrow> time \<Rightarrow> ProcessingFailureReason \<Rightarrow> ('x, ProcessingResult) tx" where
  "failWebhookEvent webhookEvent jobId startedAt reason =
     tx_bind tx_clock (\<lambda>processedAt.
     tx_bind (tx_ask pg_now) (\<lambda>now.
     tx_bind (sql (we_save now (webhookEvent
       \<lparr>we_status := WE_Failed, we_failureReason := Some (reason_text reason), we_processedAt := Some processedAt\<rparr>))) (\<lambda>saved.
     tx_bind (insertAttempt (we_id saved) jobId WA_Failed (Some (reason_text reason)) startedAt) (\<lambda>_.
     tx_return (PR_failed reason)))))"

definition syntax_error :: uval where
  "syntax_error = U_Object (Class_Error (js ''SyntaxError''))
     [(js ''name'', U_String (js ''SyntaxError'')), (js ''message'', U_String (js ''Cannot convert to a BigInt''))]"

definition validatePayloadMatchesPaymentIntent ::
  "json \<Rightarrow> PaymentIntentEntity \<Rightarrow> uval + ProcessingFailureReason option" where
  "validatePayloadMatchesPaymentIntent payload paymentIntent =
     (case json_get (js ''amount'') payload of
        Some (JStr amount) \<Rightarrow>
          (case (normalizeAmount amount, normalizeAmount (pi_amount paymentIntent)) of
             (Some a, Some b) \<Rightarrow>
               if a \<noteq> b then Inr (Some AMOUNT_MISMATCH)
               else if json_get (js ''asset'') payload \<noteq> Some (JStr (pi_asset paymentIntent))
               then Inr (Some ASSET_MISMATCH)
               else Inr None
           | _ \<Rightarrow> Inl syntax_error)
      | _ \<Rightarrow> Inr (Some AMOUNT_MISMATCH))"

definition lockPaymentIntent :: "WebhookEventEntity \<Rightarrow> ('x, PaymentIntentEntity option) tx" where
  "lockPaymentIntent webhookEvent =
     (case we_paymentIntentId webhookEvent of
        None \<Rightarrow> tx_return None
      | Some i \<Rightarrow> query (\<lambda>d. row_find pi_id i (payment_intents d)))"

definition confirm_payment_intent ::
  "WebhookEventEntity \<Rightarrow> jsstr option \<Rightarrow> time \<Rightarrow> PaymentIntentEntity \<Rightarrow> jsstr \<Rightarrow> ('x, ProcessingResult) tx" where
  "confirm_payment_intent webhookEvent jobId startedAt paymentIntent txHash =
     tx_bind (query (\<lambda>d. find (\<lambda>r. pi_confirmedTxHash r = Some txHash) (payment_intents d))) (\<lambda>existingConfirmedIntent.
     if (case existingConfirmedIntent of None \<Rightarrow> False | Some q \<Rightarrow> pi_id q \<noteq> pi_id paymentIntent)
     then failWebhookEvent webhookEvent jobId startedAt CONFIRMED_TX_HASH_CONFLICT
     else
       tx_bind (tx_ask pg_now) (\<lambda>now.
       tx_bind (sql (pi_save now (paymentIntent
         \<lparr>pi_status := PI_Confirmed, pi_confirmedTxHash := Some txHash, pi_failureReason := None\<rparr>))) (\<lambda>_.
       markWebhookProcessed webhookEvent jobId startedAt)))"

text \<open>The rules after the payment intent was found and locked.\<close>

definition apply_intent_rules ::
  "WebhookEventEntity \<Rightarrow> jsstr option \<Rightarrow> time \<Rightarrow> jsstr \<Rightarrow> PaymentIntentEntity \<Rightarrow> ('x, ProcessingResult) tx" where
  "apply_intent_rules webhookEvent jobId startedAt txHash paymentIntent =
     (case validatePayloadMatchesPaymentIntent (we_payload webhookEvent) paymentIntent of
        Inl err \<Rightarrow> tx_throw err
      | Inr (Some validationFailure) \<Rightarrow> failWebhookEvent webhookEvent jobId startedAt validationFailure
      | Inr None \<Rightarrow>
          if pi_status paymentIntent = PI_Confirmed then
            if (case pi_confirmedTxHash paymentIntent of None \<Rightarrow> False | Some h \<Rightarrow> normalizeTxHash h = txHash)
            then markWebhookProcessed webhookEvent jobId startedAt
            else failWebhookEvent webhookEvent jobId startedAt PAYMENT_INTENT_TERMINAL
          else if pi_status paymentIntent = PI_Failed \<or> pi_status paymentIntent = PI_Expired
          then failWebhookEvent webhookEvent jobId startedAt PAYMENT_INTENT_TERMINAL
          else confirm_payment_intent webhookEvent jobId startedAt paymentIntent txHash)"

definition applyProcessingRules ::
  "WebhookEventEntity \<Rightarrow> jsstr option \<Rightarrow> time \<Rightarrow> ('x, ProcessingResult) tx" where
  "applyProcessingRules webhookEvent jobId startedAt =
     (let payload = we_payload webhookEvent;
          fail = failWebhookEvent webhookEvent jobId startedAt
      in if json_get (js ''type'') payload \<noteq> Some (JStr (js ''transaction.confirmed''))
         then fail UNSUPPORTED_EVENT_TYPE
         else (case json_get (js ''txHash'') payload of
             Some (JStr rawTxHash) \<Rightarrow>
               if trim rawTxHash = [] then fail MISSING_TX_HASH
               else
                 (let txHash = normalizeTxHash rawTxHash
                  in tx_bind (lockPaymentIntent webhookEvent) (\<lambda>found.
                     case found of
                       None \<Rightarrow> fail UNKNOWN_PAYMENT_INTENT
                     | Some paymentIntent \<Rightarrow> apply_intent_rules webhookEvent jobId startedAt txHash paymentIntent))
           | _ \<Rightarrow> fail MISSING_TX_HASH))"

text \<open>The row lock of \<open>pessimistic_write\<close> is implied by running transactions one at a time.\<close>

definition lockWebhookEvent :: "jsstr \<Rightarrow> ('x, WebhookEventEntity) tx" where
  "lockWebhookEvent webhookEventId =
     tx_bind (tx_ask pg_uuid) (\<lambda>uuid_of.
     tx_bind (sql (\<lambda>d. case uuid_of webhookEventId of
                         None \<Rightarrow> Inl (pg_error ''22P02'')
                       | Some u \<Rightarrow> Inr (row_find we_id u (webhook_events d), d))) (\<lambda>found.
     case found of
       None \<Rightarrow> tx_throw (js_error ''WEBHOOK_EVENT_NOT_FOUND'')
     | Some webhookEvent \<Rightarrow> tx_return webhookEvent))"

definition process_webhook_event_body :: "jsstr \<Rightarrow> jsstr option \<Rightarrow> ('x, ProcessingResult) tx" where
  "process_webhook_event_body webhookEventId jobId =
     tx_bind tx_clock (\<lambda>startedAt.
     tx_bind (lockWebhookEvent webhookEventId) (\<lambda>webhookEvent.
     if we_status webhookEvent = WE_Processed then
       tx_bind (insertAttempt (we_id webhookEvent) jobId WA_Succeeded None startedAt) (\<lambda>_.
       tx_return PR_already_processed)
     else if we_status webhookEvent = WE_Failed then
       tx_bind (insertAttempt (we_id webhookEvent) jobId WA_Failed (we_failureReason webhookEvent) startedAt) (\<lambda>_.
       tx_return (PR_already_failed (we_failureReason webhookEvent)))
     else
       tx_bind (tx_ask pg_now) (\<lambda>now.
       tx_bind (sql (we_save now (webhookEvent
         \<lparr>we_status := WE_Processing, we_failureReason := None, we_processedAt := None\<rparr>))) (\<lambda>saved.
       applyProcessingRules saved jobId startedAt))))"

definition processWebhookEvent :: "jsstr \<Rightarrow> jsstr option \<Rightarrow> env \<Rightarrow> db \<Rightarrow> (uval + ProcessingResult) \<times> db" where
  "processWebhookEvent webhookEventId jobId e d = db_transaction (process_webhook_event_body webhookEventId jobId) e d"

section \<open>The rules\<close>

datatype decision = Confirm PaymentIntentEntity jsstr | Acknowledge | Reject ProcessingFailureReason

text \<open>What the rules say about an open event, given the payment intents.\<close>

definition decide_intent ::
  "WebhookEventEntity \<Rightarrow> PaymentIntentEntity list \<Rightarrow> jsstr \<Rightarrow> PaymentIntentEntity \<Rightarrow> uval + decision" where
  "decide_intent w intents txHash p =
     (case validatePayloadMatchesPaymentIntent (we_payload w) p of
        Inl err \<Rightarrow> Inl err
      | Inr (Some reason) \<Rightarrow> Inr (Reject reason)
      | Inr None \<Rightarrow>
          Inr (if pi_status p = PI_Confirmed
               then if map_option normalizeTxHash (pi_confirmedTxHash p) = Some txHash
                    then Acknowledge else Reject PAYMENT_INTENT_TERMINAL
               else if pi_status p \<in> {PI_Failed, PI_Expired} then Reject PAYMENT_INTENT_TERMINAL
               else if \<exists>q\<in>set intents. pi_confirmedTxHash q = Some txHash \<and> pi_id q \<noteq> pi_id p
               then Reject CONFIRMED_TX_HASH_CONFLICT
               else Confirm p txHash))"

definition decide :: "WebhookEventEntity \<Rightarrow> PaymentIntentEntity list \<Rightarrow> uval + decision" where
  "decide w intents =
     (if json_get (js ''type'') (we_payload w) \<noteq> Some (JStr (js ''transaction.confirmed''))
      then Inr (Reject UNSUPPORTED_EVENT_TYPE)
      else (case json_get (js ''txHash'') (we_payload w) of
          Some (JStr raw) \<Rightarrow>
            if trim raw = [] then Inr (Reject MISSING_TX_HASH)
            else (case Option.bind (we_paymentIntentId w) (\<lambda>i. row_find pi_id i intents) of
                None \<Rightarrow> Inr (Reject UNKNOWN_PAYMENT_INTENT)
              | Some p \<Rightarrow> decide_intent w intents (normalizeTxHash raw) p)
        | _ \<Rightarrow> Inr (Reject MISSING_TX_HASH)))"

section \<open>The effect of a decision\<close>

fun decision_result :: "decision \<Rightarrow> ProcessingResult" where
  "decision_result (Reject reason) = PR_failed reason"
| "decision_result _ = PR_processed"

fun decision_status :: "decision \<Rightarrow> WebhookEventStatus" where
  "decision_status (Reject reason) = WE_Failed"
| "decision_status _ = WE_Processed"

fun decision_reason :: "decision \<Rightarrow> jsstr option" where
  "decision_reason (Reject reason) = Some (reason_text reason)"
| "decision_reason _ = None"

fun decision_attempt :: "decision \<Rightarrow> WebhookProcessingAttemptStatus" where
  "decision_attempt (Reject reason) = WA_Failed"
| "decision_attempt _ = WA_Succeeded"

definition confirmed_intent :: "time \<Rightarrow> PaymentIntentEntity \<Rightarrow> jsstr \<Rightarrow> PaymentIntentEntity" where
  "confirmed_intent now p txHash =
     p\<lparr>pi_status := PI_Confirmed, pi_confirmedTxHash := Some txHash, pi_failureReason := None, pi_updatedAt := now\<rparr>"

fun decision_intents :: "time \<Rightarrow> decision \<Rightarrow> PaymentIntentEntity list \<Rightarrow> PaymentIntentEntity list" where
  "decision_intents now (Confirm p txHash) rows = row_update pi_id (pi_id p) (\<lambda>_. confirmed_intent now p txHash) rows"
| "decision_intents now _ rows = rows"

definition attempt_row ::
  "uuid \<Rightarrow> uuid \<Rightarrow> jsstr option \<Rightarrow> WebhookProcessingAttemptStatus \<Rightarrow> jsstr option \<Rightarrow> time \<Rightarrow> time \<Rightarrow> time \<Rightarrow>
   WebhookProcessingAttemptEntity" where
  "attempt_row i webhookEventId jobId status errorMessage startedAt finishedAt now =
     \<lparr>wa_id = i, wa_webhookEventId = webhookEventId, wa_jobId = jobId, wa_status = status,
      wa_errorMessage = errorMessage, wa_startedAt = startedAt, wa_finishedAt = Some finishedAt, wa_createdAt = now\<rparr>"

definition settled_event :: "time \<Rightarrow> time \<Rightarrow> decision \<Rightarrow> WebhookEventEntity \<Rightarrow> WebhookEventEntity" where
  "settled_event processedAt now dec w =
     w\<lparr>we_status := decision_status dec, we_failureReason := decision_reason dec,
       we_processedAt := Some processedAt, we_updatedAt := now\<rparr>"

definition decided_db :: "jsstr option \<Rightarrow> env \<Rightarrow> WebhookEventEntity \<Rightarrow> decision \<Rightarrow> db \<Rightarrow> db" where
  "decided_db jobId e w dec d =
     d\<lparr>payment_intents := decision_intents (pg_now e) dec (payment_intents d),
       webhook_events := row_update we_id (we_id w) (\<lambda>_. settled_event (clock e 1) (pg_now e) dec w) (webhook_events d),
       webhook_processing_attempts := webhook_processing_attempts d @
         [attempt_row (new_uuid e 0) (we_id w) jobId (decision_attempt dec) (decision_reason dec)
            (clock e 0) (clock e 2) (pg_now e)]\<rparr>"

definition attempted_db :: "jsstr option \<Rightarrow> env \<Rightarrow> WebhookEventEntity \<Rightarrow> db \<Rightarrow> db" where
  "attempted_db jobId e w d =
     d\<lparr>webhook_processing_attempts := webhook_processing_attempts d @
         [attempt_row (new_uuid e 0) (we_id w) jobId
            (if we_status w = WE_Processed then WA_Succeeded else WA_Failed)
            (if we_status w = WE_Processed then None else we_failureReason w)
            (clock e 0) (clock e 1) (pg_now e)]\<rparr>"

section \<open>Runs\<close>

lemma insert_attempt_success:
  assumes "insertAttempt wid jobId status err startedAt e s = (Inr u, s')"
  shows "tables s' = (tables s)\<lparr>webhook_processing_attempts := webhook_processing_attempts (tables s) @
      [attempt_row (new_uuid e (fresh s)) wid jobId status err startedAt (clock e (ticks s)) (pg_now e)]\<rparr> \<and>
    ext s' = ext s"
  using assms unfolding insertAttempt_def
  by (auto simp: tx_inv wa_insert_def attempt_row_def split: if_splits)

lemma finish_success:
  assumes "(case dec of Reject reason \<Rightarrow> failWebhookEvent w jobId startedAt reason
      | _ \<Rightarrow> markWebhookProcessed w jobId startedAt) e s = (Inr res, s')"
  shows "res = decision_result dec \<and> ext s' = ext s \<and>
    tables s' = (tables s)\<lparr>
      webhook_events := row_update we_id (we_id w)
        (\<lambda>_. settled_event (clock e (ticks s)) (pg_now e) dec w) (webhook_events (tables s)),
      webhook_processing_attempts := webhook_processing_attempts (tables s) @
        [attempt_row (new_uuid e (fresh s)) (we_id w) jobId (decision_attempt dec) (decision_reason dec)
           startedAt (clock e (Suc (ticks s))) (pg_now e)]\<rparr>"
  using assms unfolding failWebhookEvent_def markWebhookProcessed_def
  by (cases dec) (auto simp: tx_inv we_save_def Let_def settled_event_def split: if_splits dest!: insert_attempt_success)

lemma fail_success:
  assumes "failWebhookEvent w jobId startedAt reason e s = (Inr res, s')"
  shows "res = PR_failed reason \<and> ext s' = ext s \<and>
    tables s' = (tables s)\<lparr>
      webhook_events := row_update we_id (we_id w)
        (\<lambda>_. settled_event (clock e (ticks s)) (pg_now e) (Reject reason) w) (webhook_events (tables s)),
      webhook_processing_attempts := webhook_processing_attempts (tables s) @
        [attempt_row (new_uuid e (fresh s)) (we_id w) jobId WA_Failed (Some (reason_text reason))
           startedAt (clock e (Suc (ticks s))) (pg_now e)]\<rparr>"
  using finish_success [where dec = "Reject reason"] assms by simp

lemma mark_success:
  assumes "markWebhookProcessed w jobId startedAt e s = (Inr res, s')"
  shows "res = PR_processed \<and> ext s' = ext s \<and>
    tables s' = (tables s)\<lparr>
      webhook_events := row_update we_id (we_id w)
        (\<lambda>_. settled_event (clock e (ticks s)) (pg_now e) Acknowledge w) (webhook_events (tables s)),
      webhook_processing_attempts := webhook_processing_attempts (tables s) @
        [attempt_row (new_uuid e (fresh s)) (we_id w) jobId WA_Succeeded None
           startedAt (clock e (Suc (ticks s))) (pg_now e)]\<rparr>"
  using finish_success [where dec = Acknowledge] assms by simp

definition rules_db :: "jsstr option \<Rightarrow> time \<Rightarrow> env \<Rightarrow> 'x session \<Rightarrow> WebhookEventEntity \<Rightarrow> decision \<Rightarrow> db" where
  "rules_db jobId startedAt e s w dec =
     (tables s)\<lparr>payment_intents := decision_intents (pg_now e) dec (payment_intents (tables s)),
       webhook_events := row_update we_id (we_id w)
         (\<lambda>_. settled_event (clock e (ticks s)) (pg_now e) dec w) (webhook_events (tables s)),
       webhook_processing_attempts := webhook_processing_attempts (tables s) @
         [attempt_row (new_uuid e (fresh s)) (we_id w) jobId (decision_attempt dec) (decision_reason dec)
            startedAt (clock e (Suc (ticks s))) (pg_now e)]\<rparr>"

lemma fail_rules:
  "failWebhookEvent w jobId startedAt reason e s = (Inr res, s') \<Longrightarrow>
   res = decision_result (Reject reason) \<and> tables s' = rules_db jobId startedAt e s w (Reject reason) \<and> ext s' = ext s"
  by (drule fail_success) (simp add: rules_db_def)

lemma mark_rules:
  "markWebhookProcessed w jobId startedAt e s = (Inr res, s') \<Longrightarrow>
   res = decision_result Acknowledge \<and> tables s' = rules_db jobId startedAt e s w Acknowledge \<and> ext s' = ext s"
  by (drule mark_success) (simp add: rules_db_def)

lemma find_other_iff:
  assumes "payment_rows.unique_rows rows"
  shows "(case find (\<lambda>r. pi_confirmedTxHash r = Some h) rows of None \<Rightarrow> False | Some q \<Rightarrow> pi_id q \<noteq> i) \<longleftrightarrow>
    (\<exists>q\<in>set rows. pi_confirmedTxHash q = Some h \<and> pi_id q \<noteq> i)"
proof (cases "find (\<lambda>r. pi_confirmedTxHash r = Some h) rows")
  case None
  then have "\<forall>q\<in>set rows. pi_confirmedTxHash q \<noteq> Some h" by (auto simp: find_None_iff)
  with None show ?thesis by simp
next
  case (Some q)
  then have q: "q \<in> set rows" "pi_confirmedTxHash q = Some h" by (auto simp: find_Some_iff)
  have "r = q" if "r \<in> set rows" "pi_confirmedTxHash r = Some h" for r
    using payment_rows.conflict_unique [OF assms that(1) q(1)] that q by (simp add: pi_conflicts_def)
  then have "(\<exists>r\<in>set rows. pi_confirmedTxHash r = Some h \<and> pi_id r \<noteq> i) \<longleftrightarrow> pi_id q \<noteq> i" using q by blast
  with Some show ?thesis by simp
qed

lemma confirm_rules:
  assumes "confirm_payment_intent w jobId startedAt p h e s = (Inr res, s')"
    and "payment_rows.unique_rows (payment_intents (tables s))"
  defines "dec \<equiv> (if \<exists>q\<in>set (payment_intents (tables s)). pi_confirmedTxHash q = Some h \<and> pi_id q \<noteq> pi_id p
      then Reject CONFIRMED_TX_HASH_CONFLICT else Confirm p h)"
  shows "res = decision_result dec \<and> tables s' = rules_db jobId startedAt e s w dec \<and> ext s' = ext s"
proof (cases "\<exists>q\<in>set (payment_intents (tables s)). pi_confirmedTxHash q = Some h \<and> pi_id q \<noteq> pi_id p")
  case True
  with assms(1) have "failWebhookEvent w jobId startedAt CONFIRMED_TX_HASH_CONFLICT e (s\<lparr>stmts := Suc (stmts s)\<rparr>) = (Inr res, s')"
    unfolding confirm_payment_intent_def tx_inv find_other_iff [OF assms(2), symmetric]
    by (auto split: if_splits)
  from fail_rules [OF this] True show ?thesis by (simp add: dec_def rules_db_def)
next
  case False
  with assms(1) have "\<exists>s1. markWebhookProcessed w jobId startedAt e s1 = (Inr res, s') \<and> ticks s1 = ticks s \<and>
      fresh s1 = fresh s \<and> ext s1 = ext s \<and>
      tables s1 = (tables s)\<lparr>payment_intents := row_update pi_id (pi_id p) (\<lambda>_. confirmed_intent (pg_now e) p h) (payment_intents (tables s))\<rparr>"
    unfolding confirm_payment_intent_def tx_inv find_other_iff [OF assms(2), symmetric]
    by (auto simp: tx_inv pi_save_def Let_def confirmed_intent_def split: if_splits)
  then obtain s1 where s1: "markWebhookProcessed w jobId startedAt e s1 = (Inr res, s')" "ticks s1 = ticks s"
    "fresh s1 = fresh s" "ext s1 = ext s"
    "tables s1 = (tables s)\<lparr>payment_intents := row_update pi_id (pi_id p) (\<lambda>_. confirmed_intent (pg_now e) p h) (payment_intents (tables s))\<rparr>"
    by blast
  from mark_success [OF s1(1)] False s1 show ?thesis by (simp add: dec_def rules_db_def settled_event_def)
qed

lemma lock_success:
  assumes "lockPaymentIntent w e s = (Inr r, s1)"
  shows "r = Option.bind (we_paymentIntentId w) (\<lambda>i. row_find pi_id i (payment_intents (tables s))) \<and>
    tables s1 = tables s \<and> ticks s1 = ticks s \<and> fresh s1 = fresh s \<and> ext s1 = ext s"
  using assms unfolding lockPaymentIntent_def by (auto simp: tx_inv split: option.splits)

lemma rules_db_cong:
  "tables s1 = tables s \<Longrightarrow> ticks s1 = ticks s \<Longrightarrow> fresh s1 = fresh s \<Longrightarrow>
   rules_db jobId startedAt e s1 w dec = rules_db jobId startedAt e s w dec"
  by (simp add: rules_db_def)

lemma intent_rules_success:
  assumes "apply_intent_rules w jobId startedAt txHash p e s = (Inr res, s')"
    and "payment_rows.unique_rows (payment_intents (tables s))"
  shows "\<exists>dec. decide_intent w (payment_intents (tables s)) txHash p = Inr dec \<and> res = decision_result dec \<and>
    tables s' = rules_db jobId startedAt e s w dec \<and> ext s' = ext s"
proof (cases "validatePayloadMatchesPaymentIntent (we_payload w) p")
  case (Inl err)
  with assms(1) show ?thesis by (simp add: apply_intent_rules_def tx_inv)
next
  case (Inr r)
  note v = this
  show ?thesis
  proof (cases r)
    case (Some reason)
    with assms(1) v fail_rules [of w jobId startedAt reason e s res s'] show ?thesis
      by (simp add: apply_intent_rules_def decide_intent_def)
  next
    case None
    consider "pi_status p = PI_Confirmed" | "pi_status p \<in> {PI_Failed, PI_Expired}"
      | "pi_status p \<noteq> PI_Confirmed" "pi_status p \<notin> {PI_Failed, PI_Expired}" by blast
    then show ?thesis
    proof cases
      case 1
      with assms(1) v None fail_rules [of w jobId startedAt PAYMENT_INTENT_TERMINAL e s res s']
        mark_rules [of w jobId startedAt e s res s'] show ?thesis
        by (auto simp: apply_intent_rules_def decide_intent_def split: option.splits if_splits)
    next
      case 2
      with assms(1) v None fail_rules [of w jobId startedAt PAYMENT_INTENT_TERMINAL e s res s'] show ?thesis
        by (auto simp: apply_intent_rules_def decide_intent_def)
    next
      case 3
      with assms(1) v None have "confirm_payment_intent w jobId startedAt p txHash e s = (Inr res, s')"
        by (simp add: apply_intent_rules_def)
      from confirm_rules [OF this assms(2)] 3 v None show ?thesis
        by (simp add: decide_intent_def)
    qed
  qed
qed

lemma rules_success:
  assumes "applyProcessingRules w jobId startedAt e s = (Inr res, s')"
    and "payment_rows.unique_rows (payment_intents (tables s))"
  shows "\<exists>dec. decide w (payment_intents (tables s)) = Inr dec \<and> res = decision_result dec \<and>
    tables s' = rules_db jobId startedAt e s w dec \<and> ext s' = ext s"
proof -
  consider (type) "json_get (js ''type'') (we_payload w) \<noteq> Some (JStr (js ''transaction.confirmed''))"
    | (hash) "json_get (js ''type'') (we_payload w) = Some (JStr (js ''transaction.confirmed''))"
        "\<nexists>raw. json_get (js ''txHash'') (we_payload w) = Some (JStr raw) \<and> trim raw \<noteq> []"
    | (ok) raw where "json_get (js ''type'') (we_payload w) = Some (JStr (js ''transaction.confirmed''))"
        "json_get (js ''txHash'') (we_payload w) = Some (JStr raw)" "trim raw \<noteq> []" by blast
  then show ?thesis
  proof cases
    case type
    then have "failWebhookEvent w jobId startedAt UNSUPPORTED_EVENT_TYPE e s = (Inr res, s')"
      and "decide w (payment_intents (tables s)) = Inr (Reject UNSUPPORTED_EVENT_TYPE)"
      using assms(1) by (simp_all add: applyProcessingRules_def decide_def)
    from fail_rules [OF this(1)] this(2) show ?thesis by simp
  next
    case hash
    then have "applyProcessingRules w jobId startedAt e s = failWebhookEvent w jobId startedAt MISSING_TX_HASH e s"
      and "decide w (payment_intents (tables s)) = Inr (Reject MISSING_TX_HASH)"
      by (auto simp: applyProcessingRules_def decide_def Let_def split: option.split json.split)
    with assms(1) fail_rules [of w jobId startedAt MISSING_TX_HASH e s res s'] show ?thesis by simp
  next
    case ok
    with assms(1) obtain found s1 where f: "lockPaymentIntent w e s = (Inr found, s1)"
      and rest: "(case found of None \<Rightarrow> failWebhookEvent w jobId startedAt UNKNOWN_PAYMENT_INTENT
        | Some p \<Rightarrow> apply_intent_rules w jobId startedAt (normalizeTxHash raw) p) e s1 = (Inr res, s')"
      by (auto simp: applyProcessingRules_def Let_def tx_bind_Inr)
    note lock = lock_success [OF f]
    have same: "rules_db jobId startedAt e s1 w dec = rules_db jobId startedAt e s w dec" for dec
      using lock by (intro rules_db_cong) simp_all
    have decide: "decide w (payment_intents (tables s)) =
        (case found of None \<Rightarrow> Inr (Reject UNKNOWN_PAYMENT_INTENT)
         | Some p \<Rightarrow> decide_intent w (payment_intents (tables s)) (normalizeTxHash raw) p)"
      using ok lock by (simp add: decide_def)
    show ?thesis
    proof (cases found)
      case None
      with rest fail_rules [of w jobId startedAt UNKNOWN_PAYMENT_INTENT e s1 res s'] lock decide show ?thesis
        by (simp add: same)
    next
      case (Some p)
      from rest Some have run: "apply_intent_rules w jobId startedAt (normalizeTxHash raw) p e s1 = (Inr res, s')" by simp
      from decide Some have dec: "decide w (payment_intents (tables s)) =
          decide_intent w (payment_intents (tables s)) (normalizeTxHash raw) p" by simp
      have tab: "tables s1 = tables s" "ext s1 = ext s" using lock by simp_all
      show ?thesis using intent_rules_success [OF run] assms(2) unfolding tab dec same by simp
    qed
  qed
qed

lemma decide_cong:
  assumes "we_payload w' = we_payload w" and "we_paymentIntentId w' = we_paymentIntentId w"
  shows "decide w' intents = decide w intents"
  unfolding decide_def decide_intent_def assms by (rule refl)

text \<open>What happens after the event row was read.\<close>

definition process_found :: "jsstr option \<Rightarrow> time \<Rightarrow> WebhookEventEntity \<Rightarrow> ('x, ProcessingResult) tx" where
  "process_found jobId startedAt w =
     (if we_status w = WE_Processed then
       tx_bind (insertAttempt (we_id w) jobId WA_Succeeded None startedAt) (\<lambda>_. tx_return PR_already_processed)
     else if we_status w = WE_Failed then
       tx_bind (insertAttempt (we_id w) jobId WA_Failed (we_failureReason w) startedAt) (\<lambda>_.
       tx_return (PR_already_failed (we_failureReason w)))
     else tx_bind (tx_ask pg_now) (\<lambda>now.
       tx_bind (sql (we_save now (w\<lparr>we_status := WE_Processing, we_failureReason := None, we_processedAt := None\<rparr>))) (\<lambda>saved.
       applyProcessingRules saved jobId startedAt)))"

lemma process_start:
  assumes "process_webhook_event_body i jobId e (new_session d x) = (Inr res, s')"
  obtains u w s1 where "pg_uuid e i = Some u" "row_find we_id u (webhook_events d) = Some w"
    "tables s1 = d" "ticks s1 = 1" "fresh s1 = 0" "ext s1 = x"
    "process_found jobId (clock e 0) w e s1 = (Inr res, s')"
proof -
  from assms obtain w s1 where lock: "lockWebhookEvent i e ((new_session d x)\<lparr>ticks := Suc 0\<rparr>) = (Inr w, s1)"
    and rest: "process_found jobId (clock e 0) w e s1 = (Inr res, s')"
    unfolding process_webhook_event_body_def process_found_def by (auto simp: tx_bind_Inr tx_basic_Inr)
  from lock obtain u where "pg_uuid e i = Some u" "row_find we_id u (webhook_events d) = Some w"
    "tables s1 = d" "ticks s1 = 1" "fresh s1 = 0" "ext s1 = x"
    unfolding lockWebhookEvent_def by (auto simp: tx_inv split: option.splits)
  with rest that show thesis by blast
qed

lemma process_success:
  assumes run: "process_webhook_event_body i jobId e (new_session d x) = (Inr res, s')"
    and unique: "payment_rows.unique_rows (payment_intents d)"
  shows "\<exists>u w. pg_uuid e i = Some u \<and> row_find we_id u (webhook_events d) = Some w \<and> ext s' = x \<and>
    (we_status w = WE_Processed \<and> res = PR_already_processed \<and> tables s' = attempted_db jobId e w d \<or>
     we_status w = WE_Failed \<and> res = PR_already_failed (we_failureReason w) \<and> tables s' = attempted_db jobId e w d \<or>
     we_status w \<notin> {WE_Processed, WE_Failed} \<and>
       (\<exists>dec. decide w (payment_intents d) = Inr dec \<and> res = decision_result dec \<and> tables s' = decided_db jobId e w dec d))"
proof -
  from run obtain u w s1 where u: "pg_uuid e i = Some u" and w: "row_find we_id u (webhook_events d) = Some w"
    and s1: "tables s1 = d" "ticks s1 = 1" "fresh s1 = 0" "ext s1 = x"
    and rest: "process_found jobId (clock e 0) w e s1 = (Inr res, s')"
    by (rule process_start)
  show ?thesis
  proof (cases "we_status w \<in> {WE_Processed, WE_Failed}")
    case True
    with rest u w s1 show ?thesis
      by (auto simp: process_found_def tx_inv attempted_db_def dest!: insert_attempt_success)
  next
    case False
    let ?w = "w\<lparr>we_status := WE_Processing, we_failureReason := None, we_processedAt := None, we_updatedAt := pg_now e\<rparr>"
    let ?s2 = "s1\<lparr>stmts := Suc (stmts s1),
        tables := d\<lparr>webhook_events := row_update we_id (we_id w) (\<lambda>_. ?w) (webhook_events d)\<rparr>\<rparr>"
    have keep: "we_id ?w = we_id w" by simp
    from False rest s1 have rules: "applyProcessingRules ?w jobId (clock e 0) e ?s2 = (Inr res, s')"
      by (auto simp: process_found_def tx_inv we_save_def Let_def split: if_splits)
    have "decide ?w (payment_intents d) = decide w (payment_intents d)" by (rule decide_cong) simp_all
    with rules_success [OF rules] s1 unique obtain dec where dec: "decide w (payment_intents d) = Inr dec"
      "res = decision_result dec" "tables s' = rules_db jobId (clock e 0) e ?s2 ?w dec" "ext s' = x" by auto
    have "rules_db jobId (clock e 0) e ?s2 ?w dec = decided_db jobId e w dec d"
      by (simp add: rules_db_def decided_db_def s1 row_update_twice settled_event_def numeral_2_eq_2)
    with dec u w False show ?thesis by auto
  qed
qed

lemma process_fault_safe: "fault_safe (process_webhook_event_body i jobId)"
  unfolding process_webhook_event_body_def lockWebhookEvent_def applyProcessingRules_def apply_intent_rules_def Let_def
    confirm_payment_intent_def lockPaymentIntent_def failWebhookEvent_def markWebhookProcessed_def insertAttempt_def
  by (auto intro!: fault_safe_intros split: option.splits json.splits sum.splits)

interpretation process: atomic_db_operation "process_webhook_event_body i jobId" for i jobId
  by unfold_locales (rule process_fault_safe)

lemma process_transaction_success:
  assumes "processWebhookEvent i jobId (calm e) d = (Inr res, d')"
    and "payment_rows.unique_rows (payment_intents d)"
  shows "\<exists>u w. pg_uuid e i = Some u \<and> row_find we_id u (webhook_events d) = Some w \<and>
    (we_status w = WE_Processed \<and> res = PR_already_processed \<and> d' = attempted_db jobId e w d \<or>
     we_status w = WE_Failed \<and> res = PR_already_failed (we_failureReason w) \<and> d' = attempted_db jobId e w d \<or>
     we_status w \<notin> {WE_Processed, WE_Failed} \<and>
       (\<exists>dec. decide w (payment_intents d) = Inr dec \<and> res = decision_result dec \<and> d' = decided_db jobId e w dec d))"
proof -
  from assms(1) obtain s where run: "process_webhook_event_body i jobId (calm e) (new_session d ()) = (Inr res, s)"
    and "d' = tables s"
    unfolding processWebhookEvent_def process.db_calm by (auto split: prod.splits sum.splits)
  moreover have "attempted_db jobId (calm e) w d = attempted_db jobId e w d"
    and "decided_db jobId (calm e) w dec d = decided_db jobId e w dec d" for w dec
    by (simp_all add: attempted_db_def decided_db_def)
  ultimately show ?thesis using process_success [OF run assms(2)] by simp
qed

text \<open>The possible effects of a run, whatever fails in it.\<close>

lemma process_effect:
  assumes "payment_rows.unique_rows (payment_intents d)"
  obtains (same) "snd (processWebhookEvent i jobId e d) = d"
  | (attempted) u w where "pg_uuid e i = Some u" "row_find we_id u (webhook_events d) = Some w" "we_status w \<in> {WE_Processed, WE_Failed}"
      "snd (processWebhookEvent i jobId e d) = attempted_db jobId e w d"
  | (decided) u w dec where "pg_uuid e i = Some u" "row_find we_id u (webhook_events d) = Some w" "we_status w \<notin> {WE_Processed, WE_Failed}"
      "decide w (payment_intents d) = Inr dec" "snd (processWebhookEvent i jobId e d) = decided_db jobId e w dec d"
proof (rule process.effect_cases [of i jobId e d])
  fix r
  assume "db_transaction (process_webhook_event_body i jobId) (calm e) d =
      (Inr r, snd (db_transaction (process_webhook_event_body i jobId) e d))"
  from process_transaction_success [unfolded processWebhookEvent_def, OF this assms] that
  show thesis unfolding processWebhookEvent_def by auto
qed (use that(1) in \<open>simp add: processWebhookEvent_def\<close>)

section \<open>Runs without failures\<close>

lemma insert_attempt_returns:
  assumes "\<not> aborted s" and "wid \<in> we_id ` set (webhook_events (tables s))"
    and "new_uuid e (fresh s) \<notin> wa_id ` set (webhook_processing_attempts (tables s))"
    and "startedAt \<le> clock e (ticks s)" and "varchar_null 255 jobId"
  shows "\<exists>s'. insertAttempt wid jobId status err startedAt (calm e) s = (Inr (), s')"
proof -
  have "list_ex (\<lambda>w. we_id w = wid) (webhook_events (tables s))"
    and "\<not> list_ex (\<lambda>r. wa_id r = new_uuid e (fresh s)) (webhook_processing_attempts (tables s))"
    using assms(2,3) by (auto simp: list_ex_iff image_iff)
  with assms show ?thesis by (simp add: insertAttempt_def tx_eval wa_insert_def Let_def)
qed

definition ready :: "jsstr option \<Rightarrow> time \<Rightarrow> env \<Rightarrow> 'x session \<Rightarrow> WebhookEventEntity \<Rightarrow> bool" where
  "ready jobId startedAt e s w \<longleftrightarrow>
     \<not> aborted s \<and> we_fits w \<and> we_id w \<in> we_id ` set (webhook_events (tables s)) \<and>
     new_uuid e (fresh s) \<notin> wa_id ` set (webhook_processing_attempts (tables s)) \<and>
     startedAt \<le> clock e (Suc (ticks s)) \<and> varchar_null 255 jobId"

lemma row_update_key_image:
  "(\<And>r. key r = k \<Longrightarrow> key (f r) = k) \<Longrightarrow> key ` set (row_update key k f rows) = key ` set rows"
  by (metis (full_types) list.set_map row_update_keys)

lemma finish_returns:
  assumes "ready jobId startedAt e s w"
  shows "\<exists>res s'. failWebhookEvent w jobId startedAt reason (calm e) s = (Inr res, s')"
    and "\<exists>res s'. markWebhookProcessed w jobId startedAt (calm e) s = (Inr res, s')"
proof -
  let ?s = "\<lambda>w'. s\<lparr>ticks := Suc (ticks s), stmts := Suc (stmts s),
    tables := (tables s)\<lparr>webhook_events := row_update we_id (we_id w) (\<lambda>_. w') (webhook_events (tables s))\<rparr>\<rparr>"
  have ret: "\<exists>s'. insertAttempt (we_id w) jobId status err startedAt (calm e) (?s w') = (Inr (), s')"
    if "we_id w' = we_id w" for status err w'
    using assms that by (intro insert_attempt_returns) (simp_all add: ready_def row_update_key_image)
  have fits: "we_fits (w\<lparr>we_status := st, we_failureReason := fr, we_processedAt := pa\<rparr>)" for st fr pa
    using assms by (simp add: ready_def we_fits_def)
  have "\<not> aborted s" using assms by (simp add: ready_def)
  then show "\<exists>res s'. failWebhookEvent w jobId startedAt reason (calm e) s = (Inr res, s')"
    using ret [of "w\<lparr>we_status := WE_Failed, we_failureReason := Some (reason_text reason),
        we_processedAt := Some (clock e (ticks s)), we_updatedAt := pg_now e\<rparr>" WA_Failed "Some (reason_text reason)"]
    by (auto simp: failWebhookEvent_def tx_eval we_save_def fits Let_def)
  show "\<exists>res s'. markWebhookProcessed w jobId startedAt (calm e) s = (Inr res, s')"
    using \<open>\<not> aborted s\<close> ret [of "w\<lparr>we_status := WE_Processed, we_failureReason := None,
        we_processedAt := Some (clock e (ticks s)), we_updatedAt := pg_now e\<rparr>" WA_Succeeded None]
    by (auto simp: markWebhookProcessed_def tx_eval we_save_def fits Let_def)
qed

lemma ready_stmts: "ready jobId startedAt e s w \<Longrightarrow> ready jobId startedAt e (s\<lparr>stmts := n\<rparr>) w"
  by (simp add: ready_def)

lemma confirm_returns:
  assumes "ready jobId startedAt e s w" and "payment_rows.unique_rows (payment_intents (tables s))"
    and "pi_fits p" and "varchar 255 h"
  shows "\<exists>res s'. confirm_payment_intent w jobId startedAt p h (calm e) s = (Inr res, s')"
proof (cases "\<exists>q\<in>set (payment_intents (tables s)). pi_confirmedTxHash q = Some h \<and> pi_id q \<noteq> pi_id p")
  case True
  then have "case find (\<lambda>r. pi_confirmedTxHash r = Some h) (payment_intents (tables s)) of
      None \<Rightarrow> False | Some q \<Rightarrow> pi_id q \<noteq> pi_id p"
    unfolding find_other_iff [OF assms(2)] .
  moreover have "\<not> aborted s" using assms(1) by (simp add: ready_def)
  ultimately show ?thesis
    using finish_returns(1) [OF ready_stmts [OF assms(1), of "Suc (stmts s)"], of CONFIRMED_TX_HASH_CONFLICT]
    by (simp add: confirm_payment_intent_def query_def tx_eval)
next
  case False
  then have f: "\<not> (case find (\<lambda>r. pi_confirmedTxHash r = Some h) (payment_intents (tables s)) of
      None \<Rightarrow> False | Some q \<Rightarrow> pi_id q \<noteq> pi_id p)"
    unfolding find_other_iff [OF assms(2)] .
  let ?p = "p\<lparr>pi_status := PI_Confirmed, pi_confirmedTxHash := Some h, pi_failureReason := None\<rparr>"
  have fits: "pi_fits ?p" using assms(3,4) by (simp add: pi_fits_def)
  have free: "\<not> list_ex (\<lambda>r. pi_id r \<noteq> pi_id ?p \<and> pi_conflicts ?p r) (payment_intents (tables s))"
    using False by (auto simp: list_ex_iff pi_conflicts_def)
  let ?s = "s\<lparr>stmts := Suc (Suc (stmts s)), tables := (tables s)\<lparr>payment_intents :=
      row_update pi_id (pi_id p) (\<lambda>_. ?p\<lparr>pi_updatedAt := pg_now e\<rparr>) (payment_intents (tables s))\<rparr>\<rparr>"
  have "ready jobId startedAt e ?s w" using assms(1) by (simp add: ready_def)
  from finish_returns(2) [OF this] f fits free assms(1) show ?thesis
    by (simp add: confirm_payment_intent_def query_def tx_eval pi_save_def ready_def Let_def)
qed

lemma intent_rules_returns:
  assumes "ready jobId startedAt e s w" and "payment_rows.unique_rows (payment_intents (tables s))"
    and "pi_fits p" and "varchar 255 h" and "validatePayloadMatchesPaymentIntent (we_payload w) p = Inr r"
  shows "\<exists>res s'. apply_intent_rules w jobId startedAt h p (calm e) s = (Inr res, s')"
proof (cases r)
  case (Some reason)
  then show ?thesis using finish_returns(1) [OF assms(1)] assms(5) by (simp add: apply_intent_rules_def)
next
  case None
  then show ?thesis
    using finish_returns [OF assms(1)] confirm_returns [OF assms(1-4)] assms(5)
    by (auto simp: apply_intent_rules_def split: if_split option.split)
qed

lemma rules_returns:
  assumes ready: "ready jobId startedAt e s w" and unique: "payment_rows.unique_rows (payment_intents (tables s))"
    and dec: "decide w (payment_intents (tables s)) = Inr dec"
    and fits: "\<And>p. p \<in> set (payment_intents (tables s)) \<Longrightarrow> pi_fits p"
    and hash: "\<And>raw. json_get (js ''txHash'') (we_payload w) = Some (JStr raw) \<Longrightarrow> varchar 255 (normalizeTxHash raw)"
  shows "\<exists>res s'. applyProcessingRules w jobId startedAt (calm e) s = (Inr res, s')"
proof (cases "json_get (js ''type'') (we_payload w) = Some (JStr (js ''transaction.confirmed'')) \<and>
    (\<exists>raw. json_get (js ''txHash'') (we_payload w) = Some (JStr raw) \<and> trim raw \<noteq> [])")
  case False
  then have "\<exists>reason. applyProcessingRules w jobId startedAt (calm e) s = failWebhookEvent w jobId startedAt reason (calm e) s"
    by (auto simp: applyProcessingRules_def Let_def split: option.split json.split)
  then show ?thesis using finish_returns(1) [OF ready] by metis
next
  case True
  then obtain raw where raw: "json_get (js ''type'') (we_payload w) = Some (JStr (js ''transaction.confirmed''))"
    "json_get (js ''txHash'') (we_payload w) = Some (JStr raw)" "trim raw \<noteq> []" by blast
  let ?found = "Option.bind (we_paymentIntentId w) (\<lambda>i. row_find pi_id i (payment_intents (tables s)))"
  have "\<not> aborted s" using ready by (simp add: ready_def)
  then have "\<exists>n. lockPaymentIntent w (calm e) s = (Inr ?found, s\<lparr>stmts := n\<rparr>)"
  proof (cases "we_paymentIntentId w")
    case None
    then show ?thesis by (auto simp: lockPaymentIntent_def tx_run intro!: exI [of _ "stmts s"])
  next
    case (Some i)
    then show ?thesis using \<open>\<not> aborted s\<close>
      by (auto simp: lockPaymentIntent_def query_def tx_eval Let_def intro!: exI [of _ "Suc (stmts s)"])
  qed
  then obtain n where lock: "lockPaymentIntent w (calm e) s = (Inr ?found, s\<lparr>stmts := n\<rparr>)" by blast
  have run: "applyProcessingRules w jobId startedAt (calm e) s =
      (case ?found of None \<Rightarrow> failWebhookEvent w jobId startedAt UNKNOWN_PAYMENT_INTENT
       | Some p \<Rightarrow> apply_intent_rules w jobId startedAt (normalizeTxHash raw) p) (calm e) (s\<lparr>stmts := n\<rparr>)"
    using raw lock by (simp add: applyProcessingRules_def Let_def tx_bind_run)
  note ready' = ready_stmts [OF ready, of n]
  show ?thesis
  proof (cases ?found)
    case None
    then show ?thesis using finish_returns(1) [OF ready'] unfolding run by simp
  next
    case (Some p)
    then have p: "p \<in> set (payment_intents (tables s))"
      by (cases "we_paymentIntentId w") (auto dest: row_find_SomeD)
    from dec raw Some obtain r where "validatePayloadMatchesPaymentIntent (we_payload w) p = Inr r"
      by (cases "validatePayloadMatchesPaymentIntent (we_payload w) p") (simp_all add: decide_def decide_intent_def)
    from intent_rules_returns [OF ready' _ fits [OF p] hash [OF raw(2)] this] unique show ?thesis
      unfolding run Some by simp
  qed
qed

lemma process_returns:
  assumes "pg_uuid e i = Some u" and w: "row_find we_id u (webhook_events d) = Some w"
    and "we_fits w" and "varchar_null 255 jobId" and "clock e 0 \<le> clock e 1" and "clock e 0 \<le> clock e 2"
    and "new_uuid e 0 \<notin> wa_id ` set (webhook_processing_attempts d)"
    and unique: "payment_rows.unique_rows (payment_intents d)" and dec: "decide w (payment_intents d) = Inr dec"
    and fits: "\<And>p. p \<in> set (payment_intents d) \<Longrightarrow> pi_fits p"
    and hash: "\<And>raw. json_get (js ''txHash'') (we_payload w) = Some (JStr raw) \<Longrightarrow> varchar 255 (normalizeTxHash raw)"
  shows "\<exists>res. fst (processWebhookEvent i jobId (calm e) d) = Inr res"
proof -
  let ?s = "(new_session d ())\<lparr>ticks := Suc 0, stmts := Suc 0, tables := d\<rparr>"
  have id: "we_id w \<in> we_id ` set (webhook_events d)" using row_find_SomeD [OF w] by blast
  have start: "process_webhook_event_body i jobId (calm e) (new_session d ()) = process_found jobId (clock e 0) w (calm e) ?s"
    using assms(1) w by (simp add: process_webhook_event_body_def process_found_def lockWebhookEvent_def tx_eval)
  have "\<exists>res s'. process_found jobId (clock e 0) w (calm e) ?s = (Inr res, s')"
  proof (cases "we_status w \<in> {WE_Processed, WE_Failed}")
    case True
    have "\<exists>s'. insertAttempt (we_id w) jobId status err (clock e 0) (calm e) ?s = (Inr (), s')" for status err
      using assms id by (intro insert_attempt_returns) simp_all
    from this [of WA_Succeeded None] this [of WA_Failed "we_failureReason w"] obtain s1 s2
      where "insertAttempt (we_id w) jobId WA_Succeeded None (clock e 0) (calm e) ?s = (Inr (), s1)"
        and "insertAttempt (we_id w) jobId WA_Failed (we_failureReason w) (clock e 0) (calm e) ?s = (Inr (), s2)"
      by blast
    with True show ?thesis by (auto simp: process_found_def tx_bind_def tx_run)
  next
    case False
    let ?w = "w\<lparr>we_status := WE_Processing, we_failureReason := None, we_processedAt := None, we_updatedAt := pg_now e\<rparr>"
    let ?s2 = "?s\<lparr>stmts := Suc (Suc 0),
        tables := d\<lparr>webhook_events := row_update we_id (we_id w) (\<lambda>_. ?w) (webhook_events d)\<rparr>\<rparr>"
    have w_fits: "we_fits (w\<lparr>we_status := WE_Processing, we_failureReason := None, we_processedAt := None\<rparr>)"
      "we_fits ?w" using assms(3) by (simp_all add: we_fits_def)
    have "ready jobId (clock e 0) e ?s2 ?w"
      using assms id w_fits(2) by (simp add: ready_def row_update_key_image numeral_2_eq_2)
    moreover have "decide ?w (payment_intents d) = Inr dec" using dec decide_cong [of ?w w] by simp
    ultimately have "\<exists>res s'. applyProcessingRules ?w jobId (clock e 0) (calm e) ?s2 = (Inr res, s')"
      using unique fits hash by (intro rules_returns) simp_all
    with False w_fits(1) show ?thesis
      by (simp add: process_found_def tx_eval we_save_def Let_def)
  qed
  with start show ?thesis unfolding processWebhookEvent_def process.db_calm by auto
qed

section \<open>The contract\<close>

text \<open>
  The abstract description of a run on the stored event \<open>w\<close>: the answer and the tables
  afterwards, or the exception that leaves the tables as they are.
\<close>

definition process_spec :: "jsstr option \<Rightarrow> env \<Rightarrow> WebhookEventEntity \<Rightarrow> db \<Rightarrow> uval + (ProcessingResult \<times> db)" where
  "process_spec jobId e w d =
     (if we_status w = WE_Processed then Inr (PR_already_processed, attempted_db jobId e w d)
      else if we_status w = WE_Failed then Inr (PR_already_failed (we_failureReason w), attempted_db jobId e w d)
      else (case decide w (payment_intents d) of
              Inl err \<Rightarrow> Inl err
            | Inr dec \<Rightarrow> Inr (decision_result dec, decided_db jobId e w dec d)))"

lemma process_spec_calm:
  assumes "processWebhookEvent i jobId (calm e) d = (Inr res, d')" and "payment_rows.unique_rows (payment_intents d)"
  shows "\<exists>u w. pg_uuid e i = Some u \<and> row_find we_id u (webhook_events d) = Some w \<and>
    process_spec jobId e w d = Inr (res, d')"
proof -
  from process_transaction_success [OF assms] obtain u w where
    "pg_uuid e i = Some u" "row_find we_id u (webhook_events d) = Some w" "process_spec jobId e w d = Inr (res, d')"
    by (auto simp: process_spec_def)
  then show ?thesis by blast
qed

text \<open>
  C15: A processing run refines the rules: it answers what the abstract rules say about the stored event, and the
  tables afterwards are exactly those of the decision; when it fails, the tables are unchanged,
  or (COMMIT taking effect without being acknowledged) they are those of the decision.  This
  holds for every pattern of failing statements.
\<close>

theorem processing_follows_rules:
  assumes "payment_rows.unique_rows (payment_intents d)"
  shows "case processWebhookEvent i jobId e d of
      (Inr res, d') \<Rightarrow> \<exists>u w. pg_uuid e i = Some u \<and> row_find we_id u (webhook_events d) = Some w \<and>
        process_spec jobId e w d = Inr (res, d')
    | (Inl err, d') \<Rightarrow> d' = d \<or> (\<exists>u w res. pg_uuid e i = Some u \<and> row_find we_id u (webhook_events d) = Some w \<and>
        process_spec jobId e w d = Inr (res, d'))"
proof (cases "processWebhookEvent i jobId e d")
  case (Pair r d')
  show ?thesis
  proof (cases r)
    case (Inl err)
    from process.db_outcome [of i jobId e d] process.effect_cases [of i jobId e d] Pair Inl
    have "d' = d \<or> (\<exists>res. processWebhookEvent i jobId (calm e) d = (Inr res, d'))"
      unfolding processWebhookEvent_def by (metis snd_conv)
    then show ?thesis using process_spec_calm [OF _ assms] Pair Inl by auto blast
  next
    case (Inr res)
    with Pair have "processWebhookEvent i jobId (calm e) d = (Inr res, d')"
      unfolding processWebhookEvent_def by (simp add: process.returns_calm)
    with process_spec_calm [OF this assms] Pair Inr show ?thesis by simp
  qed
qed

section \<open>What a run may change\<close>

lemma row_update_other: "r \<in> set rows \<Longrightarrow> key r \<noteq> k \<Longrightarrow> r \<in> set (row_update key k f rows)"
  by (auto simp: in_row_update intro!: bexI [of _ r])

lemma decide_confirm:
  assumes "decide w intents = Inr (Confirm p h)"
  obtains i raw amount where "we_paymentIntentId w = Some i" "row_find pi_id i intents = Some p"
    "json_get (js ''type'') (we_payload w) = Some (JStr (js ''transaction.confirmed''))"
    "json_get (js ''txHash'') (we_payload w) = Some (JStr raw)" "trim raw \<noteq> []" "h = normalizeTxHash raw"
    "json_get (js ''amount'') (we_payload w) = Some (JStr amount)"
    "normalizeAmount amount \<noteq> None" "normalizeAmount amount = normalizeAmount (pi_amount p)"
    "json_get (js ''asset'') (we_payload w) = Some (JStr (pi_asset p))"
    "pi_status p \<in> {PI_Created, PI_Processing}"
    "\<forall>q\<in>set intents. pi_confirmedTxHash q = Some h \<longrightarrow> pi_id q = pi_id p"
proof -
  from assms obtain i raw q where 1: "we_paymentIntentId w = Some i" "row_find pi_id i intents = Some q"
    "json_get (js ''type'') (we_payload w) = Some (JStr (js ''transaction.confirmed''))"
    "json_get (js ''txHash'') (we_payload w) = Some (JStr raw)" "trim raw \<noteq> []"
    "decide_intent w intents (normalizeTxHash raw) q = Inr (Confirm p h)"
    by (auto simp: decide_def bind_eq_Some_conv split: if_splits option.splits json.splits)
  from 1(6) have 2: "validatePayloadMatchesPaymentIntent (we_payload w) q = Inr None" "q = p" "h = normalizeTxHash raw"
    "pi_status p \<notin> {PI_Confirmed, PI_Failed, PI_Expired}"
    "\<forall>r\<in>set intents. pi_confirmedTxHash r = Some h \<longrightarrow> pi_id r = pi_id p"
    by (auto simp: decide_intent_def split: sum.splits option.splits if_splits)
  from 2(4) have 3: "pi_status p \<in> {PI_Created, PI_Processing}" by (cases "pi_status p") auto
  from 2(1,2) obtain amount where "json_get (js ''amount'') (we_payload w) = Some (JStr amount)"
    "normalizeAmount amount \<noteq> None" "normalizeAmount amount = normalizeAmount (pi_amount p)"
    "json_get (js ''asset'') (we_payload w) = Some (JStr (pi_asset p))"
    by (auto simp: validatePayloadMatchesPaymentIntent_def split: option.splits json.splits if_splits)
  with 1 2 3 that show thesis by metis
qed

lemma decision_intents_kept:
  assumes "decide w (payment_intents d) = Inr dec" and "payment_rows.unique_rows (payment_intents d)"
    and "q \<in> set (payment_intents d)" and "pi_status q \<in> {PI_Confirmed, PI_Failed, PI_Expired}"
  shows "q \<in> set (decision_intents now dec (payment_intents d))"
proof (cases dec)
  case (Confirm p h)
  from assms(1) [unfolded Confirm] obtain i where "row_find pi_id i (payment_intents d) = Some p"
    "pi_status p \<in> {PI_Created, PI_Processing}" by (rule decide_confirm)
  with assms(2-4) have "pi_id q \<noteq> pi_id p"
    using payment_rows.find_unique [OF assms(2)] by (metis (full_types) PaymentIntentStatus.distinct(3,5,7,9,11,13) insertE option.inject singletonD)
  with assms(3) Confirm show ?thesis by (simp add: row_update_other)
qed (use assms(3) in simp_all)

text \<open>
  C17: Final rows are final: whatever run is made, with whatever failures, an event that was processed or failed
  and a payment intent that was confirmed, failed or expired keep every column.
\<close>

theorem final_rows_kept:
  assumes "payment_rows.unique_rows (payment_intents d)" and "webhook_rows.unique_rows (webhook_events d)"
    and "d' = snd (processWebhookEvent i jobId e d)"
  shows "(\<forall>w\<in>set (webhook_events d). we_status w \<in> {WE_Processed, WE_Failed} \<longrightarrow> w \<in> set (webhook_events d')) \<and>
    (\<forall>q\<in>set (payment_intents d). pi_status q \<in> {PI_Confirmed, PI_Failed, PI_Expired} \<longrightarrow> q \<in> set (payment_intents d'))"
proof (rule process_effect [OF assms(1), of i jobId e])
  fix u w dec
  assume w: "row_find we_id u (webhook_events d) = Some w" "we_status w \<notin> {WE_Processed, WE_Failed}"
    and dec: "decide w (payment_intents d) = Inr dec" "snd (processWebhookEvent i jobId e d) = decided_db jobId e w dec d"
  have "we_id v \<noteq> we_id w" if "v \<in> set (webhook_events d)" "we_status v \<in> {WE_Processed, WE_Failed}" for v
    using w that webhook_rows.find_unique [OF assms(2)] by (metis option.inject)
  then show ?thesis
    using decision_intents_kept [OF dec(1) assms(1)] by (simp add: assms(3) dec(2) decided_db_def row_update_other)
qed (simp_all add: assms(3) attempted_db_def)

text \<open>
  C16: A payment intent changes only by being confirmed, and only for an event of type \<open>transaction.confirmed\<close>
  that names it, carries its amount and asset and a transaction hash that no other intent
  has: then the intent was open and becomes \<open>CONFIRMED\<close> with the normalized hash.  No run adds or
  removes an intent.
\<close>

theorem confirmation_conditions:
  assumes "payment_rows.unique_rows (payment_intents d)" and "d' = snd (processWebhookEvent i jobId e d)"
    and "p \<in> set (payment_intents d)" and "decimal (pi_amount p)"
    and "p' \<in> set (payment_intents d')" and "pi_id p' = pi_id p" and "p' \<noteq> p"
  shows "pi_status p \<in> {PI_Created, PI_Processing} \<and>
    (\<exists>w raw amount. w \<in> set (webhook_events d) \<and> we_status w \<notin> {WE_Processed, WE_Failed} \<and>
       we_paymentIntentId w = Some (pi_id p) \<and>
       json_get (js ''type'') (we_payload w) = Some (JStr (js ''transaction.confirmed'')) \<and>
       json_get (js ''amount'') (we_payload w) = Some (JStr amount) \<and>
       (decimal amount \<longrightarrow> amount_units amount = amount_units (pi_amount p)) \<and>
       json_get (js ''asset'') (we_payload w) = Some (JStr (pi_asset p)) \<and>
       json_get (js ''txHash'') (we_payload w) = Some (JStr raw) \<and> trim raw \<noteq> [] \<and>
       (\<forall>q\<in>set (payment_intents d). pi_confirmedTxHash q = Some (normalizeTxHash raw) \<longrightarrow> q = p) \<and>
       p' = confirmed_intent (pg_now e) p (normalizeTxHash raw))"
proof (rule process_effect [OF assms(1), of i jobId e])
  have inj: "q = p" if "q \<in> set (payment_intents d)" "pi_id q = pi_id p" for q
    using that assms(1,3) payment_rows.find_unique [OF assms(1)] by (metis option.inject)
  { fix u w dec
    assume w: "row_find we_id u (webhook_events d) = Some w" "we_status w \<notin> {WE_Processed, WE_Failed}"
      and dec: "decide w (payment_intents d) = Inr dec" "snd (processWebhookEvent i jobId e d) = decided_db jobId e w dec d"
    from assms(2,5) dec(2) have p': "p' \<in> set (decision_intents (pg_now e) dec (payment_intents d))"
      by (simp add: decided_db_def)
    show ?thesis
    proof (cases dec)
      case (Confirm q h)
      from dec(1) [unfolded Confirm] show ?thesis
      proof (rule decide_confirm)
        fix j raw amount
        assume c: "we_paymentIntentId w = Some j" "row_find pi_id j (payment_intents d) = Some q"
          "json_get (js ''type'') (we_payload w) = Some (JStr (js ''transaction.confirmed''))"
          "json_get (js ''txHash'') (we_payload w) = Some (JStr raw)" "trim raw \<noteq> []" "h = normalizeTxHash raw"
          "json_get (js ''amount'') (we_payload w) = Some (JStr amount)"
          "normalizeAmount amount \<noteq> None" "normalizeAmount amount = normalizeAmount (pi_amount q)"
          "json_get (js ''asset'') (we_payload w) = Some (JStr (pi_asset q))" "pi_status q \<in> {PI_Created, PI_Processing}"
          "\<forall>r\<in>set (payment_intents d). pi_confirmedTxHash r = Some h \<longrightarrow> pi_id r = pi_id q"
        from p' Confirm obtain r where "r \<in> set (payment_intents d)"
          "p' = (if pi_id r = pi_id q then confirmed_intent (pg_now e) q h else r)" by (auto simp: in_row_update)
        with inj assms(6,7) have "pi_id q = pi_id p" "p' = confirmed_intent (pg_now e) q h"
          by (auto simp: confirmed_intent_def split: if_splits)
        with inj row_find_SomeD [OF c(2)] have q: "q = p" "p' = confirmed_intent (pg_now e) p h" "j = pi_id p" by auto
        from row_find_SomeD [OF w(1)] w(2) c inj normalizeAmount_eq_iff [OF _ assms(4)] show ?thesis unfolding q by blast
      qed
    qed (use p' inj assms(6,7) in auto)
  }
qed (use assms(2,3,5-7) payment_rows.find_unique [OF assms(1)] in \<open>simp_all add: attempted_db_def, (metis option.inject)+\<close>)

section \<open>A sample run\<close>

definition sample_intent :: PaymentIntentEntity where
  "sample_intent =
     \<lparr>pi_id = js ''p1'', pi_status = PI_Created, pi_amount = js ''125.500000000000000000'', pi_asset = js ''USDC'',
      pi_destination = js ''0xd'', pi_reference = None, pi_clientRequestId = None, pi_metadata = JObj [],
      pi_confirmedTxHash = None, pi_failureReason = None, pi_expiresAt = None, pi_createdAt = 0, pi_updatedAt = 0\<rparr>"

definition sample_event :: WebhookEventEntity where
  "sample_event =
     \<lparr>we_id = js ''w1'', we_provider = js ''blockchain'', we_externalEventId = js ''evt_1'', we_nonce = Some (js ''n1''),
      we_eventType = js ''transaction.confirmed'', we_paymentIntentId = Some (js ''p1''), we_txHash = Some (js ''0xab''),
      we_payload = JObj [(js ''eventId'', JStr (js ''evt_1'')), (js ''type'', JStr (js ''transaction.confirmed'')),
        (js ''txHash'', JStr (js ''0xAB'')), (js ''amount'', JStr (js ''125.50'')), (js ''asset'', JStr (js ''USDC''))],
      we_payloadHash = js ''h'', we_status = WE_Received, we_failureReason = None, we_receivedAt = 0,
      we_processedAt = None, we_createdAt = 0, we_updatedAt = 0\<rparr>"

definition sample_db :: db where
  "sample_db = empty_db\<lparr>payment_intents := [sample_intent], webhook_events := [sample_event]\<rparr>"

lemma sample_decision: "decide sample_event [sample_intent] = Inr (Confirm sample_intent (js ''0xab''))"
  by code_simp

lemma sample_unique:
  "payment_rows.unique_rows (payment_intents sample_db)" "webhook_rows.unique_rows (webhook_events sample_db)"
  by (simp_all add: sample_db_def payment_rows.unique_rows_def webhook_rows.unique_rows_def)

definition sample_confirmed :: db where
  "sample_confirmed = decided_db None (sample_env 0) sample_event (Confirm sample_intent (js ''0xab'')) sample_db"

lemma sample_fits: "we_fits sample_event" "pi_fits sample_intent"
  by code_simp+

lemma sample_hash:
  assumes "json_get (js ''txHash'') (we_payload sample_event) = Some (JStr raw)"
  shows "varchar 255 (normalizeTxHash raw)"
proof -
  have "json_get (js ''txHash'') (we_payload sample_event) = Some (JStr (js ''0xAB''))" by code_simp
  moreover have "varchar 255 (normalizeTxHash (js ''0xAB''))" by code_simp
  ultimately show ?thesis using assms by simp
qed

lemma sample_run: "processWebhookEvent (js ''w1'') None (sample_env 0) sample_db = (Inr PR_processed, sample_confirmed)"
proof -
  have "\<exists>res. fst (processWebhookEvent (js ''w1'') None (calm (sample_env 0)) sample_db) = Inr res"
    by (rule process_returns [where u = "js ''w1''" and w = sample_event])
      (use sample_unique sample_decision sample_fits sample_hash in \<open>auto simp: sample_db_def sample_event_def\<close>)
  then obtain res d' where run: "processWebhookEvent (js ''w1'') None (calm (sample_env 0)) sample_db = (Inr res, d')"
    by (metis prod.collapse)
  from process_spec_calm [OF this sample_unique(1)]
  have "process_spec None (sample_env 0) sample_event sample_db = Inr (res, d')"
    by (simp add: sample_db_def) (simp add: sample_event_def)
  then have "res = PR_processed" "d' = sample_confirmed"
    using sample_decision by (simp_all add: process_spec_def sample_confirmed_def sample_db_def) (simp_all add: sample_event_def)
  with run show ?thesis by simp
qed

theorem processing_follows_rules_witness:
  "\<exists>w. row_find we_id (js ''w1'') (webhook_events sample_db) = Some w \<and>
     process_spec None (sample_env 0) w sample_db = Inr (PR_processed, sample_confirmed)"
  using processing_follows_rules [OF sample_unique(1), of "sample_env 0" "js ''w1''" None] by (simp add: sample_run)

lemma sample_confirmed_rows:
  "payment_intents sample_confirmed = [confirmed_intent 1700000000000 sample_intent (js ''0xab'')]"
  "webhook_events sample_confirmed =
     [settled_event 1700000000001 1700000000000 (Confirm sample_intent (js ''0xab'')) sample_event]"
  by (simp_all add: sample_confirmed_def decided_db_def sample_db_def)

theorem final_rows_kept_witness:
  "confirmed_intent 1700000000000 sample_intent (js ''0xab'') \<in>
     set (payment_intents (snd (processWebhookEvent (js ''w1'') None (sample_env 1) sample_confirmed)))"
proof -
  have "payment_rows.unique_rows (payment_intents sample_confirmed)"
    and "webhook_rows.unique_rows (webhook_events sample_confirmed)"
    by (simp_all add: sample_confirmed_rows payment_rows.unique_rows_def webhook_rows.unique_rows_def)
  from final_rows_kept [OF this refl, of "js ''w1''" None "sample_env 1"] show ?thesis
    by (simp add: sample_confirmed_rows) (simp add: confirmed_intent_def)
qed

theorem confirmation_conditions_witness:
  "\<exists>w raw. w \<in> set (webhook_events sample_db) \<and> json_get (js ''txHash'') (we_payload w) = Some (JStr raw) \<and>
     confirmed_intent 1700000000000 sample_intent (js ''0xab'') =
     confirmed_intent 1700000000000 sample_intent (normalizeTxHash raw)"
proof -
  have "DECIMAL_STRING_PATTERN (pi_amount sample_intent)" by code_simp
  then have dec: "decimal (pi_amount sample_intent)" by (rule pattern_decimal)
  let ?p = "confirmed_intent 1700000000000 sample_intent (js ''0xab'')"
  have new: "?p \<noteq> sample_intent" "pi_id ?p = pi_id sample_intent" by (simp_all add: confirmed_intent_def sample_intent_def)
  have rows: "sample_intent \<in> set (payment_intents sample_db)" "?p \<in> set (payment_intents sample_confirmed)"
    by (simp_all add: sample_db_def sample_confirmed_rows)
  have snd: "sample_confirmed = snd (processWebhookEvent (js ''w1'') None (sample_env 0) sample_db)" by (simp add: sample_run)
  have now: "pg_now (sample_env 0) = 1700000000000" by simp
  from confirmation_conditions [OF sample_unique(1) snd rows(1) dec rows(2) new(2,1), unfolded now] show ?thesis by blast
qed

end
