(* ===== verification/Observability.thy ===== *)
theory Observability
  imports Errors
begin

text \<open>
  What the running service says about itself: the request context
  (\<open>src/common/request-context/request-context.ts\<close>, \<open>correlation-id.middleware.ts\<close>), the
  structured logger (\<open>src/common/logging/structured-logger.ts\<close>), the log throttle
  (\<open>src/common/logging/log-throttle.ts\<close>), the format choice and the record of the application
  logger (\<open>src/common/logging/app-logger.ts\<close>), the request log
  (\<open>http-request-logging.middleware.ts\<close>) and the diagnostics of an error
  (\<open>src/common/errors/describe-error.ts\<close>).

  The random identifiers and the time of a context are arguments.  The store of
  \<open>AsyncLocalStorage\<close> is an argument of the code that runs under it.
\<close>

section \<open>The request context\<close>

definition MAX_CORRELATION_ID_LENGTH :: nat where
  "MAX_CORRELATION_ID_LENGTH = 255"

text \<open>\<open>/^[\x21-\x7E]+$/\<close>\<close>

definition is_visible :: "code_unit \<Rightarrow> bool" where
  "is_visible c \<longleftrightarrow> 0x21 \<le> c \<and> c \<le> 0x7E"

definition SAFE_HEADER_VALUE_PATTERN :: "jsstr \<Rightarrow> bool" where
  "SAFE_HEADER_VALUE_PATTERN s \<longleftrightarrow> s \<noteq> [] \<and> list_all is_visible s"

definition normalizeCorrelationId :: "jsstr option \<Rightarrow> jsstr option" where
  "normalizeCorrelationId value =
     (case map_option trim value of
        None \<Rightarrow> None
      | Some trimmed \<Rightarrow>
          if trimmed = [] \<or> MAX_CORRELATION_ID_LENGTH < length trimmed \<or> \<not> SAFE_HEADER_VALUE_PATTERN trimmed
          then None else Some trimmed)"

record RequestContext =
  rc_correlationId :: jsstr
  rc_requestId :: jsstr
  rc_startedAt :: int

definition createRequestContext :: "jsstr \<Rightarrow> jsstr \<Rightarrow> int \<Rightarrow> jsstr option \<Rightarrow> RequestContext" where
  "createRequestContext uuid requestUuid now inboundCorrelationId =
     \<lparr>rc_correlationId = (case normalizeCorrelationId inboundCorrelationId of None \<Rightarrow> uuid | Some c \<Rightarrow> c),
      rc_requestId = requestUuid, rc_startedAt = now\<rparr>"

definition getCorrelationId :: "RequestContext option \<Rightarrow> jsstr option" where
  "getCorrelationId store = map_option rc_correlationId store"

definition runWithCorrelationId ::
  "jsstr \<Rightarrow> jsstr \<Rightarrow> int \<Rightarrow> jsstr option \<Rightarrow> (RequestContext option \<Rightarrow> 'a) \<Rightarrow> RequestContext option \<Rightarrow> 'a" where
  "runWithCorrelationId uuid requestUuid now correlationId callback store =
     (if normalizeCorrelationId correlationId = None then callback store
      else callback (Some (createRequestContext uuid requestUuid now correlationId)))"

definition correlationIdMiddleware ::
  "jsstr \<Rightarrow> jsstr \<Rightarrow> int \<Rightarrow> jsstr option \<Rightarrow> (RequestContext option \<Rightarrow> 'a) \<Rightarrow> jsstr \<times> 'a" where
  "correlationIdMiddleware uuid requestUuid now header next =
     (let context = createRequestContext uuid requestUuid now header
      in (rc_correlationId context, next (Some context)))"

section \<open>The structured logger\<close>

definition ALLOWED_LOG_FIELDS :: "jsstr list" where
  "ALLOWED_LOG_FIELDS = map js
     [''correlationId'', ''requestId'', ''paymentIntentId'', ''webhookEventId'', ''externalEventId'', ''provider'',
      ''jobId'', ''status'', ''errorCode'', ''method'', ''path'', ''durationMs'', ''suppressedCount'', ''errorName'',
      ''causeCode'', ''stackTop'']"

definition MAX_LOG_STRING_LENGTH :: nat where
  "MAX_LOG_STRING_LENGTH = 500"

definition sanitizeString :: "jsstr \<Rightarrow> jsstr" where
  "sanitizeString value = take MAX_LOG_STRING_LENGTH (trim (collapse_spaces (blank_unprintable value)))"

text \<open>The numbers that are logged are integers, which are finite.\<close>

fun normalizeLogValue :: "uval \<Rightarrow> uval option" where
  "normalizeLogValue U_Null = Some U_Null"
| "normalizeLogValue (U_String s) = Some (U_String (sanitizeString s))"
| "normalizeLogValue (U_Number n) = Some (U_Number n)"
| "normalizeLogValue (U_Bool b) = Some (U_Bool b)"
| "normalizeLogValue _ = None"

text \<open>\<open>entry[key] = value\<close>: an existing property keeps its place.\<close>

fun put :: "jsstr \<Rightarrow> 'v \<Rightarrow> (jsstr \<times> 'v) list \<Rightarrow> (jsstr \<times> 'v) list" where
  "put k v [] = [(k, v)]"
| "put k v ((k', v') # ps) = (if k' = k then (k, v) # ps else (k', v') # put k v ps)"

fun add_log_fields :: "(jsstr \<times> uval) list \<Rightarrow> (jsstr \<times> uval) list \<Rightarrow> (jsstr \<times> uval) list" where
  "add_log_fields entry [] = entry"
| "add_log_fields entry ((key, value) # logFields) =
     (if key \<notin> set ALLOWED_LOG_FIELDS then add_log_fields entry logFields
      else (case normalizeLogValue value of
              None \<Rightarrow> add_log_fields entry logFields
            | Some v \<Rightarrow> add_log_fields (put key v entry) logFields))"

definition createStructuredLogEntry ::
  "RequestContext option \<Rightarrow> jsstr \<Rightarrow> (jsstr \<times> uval) list \<Rightarrow> (jsstr \<times> uval) list" where
  "createStructuredLogEntry requestContext event logFields =
     add_log_fields
       ((js ''event'', U_String (sanitizeString event))
        # (case requestContext of
             None \<Rightarrow> []
           | Some c \<Rightarrow> [(js ''correlationId'', U_String (rc_correlationId c)), (js ''requestId'', U_String (rc_requestId c))]))
       logFields"

section \<open>Diagnostics of an error\<close>

text \<open>\<open>/^[A-Za-z][A-Za-z0-9_]{0,63}$/\<close> and \<open>/^[A-Z0-9_]{1,64}$/\<close>\<close>

definition is_lower :: "code_unit \<Rightarrow> bool" where
  "is_lower c \<longleftrightarrow> 0x61 \<le> c \<and> c \<le> 0x7A"

definition SAFE_ERROR_NAME_PATTERN :: "jsstr \<Rightarrow> bool" where
  "SAFE_ERROR_NAME_PATTERN s \<longleftrightarrow>
     s \<noteq> [] \<and> (is_upper (hd s) \<or> is_lower (hd s)) \<and> length (tl s) \<le> 63 \<and>
     list_all (\<lambda>c. is_upper c \<or> is_lower c \<or> is_digit c \<or> c = 0x5F) (tl s)"

definition SAFE_CAUSE_CODE_PATTERN :: "jsstr \<Rightarrow> bool" where
  "SAFE_CAUSE_CODE_PATTERN s \<longleftrightarrow>
     1 \<le> length s \<and> length s \<le> 64 \<and> list_all (\<lambda>c. is_upper c \<or> is_digit c \<or> c = 0x5F) s"

text \<open>The name of an object's constructor; an \<open>HttpException\<close> also keeps it in its \<open>name\<close>.\<close>

fun constructor_name :: "uval \<Rightarrow> uval" where
  "constructor_name (U_Object (Class_Error n) ps) = U_String n"
| "constructor_name (U_Object (Class_Other n) ps) = U_String n"
| "constructor_name (U_Object (Class_Http st r) ps) = uget (js ''name'') (U_Object (Class_Http st r) ps)"
| "constructor_name (U_Array xs) = U_String (js ''Array'')"
| "constructor_name _ = U_Undefined"

definition resolveErrorName :: "uval \<Rightarrow> jsstr option" where
  "resolveErrorName error =
     (case find SAFE_ERROR_NAME_PATTERN (string_list (uget (js ''name'') error)) of
        Some name \<Rightarrow> Some name
      | None \<Rightarrow> find SAFE_ERROR_NAME_PATTERN (string_list (constructor_name error)))"

text \<open>The first result of a search, in order.\<close>

fun first_some :: "('a \<Rightarrow> 'b option) \<Rightarrow> 'a list \<Rightarrow> 'b option" where
  "first_some f [] = None"
| "first_some f (x # xs) = (case f x of Some y \<Rightarrow> Some y | None \<Rightarrow> first_some f xs)"

lemma first_some_cong [fundef_cong]:
  "xs = ys \<Longrightarrow> (\<And>x. x \<in> set ys \<Longrightarrow> f x = g x) \<Longrightarrow> first_some f xs = first_some g ys"
  by (induction xs arbitrary: ys) (auto split: option.split)

lemma first_some_SomeD: "first_some f xs = Some y \<Longrightarrow> \<exists>x\<in>set xs. f x = Some y"
  by (induction xs) (auto split: option.splits)

function findCauseCode :: "uval \<Rightarrow> nat \<Rightarrow> jsstr option" where
  "findCauseCode error depth =
     (if 4 < depth \<or> \<not> is_object error then None
      else (case find SAFE_CAUSE_CODE_PATTERN (string_list (uget (js ''code'') error)) of
              Some code \<Rightarrow> Some code
            | None \<Rightarrow> first_some (\<lambda>nestedError. findCauseCode nestedError (depth + 1))
                (uget (js ''driverError'') error # uget (js ''cause'') error
                 # nested_errors (uget (js ''errors'') error))))"
  by pat_completeness auto
termination
  by (relation "measure (\<lambda>(error, depth). 5 - depth)") auto

declare findCauseCode.simps [simp del]

text \<open>\<open>/^\s*at\s/\<close> and \<open>/\(node:|at node:/\<close>\<close>

definition STACK_FRAME_PATTERN :: "jsstr \<Rightarrow> bool" where
  "STACK_FRAME_PATTERN line =
     (case dropWhile is_space line of a # t # c # _ \<Rightarrow> a = 0x61 \<and> t = 0x74 \<and> is_space c | _ \<Rightarrow> False)"

fun contains :: "jsstr \<Rightarrow> jsstr \<Rightarrow> bool" where
  "contains [] part \<longleftrightarrow> part = []"
| "contains (c # cs) part \<longleftrightarrow> take (length part) (c # cs) = part \<or> contains cs part"

definition NODE_INTERNAL_FRAME_PATTERN :: "jsstr \<Rightarrow> bool" where
  "NODE_INTERNAL_FRAME_PATTERN line \<longleftrightarrow> contains line (js ''(node:'') \<or> contains line (js ''at node:'')"

fun join :: "jsstr \<Rightarrow> jsstr list \<Rightarrow> jsstr" where
  "join sep [] = []"
| "join sep [s] = s"
| "join sep (s # t # ss) = s @ sep @ join sep (t # ss)"

definition stack_frames :: "uval \<Rightarrow> jsstr \<Rightarrow> jsstr list" where
  "stack_frames message stack =
     (let headerLineCount = (case message of U_String m \<Rightarrow> length (split_on 0xA m) | _ \<Rightarrow> 1)
      in map trim (take 3 (filter (\<lambda>line. STACK_FRAME_PATTERN line \<and> \<not> NODE_INTERNAL_FRAME_PATTERN line)
           (drop headerLineCount (split_on 0xA stack)))))"

definition extractStackTop :: "uval \<Rightarrow> jsstr option" where
  "extractStackTop error =
     (case uget (js ''stack'') error of
        U_String stack \<Rightarrow>
          (let frames = stack_frames (uget (js ''message'') error) stack
           in if 0 < length frames then Some (join (js '' | '') frames) else None)
      | _ \<Rightarrow> None)"

definition describeError :: "uval \<Rightarrow> (jsstr \<times> uval) list" where
  "describeError error =
     (if \<not> is_object error then [(js ''errorName'', U_String (js ''NonErrorValue''))]
      else
        (case resolveErrorName error of None \<Rightarrow> [] | Some n \<Rightarrow> [(js ''errorName'', U_String n)])
        @ (case findCauseCode error 0 of None \<Rightarrow> [] | Some c \<Rightarrow> [(js ''causeCode'', U_String c)])
        @ (case extractStackTop error of None \<Rightarrow> [] | Some [] \<Rightarrow> [] | Some t \<Rightarrow> [(js ''stackTop'', U_String t)]))"

section \<open>The log throttle\<close>

record LogThrottle =
  lt_intervalMs :: int
  lt_lastEmittedAt :: "(jsstr \<times> int) list"
  lt_suppressedCounts :: "(jsstr \<times> nat) list"

definition new_throttle :: "int \<Rightarrow> LogThrottle" where
  "new_throttle intervalMs = \<lparr>lt_intervalMs = intervalMs, lt_lastEmittedAt = [], lt_suppressedCounts = []\<rparr>"

definition suppressed :: "LogThrottle \<Rightarrow> jsstr \<Rightarrow> nat" where
  "suppressed t key = (case map_of (lt_suppressedCounts t) key of None \<Rightarrow> 0 | Some n \<Rightarrow> n)"

definition shouldEmit :: "int \<Rightarrow> jsstr \<Rightarrow> LogThrottle \<Rightarrow> nat option \<times> LogThrottle" where
  "shouldEmit timestamp key t =
     (if (case map_of (lt_lastEmittedAt t) key of None \<Rightarrow> False | Some l \<Rightarrow> timestamp - l < lt_intervalMs t)
      then (None, t\<lparr>lt_suppressedCounts := put key (suppressed t key + 1) (lt_suppressedCounts t)\<rparr>)
      else (Some (suppressed t key),
            t\<lparr>lt_lastEmittedAt := put key timestamp (lt_lastEmittedAt t),
              lt_suppressedCounts := put key 0 (lt_suppressedCounts t)\<rparr>))"

definition throttle_reset :: "LogThrottle \<Rightarrow> nat \<times> LogThrottle" where
  "throttle_reset t =
     (sum_list (map snd (lt_suppressedCounts t)), t\<lparr>lt_lastEmittedAt := [], lt_suppressedCounts := []\<rparr>)"

section \<open>The application logger and the request log\<close>

datatype LogFormat = Format_json | Format_text

definition resolveLogFormat :: "jsstr option \<Rightarrow> jsstr option \<Rightarrow> LogFormat" where
  "resolveLogFormat LOG_FORMAT NODE_ENV =
     (if LOG_FORMAT = Some (js ''json'') then Format_json
      else if LOG_FORMAT = Some (js ''text'') then Format_text
      else if NODE_ENV = Some (js ''production'') then Format_json else Format_text)"

text \<open>
  The JSON line of \<open>JsonLogger\<close>: the fields of \<open>record\<close>, in order.  \<open>isoTime\<close> is the text of the
  current time; \<open>JSON.stringify\<close> and the stream follow.  A plain object has the class \<open>Object\<close>; the names that every object
  inherits count as present for \<open>in\<close>.
\<close>

datatype LogLevel = Level_verbose | Level_debug | Level_log | Level_warn | Level_error | Level_fatal

fun LEVEL_NAMES :: "LogLevel \<Rightarrow> jsstr" where
  "LEVEL_NAMES Level_verbose = js ''verbose''"
| "LEVEL_NAMES Level_debug = js ''debug''"
| "LEVEL_NAMES Level_log = js ''info''"
| "LEVEL_NAMES Level_warn = js ''warn''"
| "LEVEL_NAMES Level_error = js ''error''"
| "LEVEL_NAMES Level_fatal = js ''fatal''"

fun isPlainObject :: "uval \<Rightarrow> bool" where
  "isPlainObject (U_Object (Class_Other n) ps) \<longleftrightarrow> n = js ''Object''"
| "isPlainObject _ \<longleftrightarrow> False"

definition inherited_names :: "jsstr list" where
  "inherited_names =
     map js [''constructor'', ''__defineGetter__'', ''__defineSetter__'', ''hasOwnProperty'', ''__lookupGetter__'',
       ''__lookupSetter__'', ''isPrototypeOf'', ''propertyIsEnumerable'', ''toString'', ''valueOf'', ''__proto__'', ''toLocaleString'']"

fun add_missing :: "(jsstr \<times> uval) list \<Rightarrow> (jsstr \<times> uval) list \<Rightarrow> (jsstr \<times> uval) list" where
  "add_missing r [] = r"
| "add_missing r ((key, val) # entries) =
     add_missing (if key \<in> set (map fst r) \<or> key \<in> set inherited_names then r else r @ [(key, val)]) entries"

fun truthy :: "uval \<Rightarrow> bool" where
  "truthy U_Undefined \<longleftrightarrow> False"
| "truthy U_Null \<longleftrightarrow> False"
| "truthy (U_Bool b) \<longleftrightarrow> b"
| "truthy (U_Number n) \<longleftrightarrow> n \<noteq> 0"
| "truthy (U_String s) \<longleftrightarrow> s \<noteq> []"
| "truthy _ \<longleftrightarrow> True"

definition printAsJson :: "jsstr \<Rightarrow> jsstr \<Rightarrow> LogLevel \<Rightarrow> uval \<Rightarrow> uval \<Rightarrow> (jsstr \<times> uval) list" where
  "printAsJson isoTime logContext logLevel errorStack message =
     (let r0 = [(js ''timestamp'', U_String isoTime), (js ''level'', U_String (LEVEL_NAMES logLevel))];
          r1 = (if logContext \<noteq> [] then r0 @ [(js ''context'', U_String logContext)] else r0);
          r2 = (case message of
                  U_Object cl entries \<Rightarrow>
                    if isPlainObject message then add_missing r1 entries
                    else r1 @ [(js ''message'', if is_error_instance message then uget (js ''message'') message else message)]
                | _ \<Rightarrow> r1 @ [(js ''message'', message)]);
          stack = (if errorStack = U_Undefined \<or> errorStack = U_Null
                   then (if is_error_instance message then uget (js ''stack'') message else U_Null) else errorStack)
      in if truthy stack then put (js ''stack'') stack r2 else r2)"

text \<open>
  The line that is written: \<open>stringify\<close> is \<open>JSON.stringify\<close> with Nest's replacer, the stream is \<open>stdout\<close> unless Nest names one.
\<close>

datatype log_stream = Stdout | Stderr

definition write_json_line ::
  "((jsstr \<times> uval) list \<Rightarrow> jsstr) \<Rightarrow> log_stream option \<Rightarrow> (jsstr \<times> uval) list \<Rightarrow> log_stream \<times> jsstr" where
  "write_json_line stringify writeStreamType entries =
     (case writeStreamType of None \<Rightarrow> Stdout | Some stream \<Rightarrow> stream, stringify entries @ [0x0A])"

text \<open>\<open>TextLogger\<close>: \<open>super\<close> is Nest's formatting of a message, \<open>stringify\<close> is \<open>JSON.stringify\<close>.\<close>

definition stringifyMessage :: "(uval \<Rightarrow> jsstr) \<Rightarrow> (uval \<Rightarrow> LogLevel \<Rightarrow> uval) \<Rightarrow> uval \<Rightarrow> LogLevel \<Rightarrow> uval" where
  "stringifyMessage stringify super message logLevel =
     super (if isPlainObject message then U_String (stringify message) else message) logLevel"

datatype app_logger = JsonLogger | TextLogger

definition createAppLogger :: "LogFormat \<Rightarrow> app_logger" where
  "createAppLogger format = (if format = Format_json then JsonLogger else TextLogger)"

definition httpRequestLoggingMiddleware ::
  "int \<Rightarrow> RequestContext option \<Rightarrow> int \<Rightarrow> jsstr \<Rightarrow> jsstr \<Rightarrow> int \<Rightarrow> log_event" where
  "httpRequestLoggingMiddleware startedAt requestContext finishedAt method path statusCode =
     (Log_Info, js ''http_request_completed'',
      [(js ''method'', U_String method), (js ''path'', U_String path), (js ''status'', U_Number statusCode),
       (js ''durationMs'', U_Number (finishedAt -
          (case requestContext of None \<Rightarrow> startedAt | Some c \<Rightarrow> rc_startedAt c)))])"

section \<open>Facts\<close>

lemma map_of_put [simp]: "map_of (put k v ps) = (map_of ps)(k \<mapsto> v)"
  by (induction k v ps rule: put.induct) auto

lemma set_put: "set (put k v ps) \<subseteq> insert (k, v) (set ps)"
  by (induction k v ps rule: put.induct) auto

lemma keys_put: "fst ` set (put k v ps) = insert k (fst ` set ps)"
  by (induction k v ps rule: put.induct) auto

lemma distinct_put: "distinct (map fst ps) \<Longrightarrow> distinct (map fst (put k v ps))"
  using keys_put [of k v] by (induction k v ps rule: put.induct) (auto simp: image_iff)

lemma sum_put:
  fixes v :: nat
  shows "distinct (map fst ps) \<Longrightarrow> sum_list (map snd (put k v ps)) + (case map_of ps k of None \<Rightarrow> 0 | Some n \<Rightarrow> n) =
    sum_list (map snd ps) + v"
proof (induction k v ps rule: put.induct)
  case (2 k v k' v' ps)
  then show ?case by (cases "k' = k") (auto split: option.splits simp: map_of_eq_None_iff [symmetric])
qed simp

lemma correlation_id_safe:
  assumes "normalizeCorrelationId value = Some c"
  shows "c \<noteq> [] \<and> length c \<le> 255 \<and> list_all is_visible c"
  using assms by (auto simp: normalizeCorrelationId_def SAFE_HEADER_VALUE_PATTERN_def MAX_CORRELATION_ID_LENGTH_def
      split: option.splits if_splits)

lemma correlation_id_stable:
  assumes "normalizeCorrelationId value = Some c"
  shows "normalizeCorrelationId (Some c) = Some c"
  using assms by (auto simp: normalizeCorrelationId_def split: option.splits if_splits)

lemma visible_printable: "is_visible c \<Longrightarrow> is_printable c"
  by (simp add: is_visible_def is_printable_def unit_nat)

definition safe_text :: "jsstr \<Rightarrow> bool" where
  "safe_text s \<longleftrightarrow> length s \<le> 500 \<and> list_all is_printable s"

definition safe_log_value :: "uval \<Rightarrow> bool" where
  "safe_log_value v = (case v of U_String s \<Rightarrow> safe_text s | U_Null \<Rightarrow> True | U_Number n \<Rightarrow> True | U_Bool b \<Rightarrow> True | _ \<Rightarrow> False)"

lemma sanitizeString_safe: "safe_text (sanitizeString s)"
  by (auto simp: safe_text_def sanitizeString_def MAX_LOG_STRING_LENGTH_def list_all_iff intro: sanitize_printable)

lemma normalizeLogValue_safe: "normalizeLogValue u = Some v \<Longrightarrow> safe_log_value v"
  by (cases u rule: normalizeLogValue.cases) (auto simp: safe_log_value_def sanitizeString_safe)

definition safe_entry :: "(jsstr \<times> uval) list \<Rightarrow> bool" where
  "safe_entry entry \<longleftrightarrow> distinct (map fst entry) \<and>
     (\<forall>(k, v)\<in>set entry. k \<in> set (js ''event'' # ALLOWED_LOG_FIELDS) \<and> safe_log_value v)"

lemma add_log_fields_safe: "safe_entry entry \<Longrightarrow> safe_entry (add_log_fields entry logFields)"
proof (induction entry logFields rule: add_log_fields.induct)
  case (2 entry key u logFields)
  have "safe_entry (put key v entry)" if "key \<in> set ALLOWED_LOG_FIELDS" "normalizeLogValue u = Some v" for v
    using 2(4) that set_put [of key v entry] normalizeLogValue_safe [OF that(2)]
    by (auto simp: safe_entry_def distinct_put)
  with 2 show ?case by (auto split: option.splits)
qed simp

lemma add_log_fields_keeps: "key \<notin> fst ` set logFields \<Longrightarrow> map_of (add_log_fields entry logFields) key = map_of entry key"
  by (induction entry logFields rule: add_log_fields.induct) (auto split: option.splits)

section \<open>Runs of the throttle\<close>

fun throttle_run :: "(int \<times> jsstr) list \<Rightarrow> LogThrottle \<Rightarrow> nat option list \<times> LogThrottle" where
  "throttle_run [] t = ([], t)"
| "throttle_run ((timestamp, key) # calls) t =
     (case shouldEmit timestamp key t of (r, t1) \<Rightarrow> (case throttle_run calls t1 of (rs, t2) \<Rightarrow> (r # rs, t2)))"

text \<open>The answers for one key, and the times at which it was emitted.\<close>

definition answers_for :: "jsstr \<Rightarrow> (int \<times> jsstr) list \<Rightarrow> nat option list \<Rightarrow> nat option list" where
  "answers_for key calls rs = map snd (filter (\<lambda>((t, k), r). k = key) (zip calls rs))"

definition emissions :: "jsstr \<Rightarrow> (int \<times> jsstr) list \<Rightarrow> nat option list \<Rightarrow> int list" where
  "emissions key calls rs = map (\<lambda>((t, k), r). t) (filter (\<lambda>((t, k), r). k = key \<and> r \<noteq> None) (zip calls rs))"

fun reported :: "nat option list \<Rightarrow> nat" where
  "reported [] = 0"
| "reported (None # rs) = reported rs"
| "reported (Some n # rs) = n + reported rs"

lemma throttle_run_accounts:
  assumes "throttle_run calls t = (rs, t')"
  shows "reported (answers_for key calls rs) + suppressed t' key =
      suppressed t key + length (filter (\<lambda>r. r = None) (answers_for key calls rs))"
  using assms
proof (induction calls t arbitrary: rs rule: throttle_run.induct)
  case (2 timestamp k calls t)
  from 2(2) obtain r t1 rs1 where 1: "shouldEmit timestamp k t = (r, t1)" and
    run: "throttle_run calls t1 = (rs1, t')" and rs: "rs = r # rs1"
    by (auto split: prod.splits)
  have "suppressed t1 key = (if k = key then (if r = None then suppressed t key + 1 else 0) else suppressed t key)"
    and "k = key \<Longrightarrow> r = None \<or> r = Some (suppressed t key)"
    using 1 by (auto simp: shouldEmit_def suppressed_def split: if_splits option.splits)
  with 2(1) [OF 1 [symmetric] run] rs show ?case by (auto simp: answers_for_def)
qed (simp add: answers_for_def)

lemma throttle_run_spaced:
  assumes "throttle_run calls t = (rs, t')"
  shows "successively (\<lambda>a b. a + lt_intervalMs t \<le> b)
    ((case map_of (lt_lastEmittedAt t) key of None \<Rightarrow> [] | Some l \<Rightarrow> [l]) @ emissions key calls rs)"
  using assms
proof (induction calls t arbitrary: rs rule: throttle_run.induct)
  case (2 timestamp k calls t)
  from 2(2) obtain r t1 rs1 where 1: "shouldEmit timestamp k t = (r, t1)" and
    run: "throttle_run calls t1 = (rs1, t')" and rs: "rs = r # rs1"
    by (auto split: prod.splits)
  have same: "lt_intervalMs t1 = lt_intervalMs t" using 1 by (auto simp: shouldEmit_def split: if_splits)
  note IH = 2(1) [OF 1 [symmetric] run, unfolded same]
  show ?case
  proof (cases "k = key \<and> r \<noteq> None")
    case True
    with 1 have "map_of (lt_lastEmittedAt t1) key = Some timestamp"
      and "\<And>l. map_of (lt_lastEmittedAt t) key = Some l \<Longrightarrow> l + lt_intervalMs t \<le> timestamp"
      by (auto simp: shouldEmit_def split: if_splits option.splits)
    with IH True rs show ?thesis by (auto simp: emissions_def split: option.splits)
  next
    case False
    with 1 have "map_of (lt_lastEmittedAt t1) key = map_of (lt_lastEmittedAt t) key"
      by (auto simp: shouldEmit_def split: if_splits)
    with IH False rs show ?thesis by (auto simp: emissions_def)
  qed
qed (auto simp: emissions_def split: option.split)

lemma throttle_run_total:
  assumes "throttle_run calls t = (rs, t')" and "distinct (map fst (lt_suppressedCounts t))"
  shows "distinct (map fst (lt_suppressedCounts t')) \<and>
    fst (throttle_reset t') + reported rs = fst (throttle_reset t) + length (filter (\<lambda>r. r = None) rs)"
  using assms
proof (induction calls t arbitrary: rs rule: throttle_run.induct)
  case (2 timestamp k calls t)
  from 2(2) obtain r t1 rs1 where 1: "shouldEmit timestamp k t = (r, t1)" and
    run: "throttle_run calls t1 = (rs1, t')" and rs: "rs = r # rs1"
    by (auto split: prod.splits)
  have "distinct (map fst (lt_suppressedCounts t1))"
    using 1 2(3) by (auto simp: shouldEmit_def distinct_put split: if_splits)
  moreover have "fst (throttle_reset t1) + (case r of None \<Rightarrow> 0 | Some n \<Rightarrow> n) =
      fst (throttle_reset t) + (case r of None \<Rightarrow> 1 | Some n \<Rightarrow> 0)"
    using 1 sum_put [OF 2(3), of k "suppressed t k + 1"] sum_put [OF 2(3), of k 0]
    unfolding shouldEmit_def throttle_reset_def suppressed_def by (auto split: if_splits)
  ultimately show ?case using 2(1) [OF 1 [symmetric] run] rs by (auto split: option.splits)
qed simp

section \<open>The JSON line\<close>

lemma add_missing_keeps: "map_of r k = Some v \<Longrightarrow> map_of (add_missing r entries) k = Some v"
  by (induction r entries rule: add_missing.induct) (auto simp: map_add_def)

lemma add_missing_adds:
  assumes "k \<notin> set (map fst r)" and "k \<notin> set inherited_names"
  shows "map_of (add_missing r entries) k = map_of entries k"
  using assms
proof (induction r entries rule: add_missing.induct)
  case (1 r)
  then have "map_of r k = None" unfolding map_of_eq_None_iff by simp
  then show ?case by simp
next
  case (2 r key val entries)
  show ?case
  proof (cases "key = k")
    case True
    with 2(2,3) have "map_of (r @ [(key, val)]) k = Some val"
      using map_of_eq_None_iff [of r k] by (simp add: map_add_def)
    from add_missing_keeps [OF this] True 2(2,3) show ?thesis by simp
  next
    case False
    with 2 show ?thesis by (cases "key \<in> set (map fst r) \<or> key \<in> set inherited_names") auto
  qed
qed

text \<open>
  The line of a structured entry carries every field of the entry, except that the entry can never replace the time, the level and the context.
\<close>

lemma printed_entry:
  assumes "r = printAsJson isoTime c level U_Undefined (U_Object (Class_Other (js ''Object'')) entries)" and "c \<noteq> []"
  shows "map_of r (js ''timestamp'') = Some (U_String isoTime)" and "map_of r (js ''level'') = Some (U_String (LEVEL_NAMES level))"
    and "map_of r (js ''context'') = Some (U_String c)"
    and "k \<notin> set (map js [''timestamp'', ''level'', ''context'']) \<Longrightarrow> k \<notin> set inherited_names \<Longrightarrow> map_of r k = map_of entries k"
proof -
  let ?r = "[(js ''timestamp'', U_String isoTime), (js ''level'', U_String (LEVEL_NAMES level)), (js ''context'', U_String c)]"
  have r: "r = add_missing ?r entries" using assms by (simp add: printAsJson_def Let_def)
  have keys: "js ''level'' \<noteq> js ''timestamp''" "js ''context'' \<noteq> js ''timestamp''" "js ''context'' \<noteq> js ''level''" by code_simp+
  show "map_of r (js ''timestamp'') = Some (U_String isoTime)" unfolding r by (rule add_missing_keeps) simp
  show "map_of r (js ''level'') = Some (U_String (LEVEL_NAMES level))" unfolding r by (rule add_missing_keeps) (use keys in simp)
  show "map_of r (js ''context'') = Some (U_String c)" unfolding r by (rule add_missing_keeps) (use keys in simp)
  assume "k \<notin> set (map js [''timestamp'', ''level'', ''context''])" "k \<notin> set inherited_names"
  then show "map_of r k = map_of entries k" unfolding r by (intro add_missing_adds) simp_all
qed

section \<open>Properties\<close>

text \<open>
  The throttle loses nothing: of any sequence of calls on a new throttle, the answers for a key report
  exactly its suppressed calls, except those still counted; two emissions of a key are at
  least the interval apart; and a reset returns the number of all suppressed calls that no answer reported.
\<close>

theorem throttle_accounts:
  assumes "throttle_run calls (new_throttle intervalMs) = (rs, t)"
  shows "reported (answers_for key calls rs) + suppressed t key =
      length (filter (\<lambda>r. r = None) (answers_for key calls rs)) \<and>
    successively (\<lambda>a b. a + intervalMs \<le> b) (emissions key calls rs) \<and>
    reported rs + fst (throttle_reset t) = length (filter (\<lambda>r. r = None) rs)"
  using throttle_run_accounts [OF assms, of key] throttle_run_spaced [OF assms, of key] throttle_run_total [OF assms]
  by (simp add: new_throttle_def suppressed_def throttle_reset_def)

theorem throttle_accounts_witness:
  "\<exists>rs t. throttle_run [(0, js ''E''), (10, js ''E''), (20, js ''F''), (40000, js ''E'')] (new_throttle 30000) = (rs, t) \<and>
     rs = [Some 0, None, Some 0, Some 1] \<and> reported rs + fst (throttle_reset t) = 1"
proof -
  obtain rs t where run: "throttle_run [(0, js ''E''), (10, js ''E''), (20, js ''F''), (40000, js ''E'')]
      (new_throttle 30000) = (rs, t)" by (metis prod.exhaust)
  then have rs: "rs = [Some 0, None, Some 0, Some 1]" by (auto simp: shouldEmit_def new_throttle_def suppressed_def)
  from throttle_accounts [OF run] run rs show ?thesis by auto
qed

text \<open>
  C24: A log entry is safe to print whatever values it is given: its keys are distinct and among the allowed ones,
  its values are scalars, and its texts are printable ASCII of at most 500 characters.  The
  request context is made from an inbound header of any content and from printable random identifiers.
\<close>

theorem log_entry_safe:
  assumes "safe_text uuid" and "safe_text requestUuid"
    and "store = None \<or> store = Some (createRequestContext uuid requestUuid now header)"
  shows "safe_entry (createStructuredLogEntry store event logFields)"
proof -
  have "safe_text (rc_correlationId c) \<and> safe_text (rc_requestId c)" if "store = Some c" for c
  proof (cases "normalizeCorrelationId header")
    case (Some i)
    then have "safe_text i"
      using correlation_id_safe [OF Some] visible_printable by (auto simp: safe_text_def list_all_iff)
    with assms that Some show ?thesis by (auto simp: createRequestContext_def)
  qed (use assms that in \<open>auto simp: createRequestContext_def\<close>)
  moreover have "js ''event'' \<noteq> js ''correlationId''" "js ''event'' \<noteq> js ''requestId''" "js ''correlationId'' \<noteq> js ''requestId''"
    "{js ''correlationId'', js ''requestId''} \<subseteq> set ALLOWED_LOG_FIELDS" by (simp_all add: ALLOWED_LOG_FIELDS_def)
  ultimately show ?thesis
    unfolding createStructuredLogEntry_def
    by (intro add_log_fields_safe) (auto simp: safe_entry_def safe_log_value_def sanitizeString_safe split: option.splits)
qed

theorem log_entry_safe_witness:
  "safe_entry (createStructuredLogEntry (Some (createRequestContext (js ''u1'') (js ''u2'') 0 (Some (js ''req-1''))))
     (js ''outbox_dispatch_failed'') [(js ''status'', U_String (js ''FAILED'')), (js ''secret'', U_String (js ''x''))])"
  by (rule log_entry_safe [of "js ''u1''" "js ''u2''" _ 0 "Some (js ''req-1'')"])
    (simp_all add: safe_text_def js_def is_printable_def)

lemma find_code_pattern: "find P (string_list u) = Some s \<Longrightarrow> P s"
  by (auto simp: find_Some_iff)

lemma cause_code_safe: "findCauseCode error depth = Some c \<Longrightarrow> SAFE_CAUSE_CODE_PATTERN c"
proof (induction error depth arbitrary: c rule: findCauseCode.induct)
  case (1 error depth)
  show ?case
  proof (cases "find SAFE_CAUSE_CODE_PATTERN (string_list (uget (js ''code'') error))")
    case None
    with 1(2) obtain x where "findCauseCode x (depth + 1) = Some c" and rest: "\<not> (4 < depth \<or> \<not> is_object error)"
      and "x \<in> set (uget (js ''driverError'') error # uget (js ''cause'') error # nested_errors (uget (js ''errors'') error))"
      unfolding findCauseCode.simps [of error depth]
      by (auto simp del: first_some.simps split: if_splits dest!: first_some_SomeD)
    then show ?thesis using 1(1) None by blast
  next
    case (Some s)
    with 1(2) have "c = s" unfolding findCauseCode.simps [of error depth] by (auto split: if_splits)
    with find_code_pattern [OF Some] show ?thesis by simp
  qed
qed

lemma error_name_safe: "resolveErrorName error = Some n \<Longrightarrow> SAFE_ERROR_NAME_PATTERN n"
  by (auto simp: resolveErrorName_def split: option.splits dest: find_code_pattern)

lemma describe_cases:
  assumes "(k, v) \<in> set (describeError error)"
  shows "k = js ''errorName'' \<and> (\<exists>n. v = U_String n \<and> (n = js ''NonErrorValue'' \<or> resolveErrorName error = Some n)) \<or>
    k = js ''causeCode'' \<and> (\<exists>c. v = U_String c \<and> findCauseCode error 0 = Some c) \<or>
    k = js ''stackTop'' \<and> (\<exists>t. v = U_String t \<and> extractStackTop error = Some t)"
  using assms unfolding describeError_def
  by (cases "resolveErrorName error"; cases "findCauseCode error 0"; cases "extractStackTop error")
    (auto split: if_splits list.splits)

definition looks_like_frame :: "jsstr \<Rightarrow> bool" where
  "looks_like_frame l \<longleftrightarrow> STACK_FRAME_PATTERN l \<and> \<not> NODE_INTERNAL_FRAME_PATTERN l"

lemma stack_frames_lines:
  obtains ls where "stack_frames message stack = map trim ls" "set ls \<subseteq> set (tl (split_on 0xA stack))" "length ls \<le> 3"
    "list_all looks_like_frame ls"
proof -
  define n where "n = (case message of U_String m \<Rightarrow> length (split_on 0xA m) | _ \<Rightarrow> 1)"
  define ls where "ls = take 3 (filter looks_like_frame (drop n (split_on 0xA stack)))"
  have "1 \<le> n" by (simp add: n_def Suc_le_eq split: uval.split)
  then have "set (drop n (split_on 0xA stack)) \<subseteq> set (tl (split_on 0xA stack))"
    using set_drop_subset_set_drop [of 1 n "split_on 0xA stack"] by (simp add: drop_Suc)
  then have "set ls \<subseteq> set (tl (split_on 0xA stack))" unfolding ls_def by (auto dest!: in_set_takeD)
  moreover have "stack_frames message stack = map trim ls"
    unfolding stack_frames_def ls_def n_def Let_def looks_like_frame_def by (rule refl)
  moreover have "list_all looks_like_frame ls" unfolding ls_def list_all_iff by (auto dest!: in_set_takeD)
  moreover have "length ls \<le> 3" by (simp add: ls_def)
  ultimately show thesis using that by blast
qed

lemma stack_top_lines:
  assumes "extractStackTop error = Some tp"
  shows "\<exists>stack ls. uget (js ''stack'') error = U_String stack \<and> set ls \<subseteq> set (tl (split_on 0xA stack)) \<and>
    1 \<le> length ls \<and> length ls \<le> 3 \<and> list_all looks_like_frame ls \<and> tp = join (js '' | '') (map trim ls)"
proof (cases "uget (js ''stack'') error")
  case (U_String stack)
  obtain ls where ls: "stack_frames (uget (js ''message'') error) stack = map trim ls"
    "set ls \<subseteq> set (tl (split_on 0xA stack))" "length ls \<le> 3" "list_all looks_like_frame ls"
    by (rule stack_frames_lines)
  from assms U_String ls(1) have "tp = join (js '' | '') (map trim ls)" "ls \<noteq> []"
    by (simp_all add: extractStackTop_def Let_def split: if_splits)
  moreover from this(2) have "1 \<le> length ls" by (cases ls) simp_all
  ultimately show ?thesis using U_String ls(2-4) by blast
qed (use assms in \<open>simp_all add: extractStackTop_def\<close>)

text \<open>
  The diagnostics of a thrown value never carry its message or other free text: they are a name and a code that
  match the strict patterns, and at most three lines of the stack that look like frames and
  are not of Node itself.
\<close>

theorem error_diagnostics_safe:
  assumes "(k, v) \<in> set (describeError error)"
  shows "(k = js ''errorName'' \<and> (\<exists>n. v = U_String n \<and> SAFE_ERROR_NAME_PATTERN n)) \<or>
    (k = js ''causeCode'' \<and> (\<exists>c. v = U_String c \<and> SAFE_CAUSE_CODE_PATTERN c)) \<or>
    (k = js ''stackTop'' \<and>
     (\<exists>stack ls. uget (js ''stack'') error = U_String stack \<and> set ls \<subseteq> set (tl (split_on 0xA stack)) \<and>
        1 \<le> length ls \<and> length ls \<le> 3 \<and> list_all looks_like_frame ls \<and>
        v = U_String (join (js '' | '') (map trim ls))))"
proof -
  have name: "SAFE_ERROR_NAME_PATTERN (js ''NonErrorValue'')" by code_simp
  from describe_cases [OF assms] show ?thesis
  proof (elim disjE conjE exE)
    fix t
    assume t: "k = js ''stackTop''" "v = U_String t" "extractStackTop error = Some t"
    show ?thesis using stack_top_lines [OF t(3)] unfolding t(1,2) by blast
  qed (use name error_name_safe cause_code_safe in simp_all)
qed

theorem error_diagnostics_safe_witness:
  "\<exists>c. SAFE_CAUSE_CODE_PATTERN c \<and> (js ''causeCode'', U_String c) \<in> set (describeError (pg_error ''57P01''))"
proof -
  have "(js ''causeCode'', U_String (js ''57P01'')) \<in> set (describeError (pg_error ''57P01''))" by code_simp
  from error_diagnostics_safe [OF this] this show ?thesis by auto
qed

end
