(* ===== verification/Queue_Holder.thy ===== *)
theory Queue_Holder
  imports Observability
begin

text \<open>
  The publisher of jobs, \<open>src/processing/webhook-events-queue-holder.service.ts\<close>, with
  \<open>src/processing/webhook-event-job-publisher.service.ts\<close> and
  \<open>src/processing/queue.constants.ts\<close>.

  The holder keeps one BullMQ queue at a time.  A queue that reported an error is
  poisoned: the next publisher replaces it and closes the old one.  Its methods are
  asynchronous, so the model has two layers.  The segments between two \<open>await\<close>s are functions on the
  holder; \<open>publish_step\<close> interleaves the segments of any number of publishers with error events of queues,
  other callers of \<open>getQueue\<close> and the shutdown.  \<open>addProcessWebhookEvent\<close> runs the
  segments of one publisher in order, as the outbox dispatcher does.

  Redis and BullMQ are not code of the repository: \<open>bullmq\<close> says which constructions
  and additions fail, which error events arrive in between, and what the clock shows.  A queue is
  identified by the number of its construction.
\<close>

section \<open>Jobs\<close>

definition WEBHOOK_EVENTS_QUEUE_NAME :: jsstr where
  "WEBHOOK_EVENTS_QUEUE_NAME = js ''webhook-events''"

definition PROCESS_WEBHOOK_EVENT_JOB_NAME :: jsstr where
  "PROCESS_WEBHOOK_EVENT_JOB_NAME = js ''process-webhook-event''"

record ProcessWebhookEventJobData =
  jd_webhookEventId :: jsstr
  jd_correlationId :: "jsstr option"

text \<open>The options that govern retries; the others bound how long finished jobs are kept.\<close>

record JobsOptions =
  jo_attempts :: nat
  jo_backoffDelay :: nat

definition PROCESS_WEBHOOK_EVENT_JOB_OPTIONS :: JobsOptions where
  "PROCESS_WEBHOOK_EVENT_JOB_OPTIONS = \<lparr>jo_attempts = 5, jo_backoffDelay = 5000\<rparr>"

datatype add_outcome = Added | Not_Added uval | Added_Unacknowledged uval

record bullmq =
  build_error :: "nat \<Rightarrow> uval option"
  error_events :: "nat \<Rightarrow> (nat \<times> uval) list"
  add_result :: "nat \<Rightarrow> add_outcome"
  queue_clock :: "nat \<Rightarrow> int"

section \<open>The holder\<close>

record WebhookEventsQueueHolder =
  qh_currentQueue :: "nat option"
  qh_poisoned :: bool
  qh_poisonedSinceLastPublish :: bool
  qh_recreating :: bool
  qh_destroyed :: bool
  qh_poisonThrottle :: LogThrottle
  qh_builds :: nat
  qh_made :: "nat list"
  qh_closing :: "nat list"
  qh_logs :: "log_event list"

definition QUEUE_POISON_LOG_INTERVAL_MS :: int where
  "QUEUE_POISON_LOG_INTERVAL_MS = 30000"

definition new_holder :: WebhookEventsQueueHolder where
  "new_holder =
     \<lparr>qh_currentQueue = None, qh_poisoned = False, qh_poisonedSinceLastPublish = False, qh_recreating = False,
      qh_destroyed = False, qh_poisonThrottle = new_throttle QUEUE_POISON_LOG_INTERVAL_MS, qh_builds = 0,
      qh_made = [], qh_closing = [], qh_logs = []\<rparr>"

type_synonym 'a holder_op = "WebhookEventsQueueHolder \<Rightarrow> (uval + 'a) \<times> WebhookEventsQueueHolder"

definition holder_destroyed :: uval where
  "holder_destroyed = js_error ''WEBHOOK_EVENTS_QUEUE_HOLDER_DESTROYED''"

definition createQueue :: "bullmq \<Rightarrow> nat holder_op" where
  "createQueue b h =
     (let n = qh_builds h; h' = h\<lparr>qh_builds := Suc n\<rparr>
      in case build_error b n of
           Some err \<Rightarrow> (Inl err, h')
         | None \<Rightarrow> (Inr n, h'\<lparr>qh_made := qh_made h @ [n]\<rparr>))"

definition closeQueueSafely :: "nat \<Rightarrow> WebhookEventsQueueHolder \<Rightarrow> WebhookEventsQueueHolder" where
  "closeQueueSafely queue h = h\<lparr>qh_closing := qh_closing h @ [queue]\<rparr>"

text \<open>The log line of a close that fails later.\<close>

definition close_failed_log :: "uval \<Rightarrow> log_event" where
  "close_failed_log error =
     (Log_Warn, js ''webhook_events_queue_close_failed'',
      [(js ''status'', U_String (js ''FAILED'')),
       (js ''errorCode'', U_String (toSafeErrorCode error (js ''WEBHOOK_EVENTS_QUEUE_CLOSE_FAILED'')))])"

definition replaceQueue :: "bullmq \<Rightarrow> nat option \<Rightarrow> nat holder_op" where
  "replaceQueue b oldQueue h =
     (if qh_destroyed h then (Inl holder_destroyed, h)
      else (case createQueue b h of
              (Inl err, h1) \<Rightarrow> (Inl err, h1)
            | (Inr newQueue, h1) \<Rightarrow>
                let h2 = h1\<lparr>qh_currentQueue := Some newQueue, qh_poisoned := False\<rparr>
                in (Inr newQueue,
                    case oldQueue of
                      None \<Rightarrow> h2
                    | Some q \<Rightarrow> if q \<noteq> newQueue then closeQueueSafely q h2 else h2)))"

definition getQueue :: "bullmq \<Rightarrow> nat holder_op" where
  "getQueue b h =
     (if qh_destroyed h then (Inl holder_destroyed, h)
      else (case qh_currentQueue h of
              Some q \<Rightarrow> if \<not> qh_poisoned h then (Inr q, h) else replaceQueue b (qh_currentQueue h) h
            | None \<Rightarrow> replaceQueue b (qh_currentQueue h) h))"

definition markPoisoned :: "int \<Rightarrow> nat \<Rightarrow> uval \<Rightarrow> WebhookEventsQueueHolder \<Rightarrow> WebhookEventsQueueHolder" where
  "markPoisoned now queue error h =
     (let h1 = h\<lparr>qh_poisoned := (if qh_currentQueue h = Some queue then True else qh_poisoned h),
                 qh_poisonedSinceLastPublish := True\<rparr>;
          errorCode = toSafeErrorCode error (js ''WEBHOOK_EVENTS_QUEUE_POISONED'')
      in case shouldEmit now errorCode (qh_poisonThrottle h1) of
           (None, t) \<Rightarrow> h1\<lparr>qh_poisonThrottle := t\<rparr>
         | (Some suppressedCount, t) \<Rightarrow>
             h1\<lparr>qh_poisonThrottle := t,
                qh_logs := qh_logs h1 @ [(Log_Warn, js ''webhook_events_queue_poisoned'',
                  [(js ''status'', U_String (js ''FAILED'')), (js ''errorCode'', U_String errorCode),
                   (js ''suppressedCount'', U_Number (int suppressedCount))])]\<rparr>)"

definition markPublishSucceeded :: "WebhookEventsQueueHolder \<Rightarrow> WebhookEventsQueueHolder" where
  "markPublishSucceeded h =
     (if \<not> qh_poisonedSinceLastPublish h then h
      else (case throttle_reset (qh_poisonThrottle h) of
              (suppressedCount, t) \<Rightarrow>
                h\<lparr>qh_poisonThrottle := t, qh_poisonedSinceLastPublish := False,
                  qh_logs := qh_logs h @ [(Log_Info, js ''webhook_events_queue_recovered'',
                    [(js ''status'', U_String (js ''READY'')), (js ''suppressedCount'', U_Number (int suppressedCount))])]\<rparr>))"

section \<open>The segments\<close>

text \<open>
  What a call returns at its first \<open>await\<close>: a queue at once, a promise that another publisher
  already created, or a new promise whose callback runs in a later step.
\<close>

datatype pending = At_Once nat | Join_Promise | Own_Promise "nat option"

definition recreateQueue :: "nat option \<Rightarrow> pending holder_op" where
  "recreateQueue queueToReplace h =
     (if qh_destroyed h then (Inl holder_destroyed, h)
      else if qh_recreating h then (Inr Join_Promise, h)
      else (Inr (Own_Promise queueToReplace), h\<lparr>qh_recreating := True\<rparr>))"

text \<open>The callbacks of \<open>then\<close> and \<open>finally\<close>.\<close>

definition settle_recreate :: "bullmq \<Rightarrow> nat option \<Rightarrow> nat holder_op" where
  "settle_recreate b queueToReplace h =
     (case (if qh_currentQueue h \<noteq> None \<and> queueToReplace \<noteq> None \<and> qh_currentQueue h \<noteq> queueToReplace \<and> \<not> qh_poisoned h
            then (Inr (the (qh_currentQueue h)), h)
            else replaceQueue b (qh_currentQueue h) h) of
        (r, h') \<Rightarrow> (r, h'\<lparr>qh_recreating := False\<rparr>))"

definition getHealthyQueueForPublish :: "pending holder_op" where
  "getHealthyQueueForPublish h =
     (if qh_destroyed h then (Inl holder_destroyed, h)
      else (case qh_currentQueue h of
              Some q \<Rightarrow> if \<not> qh_poisoned h then (Inr (At_Once q), h) else recreateQueue (qh_currentQueue h) h
            | None \<Rightarrow> recreateQueue (qh_currentQueue h) h))"

definition destroy_start :: "WebhookEventsQueueHolder \<Rightarrow> WebhookEventsQueueHolder" where
  "destroy_start h = h\<lparr>qh_destroyed := True\<rparr>"

text \<open>The rest of \<open>onModuleDestroy\<close>, once a pending promise is settled.\<close>

definition destroy_finish :: "WebhookEventsQueueHolder \<Rightarrow> WebhookEventsQueueHolder" where
  "destroy_finish h =
     (let h1 = h\<lparr>qh_currentQueue := None, qh_poisoned := False\<rparr>
      in case qh_currentQueue h of None \<Rightarrow> h1 | Some q \<Rightarrow> h1\<lparr>qh_closing := qh_closing h1 @ [q]\<rparr>)"

section \<open>One publisher\<close>

record broker =
  bk_holder :: WebhookEventsQueueHolder
  bk_jobs :: "ProcessWebhookEventJobData list"
  bk_adds :: nat

definition on_holder :: "(WebhookEventsQueueHolder \<Rightarrow> WebhookEventsQueueHolder) \<Rightarrow> broker \<Rightarrow> broker" where
  "on_holder f k = k\<lparr>bk_holder := f (bk_holder k)\<rparr>"

text \<open>\<open>queue.add\<close>, preceded by the error events that arrive before it.\<close>

definition add_job :: "bullmq \<Rightarrow> ProcessWebhookEventJobData \<Rightarrow> broker \<Rightarrow> (uval + unit) \<times> broker" where
  "add_job b data k =
     (let n = bk_adds k;
          h = fold (\<lambda>(q, err). markPoisoned (queue_clock b n) q err) (error_events b n) (bk_holder k);
          k' = k\<lparr>bk_adds := Suc n, bk_holder := h\<rparr>
      in case add_result b n of
           Added \<Rightarrow> (Inr (), k'\<lparr>bk_jobs := bk_jobs k @ [data]\<rparr>)
         | Not_Added err \<Rightarrow> (Inl err, k')
         | Added_Unacknowledged err \<Rightarrow> (Inl err, k'\<lparr>bk_jobs := bk_jobs k @ [data]\<rparr>))"

text \<open>
  A publisher alone awaits the promise it created itself; it never finds a promise of another to
  join (\<open>getHealthyQueueForPublish_solo\<close> below).
\<close>

definition await_queue :: "bullmq \<Rightarrow> (uval + pending) \<times> WebhookEventsQueueHolder \<Rightarrow> (uval + nat) \<times> WebhookEventsQueueHolder" where
  "await_queue b p =
     (case p of
        (Inl err, h) \<Rightarrow> (Inl err, h)
      | (Inr (At_Once q), h) \<Rightarrow> (Inr q, h)
      | (Inr (Own_Promise target), h) \<Rightarrow> settle_recreate b target h
      | (Inr Join_Promise, h) \<Rightarrow> settle_recreate b None h)"

definition retry_publish :: "bullmq \<Rightarrow> ProcessWebhookEventJobData \<Rightarrow> broker \<Rightarrow> (uval + unit) \<times> broker" where
  "retry_publish b data k =
     (case await_queue b (getHealthyQueueForPublish (bk_holder k)) of
        (Inl err, h) \<Rightarrow> (Inl err, k\<lparr>bk_holder := h\<rparr>)
      | (Inr retryQueue, h) \<Rightarrow>
          (case add_job b data (k\<lparr>bk_holder := h\<rparr>) of
             (Inr _, k1) \<Rightarrow> (Inr (), on_holder markPublishSucceeded k1)
           | (Inl err, k1) \<Rightarrow> (Inl err, on_holder (markPoisoned (queue_clock b (bk_adds k1)) retryQueue err) k1)))"

definition addProcessWebhookEvent :: "bullmq \<Rightarrow> ProcessWebhookEventJobData \<Rightarrow> broker \<Rightarrow> (uval + unit) \<times> broker" where
  "addProcessWebhookEvent b data k =
     (case await_queue b (getHealthyQueueForPublish (bk_holder k)) of
        (Inl err, h) \<Rightarrow> (Inl err, k\<lparr>bk_holder := h\<rparr>)
      | (Inr firstQueue, h) \<Rightarrow>
          (case add_job b data (k\<lparr>bk_holder := h\<rparr>) of
             (Inr _, k1) \<Rightarrow> (Inr (), on_holder markPublishSucceeded k1)
           | (Inl err, k1) \<Rightarrow>
               (case await_queue b (recreateQueue (Some firstQueue)
                   (markPoisoned (queue_clock b (bk_adds k1)) firstQueue err (bk_holder k1))) of
                  (Inl err', h2) \<Rightarrow> (Inl err', k1\<lparr>bk_holder := h2\<rparr>)
                | (Inr _, h2) \<Rightarrow> retry_publish b data (k1\<lparr>bk_holder := h2\<rparr>))))"

definition publishProcessWebhookEvent :: "bullmq \<Rightarrow> ProcessWebhookEventJobData \<Rightarrow> broker \<Rightarrow> (uval + unit) \<times> broker" where
  "publishProcessWebhookEvent b data k = addProcessWebhookEvent b data k"

section \<open>Any number of publishers\<close>

text \<open>
  The three places where \<open>addProcessWebhookEvent\<close> awaits a queue, and the position of a
  publisher: before its first segment, owning a promise, waiting for the promise of another, at a settled
  promise, waiting for \<open>queue.add\<close> (its first or its second), or finished.
\<close>

datatype stage = First | Recover | Second

datatype position =
    Start | Own stage "nat option" | Join stage | Resolved stage "uval + nat" | Adding bool nat | Finished "uval + unit"

record publisher =
  pb_data :: ProcessWebhookEventJobData
  pb_at :: position
  pb_adds :: nat

record pool =
  pl_holder :: WebhookEventsQueueHolder
  pl_publishers :: "publisher list"
  pl_jobs :: "(nat \<times> ProcessWebhookEventJobData) list"

definition new_pool :: pool where
  "new_pool = \<lparr>pl_holder = new_holder, pl_publishers = [], pl_jobs = []\<rparr>"

fun enter :: "stage \<Rightarrow> (uval + pending) \<times> WebhookEventsQueueHolder \<Rightarrow> position \<times> WebhookEventsQueueHolder" where
  "enter st (Inl err, h) = (Finished (Inl err), h)"
| "enter st (Inr (At_Once q), h) = (Adding (st = First) q, h)"
| "enter st (Inr Join_Promise, h) = (Join st, h)"
| "enter st (Inr (Own_Promise t), h) = (Own st t, h)"

fun resume :: "stage \<Rightarrow> uval + nat \<Rightarrow> WebhookEventsQueueHolder \<Rightarrow> position \<times> WebhookEventsQueueHolder" where
  "resume st (Inl err) h = (Finished (Inl err), h)"
| "resume Recover (Inr q) h = enter Second (getHealthyQueueForPublish h)"
| "resume st (Inr q) h = (Adding (st = First) q, h)"

definition add_failed ::
  "int \<Rightarrow> bool \<Rightarrow> nat \<Rightarrow> uval \<Rightarrow> WebhookEventsQueueHolder \<Rightarrow> position \<times> WebhookEventsQueueHolder" where
  "add_failed now is_first q err h =
     (if is_first then enter Recover (recreateQueue (Some q) (markPoisoned now q err h))
      else (Finished (Inl err), markPoisoned now q err h))"

definition resolve :: "uval + nat \<Rightarrow> publisher \<Rightarrow> publisher" where
  "resolve r p = (case pb_at p of Join st \<Rightarrow> p\<lparr>pb_at := Resolved st r\<rparr> | _ \<Rightarrow> p)"

abbreviation set_publisher :: "nat \<Rightarrow> publisher \<Rightarrow> pool \<Rightarrow> pool" where
  "set_publisher i p s \<equiv> s\<lparr>pl_publishers := (pl_publishers s)[i := p]\<rparr>"

inductive publish_step :: "bullmq \<Rightarrow> pool \<Rightarrow> pool \<Rightarrow> bool" for b where
  submit: "publish_step b s (s\<lparr>pl_publishers := pl_publishers s @ [\<lparr>pb_data = data, pb_at = Start, pb_adds = 0\<rparr>]\<rparr>)"
| start: "i < length (pl_publishers s) \<Longrightarrow> p = pl_publishers s ! i \<Longrightarrow> pb_at p = Start \<Longrightarrow>
    enter First (getHealthyQueueForPublish (pl_holder s)) = (at, h) \<Longrightarrow>
    publish_step b s (set_publisher i (p\<lparr>pb_at := at\<rparr>) (s\<lparr>pl_holder := h\<rparr>))"
| settle: "i < length (pl_publishers s) \<Longrightarrow> p = pl_publishers s ! i \<Longrightarrow> pb_at p = Own st t \<Longrightarrow>
    settle_recreate b t (pl_holder s) = (r, h) \<Longrightarrow>
    publish_step b s (s\<lparr>pl_holder := h,
      pl_publishers := map (resolve r) ((pl_publishers s)[i := p\<lparr>pb_at := Resolved st r\<rparr>])\<rparr>)"
| resumed: "i < length (pl_publishers s) \<Longrightarrow> p = pl_publishers s ! i \<Longrightarrow> pb_at p = Resolved st r \<Longrightarrow>
    resume st r (pl_holder s) = (at, h) \<Longrightarrow>
    publish_step b s (set_publisher i (p\<lparr>pb_at := at\<rparr>) (s\<lparr>pl_holder := h\<rparr>))"
| added: "i < length (pl_publishers s) \<Longrightarrow> p = pl_publishers s ! i \<Longrightarrow> pb_at p = Adding is_first q \<Longrightarrow>
    publish_step b s (set_publisher i (p\<lparr>pb_at := Finished (Inr ()), pb_adds := Suc (pb_adds p)\<rparr>)
      (s\<lparr>pl_holder := markPublishSucceeded (pl_holder s), pl_jobs := pl_jobs s @ [(i, pb_data p)]\<rparr>))"
| failed: "i < length (pl_publishers s) \<Longrightarrow> p = pl_publishers s ! i \<Longrightarrow> pb_at p = Adding is_first q \<Longrightarrow>
    add_failed now is_first q err (pl_holder s) = (at, h) \<Longrightarrow>
    jobs = pl_jobs s \<or> jobs = pl_jobs s @ [(i, pb_data p)] \<Longrightarrow>
    publish_step b s (set_publisher i (p\<lparr>pb_at := at, pb_adds := Suc (pb_adds p)\<rparr>)
      (s\<lparr>pl_holder := h, pl_jobs := jobs\<rparr>))"
| error_event: "publish_step b s (s\<lparr>pl_holder := markPoisoned now q err (pl_holder s)\<rparr>)"
| get_queue: "publish_step b s (s\<lparr>pl_holder := snd (getQueue b (pl_holder s))\<rparr>)"
| destroy_begin: "publish_step b s (s\<lparr>pl_holder := destroy_start (pl_holder s)\<rparr>)"
| destroy_end: "qh_destroyed (pl_holder s) \<Longrightarrow> \<not> qh_recreating (pl_holder s) \<Longrightarrow>
    publish_step b s (s\<lparr>pl_holder := destroy_finish (pl_holder s)\<rparr>)"

section \<open>Queues are accounted for\<close>

definition queues_accounted :: "WebhookEventsQueueHolder \<Rightarrow> bool" where
  "queues_accounted h \<longleftrightarrow>
     (\<forall>q. qh_currentQueue h = Some q \<longrightarrow> q \<notin> set (qh_closing h)) \<and>
     set (qh_made h) = set (qh_closing h) \<union> set_option (qh_currentQueue h) \<and>
     distinct (qh_closing h) \<and> (\<forall>q\<in>set (qh_made h). q < qh_builds h)"

lemma markPoisoned_sel [simp]:
  "qh_currentQueue (markPoisoned now q err h) = qh_currentQueue h"
  "qh_recreating (markPoisoned now q err h) = qh_recreating h"
  "qh_destroyed (markPoisoned now q err h) = qh_destroyed h"
  "qh_made (markPoisoned now q err h) = qh_made h"
  "qh_closing (markPoisoned now q err h) = qh_closing h"
  "qh_builds (markPoisoned now q err h) = qh_builds h"
  by (simp_all add: markPoisoned_def Let_def split: prod.split option.split)

lemma markPublishSucceeded_sel [simp]:
  "qh_currentQueue (markPublishSucceeded h) = qh_currentQueue h"
  "qh_recreating (markPublishSucceeded h) = qh_recreating h"
  "qh_destroyed (markPublishSucceeded h) = qh_destroyed h"
  "qh_made (markPublishSucceeded h) = qh_made h"
  "qh_closing (markPublishSucceeded h) = qh_closing h"
  "qh_builds (markPublishSucceeded h) = qh_builds h"
  by (simp_all add: markPublishSucceeded_def split: prod.split)

lemma recreateQueue_sel [simp]:
  "qh_currentQueue (snd (recreateQueue t h)) = qh_currentQueue h"
  "qh_destroyed (snd (recreateQueue t h)) = qh_destroyed h"
  "qh_made (snd (recreateQueue t h)) = qh_made h"
  "qh_closing (snd (recreateQueue t h)) = qh_closing h"
  "qh_builds (snd (recreateQueue t h)) = qh_builds h"
  by (simp_all add: recreateQueue_def)

lemma getHealthy_sel [simp]:
  "qh_currentQueue (snd (getHealthyQueueForPublish h)) = qh_currentQueue h"
  "qh_destroyed (snd (getHealthyQueueForPublish h)) = qh_destroyed h"
  "qh_made (snd (getHealthyQueueForPublish h)) = qh_made h"
  "qh_closing (snd (getHealthyQueueForPublish h)) = qh_closing h"
  "qh_builds (snd (getHealthyQueueForPublish h)) = qh_builds h"
  by (simp_all add: getHealthyQueueForPublish_def split: option.split)

lemma enter_snd [simp]: "snd (enter st p) = snd p"
  by (cases "(st, p)" rule: enter.cases) simp_all

lemma resume_sel:
  "qh_currentQueue (snd (resume st r h)) = qh_currentQueue h" "qh_made (snd (resume st r h)) = qh_made h"
  "qh_closing (snd (resume st r h)) = qh_closing h" "qh_builds (snd (resume st r h)) = qh_builds h"
  "qh_destroyed (snd (resume st r h)) = qh_destroyed h"
  by (cases "(st, r, h)" rule: resume.cases; simp)+

lemma add_failed_sel:
  "qh_currentQueue (snd (add_failed now f q err h)) = qh_currentQueue h" "qh_made (snd (add_failed now f q err h)) = qh_made h"
  "qh_closing (snd (add_failed now f q err h)) = qh_closing h" "qh_builds (snd (add_failed now f q err h)) = qh_builds h"
  "qh_destroyed (snd (add_failed now f q err h)) = qh_destroyed h"
  by (simp_all add: add_failed_def)

lemma accounted_cong:
  "queues_accounted h \<Longrightarrow> qh_currentQueue h' = qh_currentQueue h \<Longrightarrow> qh_made h' = qh_made h \<Longrightarrow>
   qh_closing h' = qh_closing h \<Longrightarrow> qh_builds h' = qh_builds h \<Longrightarrow> queues_accounted h'"
  by (simp add: queues_accounted_def)

lemma replaceQueue_accounted:
  "queues_accounted h \<Longrightarrow> queues_accounted (snd (replaceQueue b (qh_currentQueue h) h))"
  by (cases "qh_currentQueue h")
    (fastforce simp: replaceQueue_def createQueue_def closeQueueSafely_def queues_accounted_def Let_def split: option.split)+

lemma getQueue_accounted: "queues_accounted h \<Longrightarrow> queues_accounted (snd (getQueue b h))"
  using replaceQueue_accounted [of h b] by (auto simp: getQueue_def split: option.split)

lemma settle_snd:
  "snd (settle_recreate b t h) =
     (if qh_currentQueue h \<noteq> None \<and> t \<noteq> None \<and> qh_currentQueue h \<noteq> t \<and> \<not> qh_poisoned h then h
      else snd (replaceQueue b (qh_currentQueue h) h))\<lparr>qh_recreating := False\<rparr>"
  by (simp add: settle_recreate_def split: prod.split)

lemma settle_accounted: "queues_accounted h \<Longrightarrow> queues_accounted (snd (settle_recreate b t h))"
proof -
  have drop: "queues_accounted h0 \<Longrightarrow> queues_accounted (h0\<lparr>qh_recreating := False\<rparr>)" for h0
    by (simp add: queues_accounted_def)
  assume "queues_accounted h"
  with replaceQueue_accounted [OF this] show ?thesis unfolding settle_snd by (auto intro!: drop)
qed

lemma destroy_accounted:
  "queues_accounted h \<Longrightarrow> queues_accounted (destroy_start h)" "queues_accounted h \<Longrightarrow> queues_accounted (destroy_finish h)"
  by (auto simp: destroy_start_def destroy_finish_def queues_accounted_def Let_def split: option.splits)

lemma step_accounted:
  assumes "publish_step b s s'" and "queues_accounted (pl_holder s)"
  shows "queues_accounted (pl_holder s')"
  using assms(1)
proof cases
  case (start i p at h)
  have "snd (getHealthyQueueForPublish (pl_holder s)) = h"
    using start(5) enter_snd [of First "getHealthyQueueForPublish (pl_holder s)"] by (simp only: snd_conv)
  from getHealthy_sel [of "pl_holder s", unfolded this] show ?thesis
    unfolding start(1) by (intro accounted_cong [OF assms(2)]) simp_all
next
  case (settle i p st t r h)
  show ?thesis using settle_accounted [OF assms(2), of b t] unfolding settle(1,5) by simp
next
  case (resumed i p st r at h)
  from resume_sel [of st r "pl_holder s", unfolded resumed(5) snd_conv] show ?thesis
    unfolding resumed(1) by (intro accounted_cong [OF assms(2)]) simp_all
next
  case (failed i p is_first q now err at h jobs)
  from add_failed_sel [of now is_first q err "pl_holder s", unfolded failed(5) snd_conv] show ?thesis
    unfolding failed(1) by (intro accounted_cong [OF assms(2)]) simp_all
next
  case (added i p is_first q)
  then show ?thesis by (intro accounted_cong [OF assms(2)]) simp_all
next
  case (error_event now q err)
  then show ?thesis by (intro accounted_cong [OF assms(2)]) simp_all
qed (use assms(2) in \<open>simp_all add: getQueue_accounted destroy_accounted\<close>)

section \<open>Promises and attempts\<close>

fun is_own :: "position \<Rightarrow> bool" where
  "is_own (Own st t) = True" | "is_own _ = False"

fun is_join :: "position \<Rightarrow> bool" where
  "is_join (Join st) = True" | "is_join _ = False"

text \<open>The number of \<open>queue.add\<close> calls a publisher has made at a position.\<close>

fun adds_at :: "position \<Rightarrow> nat \<Rightarrow> bool" where
  "adds_at Start n \<longleftrightarrow> n = 0"
| "adds_at (Own st t) n \<longleftrightarrow> n = (if st = First then 0 else 1)"
| "adds_at (Join st) n \<longleftrightarrow> n = (if st = First then 0 else 1)"
| "adds_at (Resolved st r) n \<longleftrightarrow> n = (if st = First then 0 else 1)"
| "adds_at (Adding is_first q) n \<longleftrightarrow> n = (if is_first then 0 else 1)"
| "adds_at (Finished (Inl err)) n \<longleftrightarrow> n \<le> 2"
| "adds_at (Finished (Inr u)) n \<longleftrightarrow> n \<in> {1, 2}"

definition promise_ok :: "pool \<Rightarrow> bool" where
  "promise_ok s \<longleftrightarrow>
     length (filter (is_own \<circ> pb_at) (pl_publishers s)) = (if qh_recreating (pl_holder s) then 1 else 0) \<and>
     ((\<exists>p\<in>set (pl_publishers s). is_join (pb_at p)) \<longrightarrow> qh_recreating (pl_holder s))"

definition jobs_of :: "nat \<Rightarrow> pool \<Rightarrow> ProcessWebhookEventJobData list" where
  "jobs_of i s = map snd (filter (\<lambda>(j, d). j = i) (pl_jobs s))"

definition publisher_ok :: "nat \<Rightarrow> pool \<Rightarrow> bool" where
  "publisher_ok i s \<longleftrightarrow>
     (let p = pl_publishers s ! i
      in adds_at (pb_at p) (pb_adds p) \<and> length (jobs_of i s) \<le> pb_adds p \<and> set (jobs_of i s) \<subseteq> {pb_data p} \<and>
         (pb_at p = Finished (Inr ()) \<longrightarrow> jobs_of i s \<noteq> []))"

definition publishers_ok :: "pool \<Rightarrow> bool" where
  "publishers_ok s \<longleftrightarrow>
     (\<forall>i < length (pl_publishers s). publisher_ok i s) \<and> (\<forall>(i, d)\<in>set (pl_jobs s). i < length (pl_publishers s))"

definition pool_ok :: "pool \<Rightarrow> bool" where
  "pool_ok s \<longleftrightarrow> queues_accounted (pl_holder s) \<and> promise_ok s \<and> publishers_ok s"

lemma length_filter_update:
  "i < length xs \<Longrightarrow>
   length (filter P (xs[i := y])) + (if P (xs ! i) then 1 else 0) = length (filter P xs) + (if P y then 1 else 0)"
proof -
  assume i: "i < length xs"
  have "filter P xs = filter P (take i xs @ xs ! i # drop (Suc i) xs)" using i by (simp add: id_take_nth_drop [symmetric])
  moreover have "filter P (xs[i := y]) = filter P (take i xs @ y # drop (Suc i) xs)" using i by (simp add: upd_conv_take_nth_drop)
  ultimately show ?thesis by simp
qed

lemma enter_recreate:
  assumes "enter st (recreateQueue t h) = (at, h')"
  shows "(is_own at \<longleftrightarrow> qh_recreating h' \<and> \<not> qh_recreating h) \<and> (is_join at \<longrightarrow> qh_recreating h) \<and>
    (qh_recreating h \<longrightarrow> qh_recreating h')"
  using assms by (auto simp: recreateQueue_def split: if_splits)

lemma enter_healthy:
  assumes "enter st (getHealthyQueueForPublish h) = (at, h')"
  shows "(is_own at \<longleftrightarrow> qh_recreating h' \<and> \<not> qh_recreating h) \<and> (is_join at \<longrightarrow> qh_recreating h) \<and>
    (qh_recreating h \<longrightarrow> qh_recreating h')"
  using assms enter_recreate [of st "qh_currentQueue h" h at h']
  by (auto simp: getHealthyQueueForPublish_def split: if_splits option.splits)

lemma resume_promise:
  assumes "resume st r h = (at, h')"
  shows "(is_own at \<longleftrightarrow> qh_recreating h' \<and> \<not> qh_recreating h) \<and> (is_join at \<longrightarrow> qh_recreating h) \<and>
    (qh_recreating h \<longrightarrow> qh_recreating h')"
  using assms enter_healthy [of Second h at h'] by (cases "(st, r, h)" rule: resume.cases) auto

lemma add_failed_promise:
  assumes "add_failed now f q err h = (at, h')"
  shows "(is_own at \<longleftrightarrow> qh_recreating h' \<and> \<not> qh_recreating h) \<and> (is_join at \<longrightarrow> qh_recreating h) \<and>
    (qh_recreating h \<longrightarrow> qh_recreating h')"
  using assms enter_recreate [of Recover "Some q" "markPoisoned now q err h" at h']
  by (auto simp: add_failed_def split: if_splits)

lemma promise_update:
  assumes "promise_ok s" and "i < length (pl_publishers s)" and "\<not> is_own (pb_at (pl_publishers s ! i))"
    and "(is_own (pb_at p') \<longleftrightarrow> qh_recreating h' \<and> \<not> qh_recreating (pl_holder s)) \<and>
      (is_join (pb_at p') \<longrightarrow> qh_recreating (pl_holder s)) \<and> (qh_recreating (pl_holder s) \<longrightarrow> qh_recreating h')"
  shows "promise_ok (s\<lparr>pl_publishers := (pl_publishers s)[i := p'], pl_holder := h', pl_jobs := jobs\<rparr>)"
  using assms length_filter_update [OF assms(2), of "is_own \<circ> pb_at" p'] set_update_subset_insert [of "pl_publishers s" i p']
  by (auto simp: promise_ok_def split: if_splits)

lemma publishers_update:
  assumes "publishers_ok s" and "i < length (pl_publishers s)" and "pb_data p' = pb_data (pl_publishers s ! i)"
    and "jobs = pl_jobs s \<and> pb_adds (pl_publishers s ! i) \<le> pb_adds p' \<and> (pb_at p' = Finished (Inr ()) \<longrightarrow> jobs_of i s \<noteq> []) \<or>
      jobs = pl_jobs s @ [(i, pb_data p')] \<and> Suc (pb_adds (pl_publishers s ! i)) \<le> pb_adds p'"
    and "adds_at (pb_at p') (pb_adds p')"
  shows "publishers_ok (s\<lparr>pl_publishers := (pl_publishers s)[i := p'], pl_holder := h, pl_jobs := jobs\<rparr>)"
proof -
  let ?s = "s\<lparr>pl_publishers := (pl_publishers s)[i := p'], pl_holder := h, pl_jobs := jobs\<rparr>"
  have old: "publisher_ok j s" if "j < length (pl_publishers s)" for j
    using assms(1) that by (auto simp: publishers_ok_def)
  have "publisher_ok j ?s" if j: "j < length (pl_publishers s)" for j
  proof (cases "j = i")
    case True
    from old [OF assms(2)] have "length (jobs_of i s) \<le> pb_adds (pl_publishers s ! i)"
      "set (jobs_of i s) \<subseteq> {pb_data p'}" using assms(3) by (simp_all add: publisher_ok_def Let_def)
    moreover have "jobs_of i ?s = jobs_of i s \<and> jobs = pl_jobs s \<or> jobs_of i ?s = jobs_of i s @ [pb_data p'] \<and> jobs \<noteq> pl_jobs s"
      using assms(4) by (auto simp: jobs_of_def)
    ultimately show ?thesis using True assms(2,4,5) by (auto simp: publisher_ok_def Let_def)
  next
    case False
    with assms(4) have "jobs_of j ?s = jobs_of j s" by (auto simp: jobs_of_def)
    with old [OF j] False show ?thesis by (simp add: publisher_ok_def Let_def)
  qed
  moreover have "\<forall>(j, d)\<in>set jobs. j < length (pl_publishers s)"
    using assms(1,2,4) by (auto simp: publishers_ok_def)
  ultimately show ?thesis by (simp add: publishers_ok_def)
qed

lemma enter_adds: "st \<noteq> First \<Longrightarrow> n = 1 \<Longrightarrow> adds_at (fst (enter st p)) n"
  by (cases "(st, p)" rule: enter.cases) auto

lemma enter_First_adds: "adds_at (fst (enter First p)) 0"
  by (cases "(First, p)" rule: enter.cases) auto

lemma resume_adds: "adds_at (Resolved st r) n \<Longrightarrow> adds_at (fst (resume st r h)) n"
  using enter_adds [of Second n "getHealthyQueueForPublish h"]
  by (cases "(st, r, h)" rule: resume.cases) (auto split: if_splits)

lemma add_failed_adds: "adds_at (Adding f q) n \<Longrightarrow> adds_at (fst (add_failed now f q err h)) (Suc n)"
  by (auto simp: add_failed_def intro!: enter_adds split: if_splits)

lemma enter_not_done: "fst (enter st p) \<noteq> Finished (Inr u)"
  by (cases "(st, p)" rule: enter.cases) auto

lemma resume_not_done: "fst (resume st r h) \<noteq> Finished (Inr u)"
  by (cases "(st, r, h)" rule: resume.cases) (auto simp: enter_not_done)

lemma add_failed_not_done: "fst (add_failed now f q err h) \<noteq> Finished (Inr u)"
  by (auto simp: add_failed_def enter_not_done)

lemma replaceQueue_recreating: "qh_recreating (snd (replaceQueue b t h)) = qh_recreating h"
  by (simp add: replaceQueue_def createQueue_def closeQueueSafely_def Let_def split: option.split)

lemma getQueue_recreating: "qh_recreating (snd (getQueue b h)) = qh_recreating h"
  by (simp add: getQueue_def replaceQueue_recreating split: option.split)

lemma destroy_recreating: "qh_recreating (destroy_start h) = qh_recreating h" "qh_recreating (destroy_finish h) = qh_recreating h"
  by (simp_all add: destroy_start_def destroy_finish_def Let_def split: option.split)

lemma holder_only:
  assumes "pool_ok s" and "queues_accounted h" and "qh_recreating h = qh_recreating (pl_holder s)"
  shows "pool_ok (s\<lparr>pl_holder := h\<rparr>)"
  using assms by (simp add: pool_ok_def promise_ok_def publishers_ok_def publisher_ok_def jobs_of_def Let_def)

lemma resolve_sel [simp]: "pb_data (resolve r p) = pb_data p" "pb_adds (resolve r p) = pb_adds p"
  by (simp_all add: resolve_def split: position.split)

lemma resolve_at:
  "is_own (pb_at (resolve r p)) = is_own (pb_at p)" "\<not> is_join (pb_at (resolve r p))"
  "adds_at (pb_at (resolve r p)) n = adds_at (pb_at p) n" "pb_at (resolve r p) = Finished x \<longleftrightarrow> pb_at p = Finished x"
  by (auto simp: resolve_def split: position.split)

lemma settle_pool_ok:
  assumes "pool_ok s" and i: "i < length (pl_publishers s)" and at: "pb_at (pl_publishers s ! i) = Own st t"
    and run: "settle_recreate b t (pl_holder s) = (r, h)"
  shows "pool_ok (s\<lparr>pl_holder := h,
    pl_publishers := map (resolve r) ((pl_publishers s)[i := (pl_publishers s ! i)\<lparr>pb_at := Resolved st r\<rparr>])\<rparr>)"
proof -
  let ?p = "(pl_publishers s ! i)\<lparr>pb_at := Resolved st r\<rparr>" and ?ps = "pl_publishers s"
  have h: "queues_accounted h" "\<not> qh_recreating h"
    using settle_accounted [of "pl_holder s" b t] settle_snd [of b t "pl_holder s"] assms(1) run by (simp_all add: pool_ok_def)
  have own: "length (filter (is_own \<circ> pb_at) ?ps) \<le> 1" using assms(1) by (simp add: pool_ok_def promise_ok_def split: if_splits)
  have "length (filter (is_own \<circ> pb_at) (?ps[i := ?p])) = 0"
    using length_filter_update [OF i, of "is_own \<circ> pb_at" ?p] own at by (simp del: length_0_conv)
  then have "filter (is_own \<circ> pb_at) (map (resolve r) (?ps[i := ?p])) = []" by (simp add: filter_map comp_def resolve_at)
  then have promise: "promise_ok (s\<lparr>pl_holder := h, pl_publishers := map (resolve r) (?ps[i := ?p])\<rparr>)"
    using h(2) by (auto simp: promise_ok_def resolve_at)
  have "publisher_ok j (s\<lparr>pl_holder := h, pl_publishers := map (resolve r) (?ps[i := ?p])\<rparr>)" if j: "j < length ?ps" for j
  proof -
    have old: "publisher_ok j s" using assms(1) j by (simp add: pool_ok_def publishers_ok_def)
    have "adds_at (pb_at ?p) n = adds_at (pb_at (?ps ! i)) n" for n using at by simp
    with old j at show ?thesis by (cases "j = i") (simp_all add: publisher_ok_def Let_def resolve_at jobs_of_def)
  qed
  then show ?thesis using h promise assms(1) by (simp add: pool_ok_def publishers_ok_def)
qed

lemma publisher_step_ok:
  assumes "pool_ok s" and "i < length (pl_publishers s)" and "\<not> is_own (pb_at (pl_publishers s ! i))"
    and "queues_accounted h" and "pb_data p' = pb_data (pl_publishers s ! i)"
    and "(is_own (pb_at p') \<longleftrightarrow> qh_recreating h \<and> \<not> qh_recreating (pl_holder s)) \<and>
      (is_join (pb_at p') \<longrightarrow> qh_recreating (pl_holder s)) \<and> (qh_recreating (pl_holder s) \<longrightarrow> qh_recreating h)"
    and "jobs = pl_jobs s \<and> pb_adds (pl_publishers s ! i) \<le> pb_adds p' \<and> (pb_at p' = Finished (Inr ()) \<longrightarrow> jobs_of i s \<noteq> []) \<or>
      jobs = pl_jobs s @ [(i, pb_data p')] \<and> Suc (pb_adds (pl_publishers s ! i)) \<le> pb_adds p'"
    and "adds_at (pb_at p') (pb_adds p')"
  shows "pool_ok (s\<lparr>pl_publishers := (pl_publishers s)[i := p'], pl_holder := h, pl_jobs := jobs\<rparr>)"
  using promise_update [OF _ assms(2,3,6), of jobs] publishers_update [OF _ assms(2,5,7,8), of h] assms(1,4)
  by (simp add: pool_ok_def)

lemma publisher_adds:
  "pool_ok s \<Longrightarrow> i < length (pl_publishers s) \<Longrightarrow> adds_at (pb_at (pl_publishers s ! i)) (pb_adds (pl_publishers s ! i))"
  by (simp add: pool_ok_def publishers_ok_def publisher_ok_def Let_def)

lemma step_pool_ok:
  assumes "publish_step b s s'" and ok: "pool_ok s"
  shows "pool_ok s'"
proof -
  have accounted: "queues_accounted (pl_holder s)" using ok by (simp add: pool_ok_def)
  show ?thesis using assms(1)
  proof cases
    case (submit data)
    have "publisher_ok i s'" if "i < length (pl_publishers s')" for i
    proof (cases "i < length (pl_publishers s)")
      case True
      with ok submit show ?thesis
        by (simp add: pool_ok_def publishers_ok_def publisher_ok_def jobs_of_def Let_def nth_append)
    next
      case False
      with that submit have i: "i = length (pl_publishers s)" by simp
      moreover have "jobs_of i s = []" using ok i by (fastforce simp: pool_ok_def publishers_ok_def jobs_of_def filter_empty_conv)
      ultimately show ?thesis using submit by (simp add: publisher_ok_def jobs_of_def Let_def nth_append)
    qed
    moreover have "\<forall>(i, d)\<in>set (pl_jobs s). i < Suc (length (pl_publishers s))"
      using ok by (auto simp: pool_ok_def publishers_ok_def less_Suc_eq)
    ultimately show ?thesis using ok submit by (simp add: pool_ok_def promise_ok_def publishers_ok_def)
  next
    case (start i p at h)
    have "queues_accounted h" using step_accounted [OF assms(1)] ok start(1) by (simp add: pool_ok_def)
    moreover have s': "s' = s\<lparr>pl_publishers := (pl_publishers s)[i := p\<lparr>pb_at := at\<rparr>], pl_holder := h, pl_jobs := pl_jobs s\<rparr>"
      using start(1) by simp
    ultimately show ?thesis unfolding s'
      using start enter_healthy [OF start(5)] ok enter_First_adds [of "getHealthyQueueForPublish (pl_holder s)"]
        enter_not_done [of First "getHealthyQueueForPublish (pl_holder s)"] publisher_adds [OF ok start(2)]
      by (intro publisher_step_ok) simp_all
  next
    case (settle i p st t r h)
    then show ?thesis using settle_pool_ok [OF ok, of i st t b r h] by simp
  next
    case (resumed i p st r at h)
    have "queues_accounted h" using step_accounted [OF assms(1)] ok resumed(1) by (simp add: pool_ok_def)
    moreover have s': "s' = s\<lparr>pl_publishers := (pl_publishers s)[i := p\<lparr>pb_at := at\<rparr>], pl_holder := h, pl_jobs := pl_jobs s\<rparr>"
      using resumed(1) by simp
    ultimately show ?thesis unfolding s'
      using resumed resume_promise [OF resumed(5)] ok resume_adds [of st r "pb_adds p" "pl_holder s"]
        resume_not_done [of st r "pl_holder s"] publisher_adds [OF ok resumed(2)]
      by (intro publisher_step_ok) simp_all
  next
    case (added i p is_first q)
    have "queues_accounted (markPublishSucceeded (pl_holder s))"
      using step_accounted [OF assms(1)] ok added(1) by (simp add: pool_ok_def)
    moreover have s': "s' = s\<lparr>pl_publishers := (pl_publishers s)[i := p\<lparr>pb_at := Finished (Inr ()), pb_adds := Suc (pb_adds p)\<rparr>], pl_holder := markPublishSucceeded (pl_holder s), pl_jobs := pl_jobs s @ [(i, pb_data p)]\<rparr>"
      using added(1) by simp
    ultimately show ?thesis unfolding s'
      using added ok publisher_adds [OF ok added(2)] by (intro publisher_step_ok) (simp_all split: if_splits)
  next
    case (failed i p is_first q now err at h jobs)
    have "queues_accounted h" using step_accounted [OF assms(1)] ok failed(1) by (simp add: pool_ok_def)
    moreover have s': "s' = s\<lparr>pl_publishers := (pl_publishers s)[i := p\<lparr>pb_at := at, pb_adds := Suc (pb_adds p)\<rparr>], pl_holder := h, pl_jobs := jobs\<rparr>"
      using failed(1) by simp
    ultimately show ?thesis unfolding s'
      using failed add_failed_promise [OF failed(5)] ok add_failed_adds [of is_first q "pb_adds p" now err "pl_holder s"]
        add_failed_not_done [of now is_first q err "pl_holder s"] publisher_adds [OF ok failed(2)]
      by (intro publisher_step_ok) auto
  next
    case (error_event now q err)
    then show ?thesis using holder_only [OF ok] step_accounted [OF assms(1) accounted] by simp
  next
    case get_queue
    then show ?thesis using holder_only [OF ok getQueue_accounted [OF accounted]] by (simp add: getQueue_recreating)
  next
    case destroy_begin
    then show ?thesis using holder_only [OF ok destroy_accounted(1) [OF accounted]] by (simp add: destroy_recreating)
  next
    case destroy_end
    then show ?thesis using holder_only [OF ok destroy_accounted(2) [OF accounted]] by (simp add: destroy_recreating)
  qed
qed

lemma new_pool_ok: "pool_ok new_pool"
  by (simp add: pool_ok_def new_pool_def new_holder_def queues_accounted_def promise_ok_def publishers_ok_def)

lemma reachable_pool_ok: "(publish_step b)\<^sup>*\<^sup>* new_pool s \<Longrightarrow> pool_ok s"
  by (induction rule: rtranclp_induct) (auto intro: new_pool_ok step_pool_ok)

section \<open>Progress\<close>

text \<open>How many steps a publisher has at most ahead of it.\<close>

fun rank :: "position \<Rightarrow> nat" where
  "rank Start = 9"
| "rank (Own st t) = (case st of First \<Rightarrow> 8 | Recover \<Rightarrow> 5 | Second \<Rightarrow> 3)"
| "rank (Join st) = (case st of First \<Rightarrow> 8 | Recover \<Rightarrow> 5 | Second \<Rightarrow> 3)"
| "rank (Resolved st r) = (case st of First \<Rightarrow> 7 | Recover \<Rightarrow> 4 | Second \<Rightarrow> 2)"
| "rank (Adding is_first q) = (if is_first then 6 else 1)"
| "rank (Finished r) = 0"

definition pool_rank :: "pool \<Rightarrow> nat" where
  "pool_rank s = sum_list (map (rank \<circ> pb_at) (pl_publishers s))"

lemma enter_rank: "rank (fst (enter st p)) < (case st of First \<Rightarrow> 9 | Recover \<Rightarrow> 7 | Second \<Rightarrow> 4)"
  if "st = Recover \<Longrightarrow> \<forall>q. fst p \<noteq> Inr (At_Once q)"
  using that by (cases "(st, p)" rule: enter.cases) (auto split: stage.split)

lemma resume_rank: "rank (fst (resume st r h)) < rank (Resolved st r)"
  using enter_rank [of Second "getHealthyQueueForPublish h"]
  by (cases "(st, r, h)" rule: resume.cases) (auto split: stage.split)

lemma recreate_not_at_once: "fst (recreateQueue t h) \<noteq> Inr (At_Once q)"
  by (simp add: recreateQueue_def)

lemma add_failed_rank: "rank (fst (add_failed now f q err h)) < rank (Adding f q)"
proof (cases f)
  case True
  have "rank (fst (enter Recover (recreateQueue t h'))) < 6" for t h'
    by (auto simp: recreateQueue_def)
  with True show ?thesis by (simp add: add_failed_def)
qed (simp add: add_failed_def)

lemma rank_update:
  assumes "i < length ps" and "rank (pb_at p') < rank (pb_at (ps ! i))"
  shows "sum_list (map (rank \<circ> pb_at) (ps[i := p'])) < sum_list (map (rank \<circ> pb_at) ps)"
proof -
  have "ps = take i ps @ ps ! i # drop (Suc i) ps" using assms(1) by (simp add: id_take_nth_drop [symmetric])
  then have "sum_list (map (rank \<circ> pb_at) ps) = sum_list (map (rank \<circ> pb_at) (take i ps @ ps ! i # drop (Suc i) ps))" by simp
  then show ?thesis using assms by (simp add: upd_conv_take_nth_drop)
qed

lemma resolve_rank: "rank (pb_at (resolve r p)) \<le> rank (pb_at p)"
  by (auto simp: resolve_def split: position.split stage.split)

lemma settle_rank:
  assumes "i < length ps" and "pb_at (ps ! i) = Own st t"
  shows "sum_list (map (rank \<circ> pb_at) (map (resolve r) (ps[i := (ps ! i)\<lparr>pb_at := Resolved st r\<rparr>]))) < sum_list (map (rank \<circ> pb_at) ps)"
proof -
  let ?ps = "ps[i := (ps ! i)\<lparr>pb_at := Resolved st r\<rparr>]"
  have "sum_list (map (rank \<circ> pb_at) (map (resolve r) ?ps)) \<le> sum_list (map (rank \<circ> pb_at) ?ps)"
    unfolding map_map by (rule sum_list_mono) (simp add: resolve_rank)
  also have "\<dots> < sum_list (map (rank \<circ> pb_at) ps)"
    using assms by (intro rank_update) (auto split: stage.split)
  finally show ?thesis .
qed

lemma publisher_can_step:
  assumes "promise_ok s" and i: "i < length (pl_publishers s)" and "\<forall>r. pb_at (pl_publishers s ! i) \<noteq> Finished r"
  shows "\<exists>s'. publish_step b s s' \<and> length (pl_publishers s') = length (pl_publishers s) \<and> pool_rank s' < pool_rank s"
proof -
  let ?p = "pl_publishers s ! i"
  have own: "\<exists>s'. publish_step b s s' \<and> length (pl_publishers s') = length (pl_publishers s) \<and> pool_rank s' < pool_rank s"
    if j: "j < length (pl_publishers s)" "pb_at (pl_publishers s ! j) = Own st t" for j st t
  proof -
    obtain r h where "settle_recreate b t (pl_holder s) = (r, h)" by (cases "settle_recreate b t (pl_holder s)")
    from publish_step.settle [OF j(1) refl j(2) this] settle_rank [OF j, of r] show ?thesis
      by (auto simp: pool_rank_def)
  qed
  show ?thesis
  proof (cases "pb_at ?p")
    case Start
    obtain at h where e: "enter First (getHealthyQueueForPublish (pl_holder s)) = (at, h)"
      by (cases "enter First (getHealthyQueueForPublish (pl_holder s))")
    have "rank at < 9" using enter_rank [of First "getHealthyQueueForPublish (pl_holder s)"] e by simp
    with publish_step.start [OF i refl Start e] rank_update [OF i, of "?p\<lparr>pb_at := at\<rparr>"] Start show ?thesis
      by (auto simp: pool_rank_def intro!: exI)
  next
    case (Own st t)
    then show ?thesis by (rule own [OF i])
  next
    case (Join st)
    with assms(1) i have "qh_recreating (pl_holder s)" unfolding promise_ok_def by (metis is_join.simps(1) nth_mem)
    with assms(1) have "filter (is_own \<circ> pb_at) (pl_publishers s) \<noteq> []" by (auto simp: promise_ok_def)
    then obtain j where "j < length (pl_publishers s)" "is_own (pb_at (pl_publishers s ! j))"
      by (auto simp: filter_empty_conv in_set_conv_nth)
    then show ?thesis using own by (metis is_own.elims(2))
  next
    case (Resolved st r)
    obtain at h where e: "resume st r (pl_holder s) = (at, h)" by (cases "resume st r (pl_holder s)")
    from publish_step.resumed [OF i refl Resolved e] resume_rank [of st r "pl_holder s"]
      rank_update [OF i, of "?p\<lparr>pb_at := at\<rparr>"] Resolved e show ?thesis
      by (auto simp: pool_rank_def intro!: exI)
  next
    case (Adding f q)
    from publish_step.added [OF i refl Adding]
      rank_update [OF i, of "?p\<lparr>pb_at := Finished (Inr ()), pb_adds := Suc (pb_adds ?p)\<rparr>"] Adding show ?thesis
      by (auto simp: pool_rank_def intro!: exI)
  next
    case (Finished r)
    with assms(3) show ?thesis by simp
  qed
qed

lemma step_rank_le:
  assumes "publish_step b s s'" and "length (pl_publishers s') = length (pl_publishers s)"
  shows "pool_rank s' \<le> pool_rank s"
  using assms(1)
proof cases
  case (submit data)
  with assms(2) show ?thesis by simp
next
  case (start i p at h)
  from start enter_rank [of First "getHealthyQueueForPublish (pl_holder s)"] rank_update [OF start(2), of "p\<lparr>pb_at := at\<rparr>"]
  show ?thesis by (simp add: pool_rank_def)
next
  case (settle i p st t r h)
  with settle_rank [of i "pl_publishers s" st t r] show ?thesis by (simp add: pool_rank_def)
next
  case (resumed i p st r at h)
  with resume_rank [of st r "pl_holder s"] rank_update [OF resumed(2), of "p\<lparr>pb_at := at\<rparr>"]
  show ?thesis by (simp add: pool_rank_def)
next
  case (added i p is_first q)
  with rank_update [OF added(2), of "p\<lparr>pb_at := Finished (Inr ()), pb_adds := Suc (pb_adds p)\<rparr>"]
  show ?thesis by (cases is_first) (simp_all add: pool_rank_def)
next
  case (failed i p is_first q now err at h jobs)
  with add_failed_rank [of now is_first q err "pl_holder s"]
    rank_update [OF failed(2), of "p\<lparr>pb_at := at, pb_adds := Suc (pb_adds p)\<rparr>"]
  show ?thesis by (simp add: pool_rank_def)
qed (simp_all add: pool_rank_def)

section \<open>A publisher alone\<close>

lemma getHealthyQueueForPublish_solo:
  assumes "\<not> qh_recreating h"
  shows "fst (getHealthyQueueForPublish h) \<noteq> Inr Join_Promise" "fst (recreateQueue t h) \<noteq> Inr Join_Promise"
  using assms by (auto simp: getHealthyQueueForPublish_def recreateQueue_def split: option.split)

lemma settle_recreating: "\<not> qh_recreating (snd (settle_recreate b t h))"
  by (simp add: settle_snd)

lemma await_recreating:
  assumes "\<not> qh_recreating h"
  shows "\<not> qh_recreating (snd (await_queue b (getHealthyQueueForPublish h)))"
    "\<not> qh_recreating (snd (await_queue b (recreateQueue t h)))"
  using assms settle_recreating
  by (auto simp: await_queue_def getHealthyQueueForPublish_def recreateQueue_def split: option.split)

lemma add_job_recreating: "qh_recreating (bk_holder (snd (add_job b data k))) = qh_recreating (bk_holder k)"
proof -
  have keep: "qh_recreating (fold (\<lambda>(q, err). markPoisoned now q err) es h) = qh_recreating h" for now es h
    by (induction es arbitrary: h) (simp_all add: split_beta)
  show ?thesis by (cases "add_result b (bk_adds k)") (simp_all add: add_job_def Let_def keep)
qed

text \<open>The pool with one publisher.\<close>

definition solo :: "ProcessWebhookEventJobData \<Rightarrow> WebhookEventsQueueHolder \<Rightarrow> position \<Rightarrow> nat \<Rightarrow>
    (nat \<times> ProcessWebhookEventJobData) list \<Rightarrow> pool" where
  "solo data h at n jobs =
     \<lparr>pl_holder = h, pl_publishers = [\<lparr>pb_data = data, pb_at = at, pb_adds = n\<rparr>], pl_jobs = jobs\<rparr>"

abbreviation steps :: "bullmq \<Rightarrow> pool \<Rightarrow> pool \<Rightarrow> bool" where
  "steps b \<equiv> (publish_step b)\<^sup>*\<^sup>*"

lemma solo_start:
  "enter First (getHealthyQueueForPublish h) = (at, h') \<Longrightarrow> publish_step b (solo data h Start n jobs) (solo data h' at n jobs)"
  using publish_step.start [of 0 "solo data h Start n jobs" _ at h' b] by (simp add: solo_def)

lemma solo_settle:
  "settle_recreate b t h = (r, h') \<Longrightarrow>
   publish_step b (solo data h (Own st t) n jobs) (solo data h' (Resolved st r) n jobs)"
  using publish_step.settle [of 0 "solo data h (Own st t) n jobs" _ st t b r h'] by (simp add: solo_def resolve_def)

lemma solo_resumed:
  "resume st r h = (at, h') \<Longrightarrow> publish_step b (solo data h (Resolved st r) n jobs) (solo data h' at n jobs)"
  using publish_step.resumed [of 0 "solo data h (Resolved st r) n jobs" _ st r at h' b] by (simp add: solo_def)

lemma solo_added:
  "publish_step b (solo data h (Adding f q) n jobs)
     (solo data (markPublishSucceeded h) (Finished (Inr ())) (Suc n) (jobs @ [(0, data)]))"
  using publish_step.added [of 0 "solo data h (Adding f q) n jobs" _ f q b] by (simp add: solo_def)

lemma solo_failed:
  "add_failed now f q err h = (at, h') \<Longrightarrow> jobs' = jobs \<or> jobs' = jobs @ [(0, data)] \<Longrightarrow>
   publish_step b (solo data h (Adding f q) n jobs) (solo data h' at (Suc n) jobs')"
  using publish_step.failed [of 0 "solo data h (Adding f q) n jobs" _ f q now err at h' jobs' b] by (simp add: solo_def)

lemma solo_errors:
  "steps b (solo data h at n jobs) (solo data (fold (\<lambda>(q, err). markPoisoned now q err) es h) at n jobs)"
proof (induction es arbitrary: h)
  case (Cons e es)
  obtain q err where e: "e = (q, err)" by (cases e)
  have "publish_step b (solo data h at n jobs) (solo data (markPoisoned now q err h) at n jobs)"
    using publish_step.error_event [of b "solo data h at n jobs" now q err] by (simp add: solo_def)
  with Cons.IH [of "markPoisoned now q err h"] e show ?case by (simp add: converse_rtranclp_into_rtranclp)
qed simp

lemma resume_queue: "st \<noteq> Recover \<Longrightarrow> resume st (Inr q) h = (Adding (st = First) q, h)"
  by (cases st) simp_all

text \<open>Awaiting a queue, in the first and in the second attempt.\<close>

lemma solo_await:
  assumes "enter st p = (at, h)" and "fst p \<noteq> Inr Join_Promise" and "st \<noteq> Recover" and "await_queue b p = (r, h')"
  shows "steps b (solo data h at n jobs)
    (solo data h' (case r of Inl err \<Rightarrow> Finished (Inl err) | Inr q \<Rightarrow> Adding (st = First) q) n jobs)"
  using assms
proof (cases "(st, p)" rule: enter.cases)
  case (4 st' t h0)
  with assms have s: "settle_recreate b t h = (r, h')" and at: "at = Own st t" by (auto simp: await_queue_def)
  have "resume st r h' = (case r of Inl err \<Rightarrow> Finished (Inl err) | Inr q \<Rightarrow> Adding (st = First) q, h')"
    using assms(3) by (cases r) (simp_all add: resume_queue)
  from solo_settle [OF s] solo_resumed [OF this] at show ?thesis
    by (meson converse_rtranclp_into_rtranclp r_into_rtranclp)
qed (auto simp: await_queue_def)

lemma solo_add:
  assumes "add_job b data (k\<lparr>bk_holder := hk\<rparr>) = (r, k')"
  obtains jobs' where "bk_jobs k' = bk_jobs k @ map snd jobs'"
    "case r of
       Inr u \<Rightarrow> steps b (solo data hk (Adding f q) n jobs)
         (solo data (markPublishSucceeded (bk_holder k')) (Finished (Inr ())) (Suc n) (jobs @ jobs'))
     | Inl err \<Rightarrow> \<forall>now at h2. add_failed now f q err (bk_holder k') = (at, h2) \<longrightarrow>
         steps b (solo data hk (Adding f q) n jobs) (solo data h2 at (Suc n) (jobs @ jobs'))"
proof -
  define h where "h = fold (\<lambda>(q, err). markPoisoned (queue_clock b (bk_adds k)) q err) (error_events b (bk_adds k)) hk"
  have e: "steps b (solo data hk (Adding f q) n jobs) (solo data h (Adding f q) n jobs)"
    unfolding h_def by (rule solo_errors)
  have f: "steps b (solo data hk (Adding f q) n jobs) (solo data h2 at (Suc n) (jobs @ jobs'))"
    if "add_failed now f q err h = (at, h2)" "jobs' = [] \<or> jobs' = [(0, data)]" for now err at h2 jobs'
    using rtranclp.rtrancl_into_rtrancl [OF e solo_failed [OF that(1), of "jobs @ jobs'"]] that(2) by simp
  show thesis
  proof (cases "add_result b (bk_adds k)")
    case Added
    then have "r = Inr ()" "bk_holder k' = h" "bk_jobs k' = bk_jobs k @ [data]"
      using assms by (auto simp: add_job_def h_def Let_def)
    with rtranclp.rtrancl_into_rtrancl [OF e solo_added] show thesis by (intro that [of "[(0, data)]"]) simp_all
  next
    case (Not_Added err)
    then have "r = Inl err" "bk_holder k' = h" "bk_jobs k' = bk_jobs k"
      using assms by (auto simp: add_job_def h_def Let_def)
    with f [of _ err _ _ "[]"] show thesis by (intro that [of "[]"]) simp_all
  next
    case (Added_Unacknowledged err)
    then have "r = Inl err" "bk_holder k' = h" "bk_jobs k' = bk_jobs k @ [data]"
      using assms by (auto simp: add_job_def h_def Let_def)
    with f [of _ err _ _ "[(0, data)]"] show thesis by (intro that [of "[(0, data)]"]) simp_all
  qed
qed

lemma two_steps: "publish_step b s s1 \<Longrightarrow> publish_step b s1 s2 \<Longrightarrow> steps b s s2"
  by (meson converse_rtranclp_into_rtranclp r_into_rtranclp)

lemma retry_simulated:
  assumes "retry_publish b data k = (r, k')" and "\<not> qh_recreating (bk_holder k)"
    and "enter Second (getHealthyQueueForPublish (bk_holder k)) = (at, h)"
  shows "\<exists>jobs' n'. bk_jobs k' = bk_jobs k @ map snd jobs' \<and> \<not> qh_recreating (bk_holder k') \<and>
    steps b (solo data h at n jobs) (solo data (bk_holder k') (Finished r) n' (jobs @ jobs'))"
proof (cases "await_queue b (getHealthyQueueForPublish (bk_holder k))")
  case (Pair r1 h1)
  note w = solo_await [OF assms(3) getHealthyQueueForPublish_solo(1) [OF assms(2)] _ Pair, of data n jobs]
  have h1: "\<not> qh_recreating h1" using await_recreating(1) [OF assms(2), of b] Pair by simp
  show ?thesis
  proof (cases r1)
    case (Inl err)
    with assms(1) Pair have "r = Inl err" "k' = k\<lparr>bk_holder := h1\<rparr>" by (simp_all add: retry_publish_def)
    with w Inl h1 show ?thesis by (intro exI [of _ "[]"] exI [of _ n]) simp
  next
    case (Inr q)
    obtain r2 k2 where add: "add_job b data (k\<lparr>bk_holder := h1\<rparr>) = (r2, k2)" by (cases "add_job b data (k\<lparr>bk_holder := h1\<rparr>)")
    have keep: "\<not> qh_recreating (bk_holder k2)" using add_job_recreating [of b data "k\<lparr>bk_holder := h1\<rparr>"] add h1 by simp
    obtain jobs' where jobs': "bk_jobs k2 = bk_jobs k @ map snd jobs'"
      and st: "case r2 of
         Inr u \<Rightarrow> steps b (solo data h1 (Adding False q) n jobs)
           (solo data (markPublishSucceeded (bk_holder k2)) (Finished (Inr ())) (Suc n) (jobs @ jobs'))
       | Inl err \<Rightarrow> \<forall>now at h2. add_failed now False q err (bk_holder k2) = (at, h2) \<longrightarrow>
           steps b (solo data h1 (Adding False q) n jobs) (solo data h2 at (Suc n) (jobs @ jobs'))"
      by (rule solo_add [OF add])
    show ?thesis
    proof (cases r2)
      case (Inl err)
      with assms(1) Pair Inr add have "r = Inl err"
        "k' = on_holder (markPoisoned (queue_clock b (bk_adds k2)) q err) k2" by (simp_all add: retry_publish_def)
      with w Inr st Inl jobs' keep show ?thesis
        by (intro exI [of _ jobs'] exI [of _ "Suc n"]) (auto simp: on_holder_def add_failed_def elim: rtranclp_trans)
    next
      case r2: (Inr u)
      with assms(1) Pair Inr add have "r = Inr ()" "k' = on_holder markPublishSucceeded k2" by (simp_all add: retry_publish_def)
      with w Inr st r2 jobs' keep show ?thesis
        by (intro exI [of _ jobs'] exI [of _ "Suc n"]) (auto simp: on_holder_def)
    qed
  qed
qed

text \<open>The recovery after a failed first attempt.\<close>

lemma recover_simulated:
  assumes "await_queue b (recreateQueue (Some q) h) = (r, h')" and "\<not> qh_recreating h"
    and "enter Recover (recreateQueue (Some q) h) = (at, h0)"
  shows "steps b (solo data h0 at n jobs)
    (case r of Inl err \<Rightarrow> solo data h' (Finished (Inl err)) n jobs
     | Inr _ \<Rightarrow> (case enter Second (getHealthyQueueForPublish h') of (at', h2) \<Rightarrow> solo data h2 at' n jobs))"
proof (cases "qh_destroyed h")
  case True
  with assms show ?thesis by (auto simp: recreateQueue_def await_queue_def)
next
  case False
  with assms have at: "at = Own Recover (Some q)" and s: "settle_recreate b (Some q) h0 = (r, h')"
    by (auto simp: recreateQueue_def await_queue_def)
  show ?thesis
  proof (cases r)
    case (Inl err)
    then have "resume Recover r h' = (Finished (Inl err), h')" by simp
    from two_steps [OF solo_settle [OF s] solo_resumed [OF this]] Inl at show ?thesis by simp
  next
    case (Inr q')
    obtain at' h2 where e: "enter Second (getHealthyQueueForPublish h') = (at', h2)"
      by (cases "enter Second (getHealthyQueueForPublish h')")
    with Inr have "resume Recover r h' = (at', h2)" by simp
    from two_steps [OF solo_settle [OF s] solo_resumed [OF this]] Inr at e show ?thesis by simp
  qed
qed

lemma publish_run_simulated:
  assumes "addProcessWebhookEvent b data k = (r, k')" and "\<not> qh_recreating (bk_holder k)"
  shows "\<exists>jobs n. bk_jobs k' = bk_jobs k @ map snd jobs \<and> \<not> qh_recreating (bk_holder k') \<and>
    steps b (solo data (bk_holder k) Start 0 []) (solo data (bk_holder k') (Finished r) n jobs)"
proof -
  obtain at h where e: "enter First (getHealthyQueueForPublish (bk_holder k)) = (at, h)"
    by (cases "enter First (getHealthyQueueForPublish (bk_holder k))")
  obtain r1 h1 where a: "await_queue b (getHealthyQueueForPublish (bk_holder k)) = (r1, h1)"
    by (cases "await_queue b (getHealthyQueueForPublish (bk_holder k))")
  have h1: "\<not> qh_recreating h1" using await_recreating(1) [OF assms(2), of b] a by simp
  have w: "steps b (solo data (bk_holder k) Start 0 [])
      (solo data h1 (case r1 of Inl err \<Rightarrow> Finished (Inl err) | Inr q \<Rightarrow> Adding True q) 0 [])"
    using converse_rtranclp_into_rtranclp [OF solo_start [OF e, of b data 0 "[]"]
        solo_await [OF e getHealthyQueueForPublish_solo(1) [OF assms(2)] _ a, of data 0 "[]"]]
    by (cases r1) simp_all
  show ?thesis
  proof (cases r1)
    case (Inl err)
    with assms(1) a have "r = Inl err" "k' = k\<lparr>bk_holder := h1\<rparr>" by (simp_all add: addProcessWebhookEvent_def)
    with w Inl h1 show ?thesis by (intro exI [of _ "[]"] exI [of _ 0]) simp
  next
    case (Inr q)
    obtain r2 k2 where add: "add_job b data (k\<lparr>bk_holder := h1\<rparr>) = (r2, k2)" by (cases "add_job b data (k\<lparr>bk_holder := h1\<rparr>)")
    have keep: "\<not> qh_recreating (bk_holder k2)" using add_job_recreating [of b data "k\<lparr>bk_holder := h1\<rparr>"] add h1 by simp
    obtain jobs' where jobs': "bk_jobs k2 = bk_jobs k @ map snd jobs'"
      and st: "case r2 of
         Inr u \<Rightarrow> steps b (solo data h1 (Adding True q) 0 [])
           (solo data (markPublishSucceeded (bk_holder k2)) (Finished (Inr ())) (Suc 0) ([] @ jobs'))
       | Inl err \<Rightarrow> \<forall>now at h2. add_failed now True q err (bk_holder k2) = (at, h2) \<longrightarrow>
           steps b (solo data h1 (Adding True q) 0 []) (solo data h2 at (Suc 0) ([] @ jobs'))"
      by (rule solo_add [OF add])
    show ?thesis
    proof (cases r2)
      case r2: (Inr u)
      with assms(1) a Inr add have "r = Inr ()" "k' = on_holder markPublishSucceeded k2"
        by (simp_all add: addProcessWebhookEvent_def)
      with w Inr st r2 jobs' keep show ?thesis
        by (intro exI [of _ jobs'] exI [of _ 1]) (auto simp: on_holder_def)
    next
      case r2: (Inl err)
      let ?now = "queue_clock b (bk_adds k2)"
      let ?hp = "markPoisoned ?now q err (bk_holder k2)"
      obtain at0 h0 where e0: "enter Recover (recreateQueue (Some q) ?hp) = (at0, h0)"
        by (cases "enter Recover (recreateQueue (Some q) ?hp)")
      obtain r3 h3 where a3: "await_queue b (recreateQueue (Some q) ?hp) = (r3, h3)"
        by (cases "await_queue b (recreateQueue (Some q) ?hp)")
      have hp: "\<not> qh_recreating ?hp" using keep by simp
      have "steps b (solo data h1 (Adding True q) 0 []) (solo data h0 at0 1 jobs')"
        using st r2 e0 by (auto simp: add_failed_def)
      with w Inr recover_simulated [OF a3 hp e0, of data 1 jobs']
      have to3: "steps b (solo data (bk_holder k) Start 0 [])
          (case r3 of Inl err \<Rightarrow> solo data h3 (Finished (Inl err)) 1 jobs'
           | Inr _ \<Rightarrow> (case enter Second (getHealthyQueueForPublish h3) of (at', h2) \<Rightarrow> solo data h2 at' 1 jobs'))"
        by (auto elim: rtranclp_trans)
      have h3: "\<not> qh_recreating h3" using await_recreating(2) [OF hp, of b "Some q"] a3 by simp
      show ?thesis
      proof (cases r3)
        case r3: (Inl err')
        with assms(1) a Inr add r2 a3 have "r = Inl err'" "k' = k2\<lparr>bk_holder := h3\<rparr>"
          by (simp_all add: addProcessWebhookEvent_def)
        with to3 r3 h3 jobs' show ?thesis by (intro exI [of _ jobs'] exI [of _ 1]) simp
      next
        case r3: (Inr q')
        obtain at' h2 where e2: "enter Second (getHealthyQueueForPublish h3) = (at', h2)"
          by (cases "enter Second (getHealthyQueueForPublish h3)")
        from assms(1) a Inr add r2 a3 r3 have "retry_publish b data (k2\<lparr>bk_holder := h3\<rparr>) = (r, k')"
          by (simp add: addProcessWebhookEvent_def)
        from retry_simulated [OF this, of at' h2 1 jobs'] h3 e2 obtain jobs2 n' where
          "bk_jobs k' = bk_jobs k2 @ map snd jobs2" "\<not> qh_recreating (bk_holder k')"
          "steps b (solo data h2 at' 1 jobs') (solo data (bk_holder k') (Finished r) n' (jobs' @ jobs2))" by auto
        with to3 r3 e2 jobs' show ?thesis
          by (intro exI [of _ "jobs' @ jobs2"] exI [of _ n']) (auto elim: rtranclp_trans)
      qed
    qed
  qed
qed

section \<open>What a publication leaves in the queue\<close>

lemma add_job_jobs:
  assumes "add_job b data k = (r, k')"
  shows "\<exists>n \<le> 1. bk_jobs k' = bk_jobs k @ replicate n data \<and> (r = Inr () \<longrightarrow> n = 1)"
proof -
  have "(r = Inr () \<and> bk_jobs k' = bk_jobs k @ [data]) \<or> ((\<exists>err. r = Inl err) \<and> (bk_jobs k' = bk_jobs k \<or> bk_jobs k' = bk_jobs k @ [data]))"
    using assms by (cases "add_result b (bk_adds k)") (auto simp: add_job_def Let_def)
  then show ?thesis by (elim disjE conjE) (auto intro: exI [of _ 0] exI [of _ 1])
qed

lemma retry_jobs:
  assumes "retry_publish b data k = (r, k')"
  shows "\<exists>n \<le> 1. bk_jobs k' = bk_jobs k @ replicate n data \<and> (r = Inr () \<longrightarrow> n = 1)"
  using assms add_job_jobs [of b data]
  by (fastforce simp: retry_publish_def on_holder_def split: prod.splits sum.splits)

lemma publish_jobs:
  assumes "addProcessWebhookEvent b data k = (r, k')"
  shows "\<exists>n \<le> 2. bk_jobs k' = bk_jobs k @ replicate n data \<and> (r = Inr () \<longrightarrow> 1 \<le> n)"
proof (cases "await_queue b (getHealthyQueueForPublish (bk_holder k))")
  case (Pair r1 h1)
  show ?thesis
  proof (cases r1)
    case (Inl err)
    with Pair assms show ?thesis by (auto simp: addProcessWebhookEvent_def)
  next
    case (Inr q)
    obtain r2 k2 where add: "add_job b data (k\<lparr>bk_holder := h1\<rparr>) = (r2, k2)" by (cases "add_job b data (k\<lparr>bk_holder := h1\<rparr>)")
    from add_job_jobs [OF add] obtain n where n: "n \<le> 1" "bk_jobs k2 = bk_jobs k @ replicate n data" "r2 = Inr () \<Longrightarrow> n = 1"
      by auto
    show ?thesis
    proof (cases r2)
      case r2: (Inr u)
      with assms Pair Inr add have "k' = on_holder markPublishSucceeded k2" by (simp add: addProcessWebhookEvent_def)
      with n r2 show ?thesis by (intro exI [of _ 1]) (simp add: on_holder_def)
    next
      case r2: (Inl err)
      let ?p = "await_queue b (recreateQueue (Some q) (markPoisoned (queue_clock b (bk_adds k2)) q err (bk_holder k2)))"
      obtain r3 h3 where a3: "?p = (r3, h3)" by (cases ?p)
      show ?thesis
      proof (cases r3)
        case (Inl err')
        with assms Pair Inr add r2 a3 have "r = Inl err'" "k' = k2\<lparr>bk_holder := h3\<rparr>" by (simp_all add: addProcessWebhookEvent_def)
        with n show ?thesis by (intro exI [of _ n]) simp
      next
        case r3: (Inr q')
        with assms Pair Inr add r2 a3 have "retry_publish b data (k2\<lparr>bk_holder := h3\<rparr>) = (r, k')"
          by (simp add: addProcessWebhookEvent_def)
        from retry_jobs [OF this] obtain m where "m \<le> 1" "bk_jobs k' = bk_jobs k2 @ replicate m data" "r = Inr () \<longrightarrow> m = 1"
          by auto
        with n show ?thesis by (intro exI [of _ "n + m"]) (auto simp: replicate_add)
      qed
    qed
  qed
qed

text \<open>The state in which a publication can succeed, and what BullMQ does then.\<close>

definition holder_ready :: "WebhookEventsQueueHolder \<Rightarrow> bool" where
  "holder_ready h \<longleftrightarrow> \<not> qh_destroyed h \<and> \<not> qh_recreating h"

definition redis_up :: "bullmq \<Rightarrow> bool" where
  "redis_up b \<longleftrightarrow> (\<forall>n. build_error b n = None) \<and> (\<forall>n. add_result b n = Added)"

lemma settle_up:
  assumes "redis_up b" and "\<not> qh_destroyed h"
  shows "\<exists>q h'. settle_recreate b t h = (Inr q, h') \<and> holder_ready h'"
  using assms by (auto simp: settle_recreate_def replaceQueue_def createQueue_def closeQueueSafely_def redis_up_def
      holder_ready_def Let_def split: option.split prod.split)

lemma await_up:
  assumes "redis_up b" and "holder_ready h"
  shows "\<exists>q h'. await_queue b (getHealthyQueueForPublish h) = (Inr q, h') \<and> holder_ready h'"
proof (cases "qh_currentQueue h \<noteq> None \<and> \<not> qh_poisoned h")
  case True
  with assms(2) show ?thesis by (auto simp: await_queue_def getHealthyQueueForPublish_def holder_ready_def)
next
  case False
  with assms(2) have "await_queue b (getHealthyQueueForPublish h) = settle_recreate b (qh_currentQueue h) (h\<lparr>qh_recreating := True\<rparr>)"
    by (auto simp: await_queue_def getHealthyQueueForPublish_def recreateQueue_def holder_ready_def split: option.split)
  then show ?thesis using settle_up [OF assms(1), of "h\<lparr>qh_recreating := True\<rparr>"] assms(2) by (simp add: holder_ready_def)
qed

lemma publish_up:
  assumes "redis_up b" and "holder_ready (bk_holder k)"
  shows "\<exists>k'. addProcessWebhookEvent b data k = (Inr (), k') \<and> holder_ready (bk_holder k') \<and> bk_jobs k' = bk_jobs k @ [data]"
proof -
  obtain q h where a: "await_queue b (getHealthyQueueForPublish (bk_holder k)) = (Inr q, h)" and h: "holder_ready h"
    using await_up [OF assms] by blast
  have keep: "holder_ready (fold (\<lambda>(q, err). markPoisoned now q err) es h')" if "holder_ready h'" for now es h'
    using that by (induction es arbitrary: h') (auto simp: holder_ready_def split_beta)
  have "add_result b (bk_adds k) = Added" using assms(1) by (simp add: redis_up_def)
  with a keep [OF h] show ?thesis
    by (simp add: addProcessWebhookEvent_def add_job_def Let_def on_holder_def) (simp add: holder_ready_def)
qed

lemma destroyed_made:
  assumes "qh_destroyed (pl_holder s)" and "publish_step b s s'"
  shows "qh_made (pl_holder s') = qh_made (pl_holder s)"
  using assms(2)
proof cases
  case (start i p at h)
  have "snd (getHealthyQueueForPublish (pl_holder s)) = h"
    using start(5) enter_snd [of First "getHealthyQueueForPublish (pl_holder s)"] by (simp only: snd_conv)
  from getHealthy_sel(3) [of "pl_holder s", unfolded this] start(1) show ?thesis by simp
next
  case (settle i p st t r h)
  have "replaceQueue b (qh_currentQueue (pl_holder s)) (pl_holder s) = (Inl holder_destroyed, pl_holder s)"
    using assms(1) by (simp add: replaceQueue_def)
  then have "qh_made (snd (settle_recreate b t (pl_holder s))) = qh_made (pl_holder s)" by (simp add: settle_snd)
  then show ?thesis unfolding settle(1,5) by simp
next
  case (resumed i p st r at h)
  from resume_sel(2) [of st r "pl_holder s", unfolded resumed(5) snd_conv] resumed(1) show ?thesis by simp
next
  case (failed i p is_first q now err at h jobs)
  from add_failed_sel(2) [of now is_first q err "pl_holder s", unfolded failed(5) snd_conv] failed(1) show ?thesis by simp
next
  case get_queue
  then show ?thesis using assms(1) by (simp add: getQueue_def)
qed (simp_all add: destroy_start_def destroy_finish_def Let_def split: option.split)

section \<open>A sample pool\<close>

definition sample_bullmq :: bullmq where
  "sample_bullmq = \<lparr>build_error = (\<lambda>_. None), error_events = (\<lambda>_. []), add_result = (\<lambda>_. Added), queue_clock = int\<rparr>"

definition sample_job :: ProcessWebhookEventJobData where
  "sample_job = \<lparr>jd_webhookEventId = js ''w1'', jd_correlationId = None\<rparr>"

definition new_broker :: broker where
  "new_broker = \<lparr>bk_holder = new_holder, bk_jobs = [], bk_adds = 0\<rparr>"

lemma sample_bullmq_up: "redis_up sample_bullmq" "holder_ready (bk_holder new_broker)"
  by (simp_all add: redis_up_def sample_bullmq_def holder_ready_def new_broker_def new_holder_def)

lemma sample_pool_run:
  "\<exists>s n. steps sample_bullmq new_pool s \<and> pl_publishers s = [\<lparr>pb_data = sample_job, pb_at = Finished (Inr ()), pb_adds = n\<rparr>]"
proof -
  obtain k' where run: "addProcessWebhookEvent sample_bullmq sample_job new_broker = (Inr (), k')"
    using publish_up [OF sample_bullmq_up] by blast
  have "\<not> qh_recreating (bk_holder new_broker)" using sample_bullmq_up(2) by (simp add: holder_ready_def)
  from publish_run_simulated [OF run this] obtain jobs n where
    "steps sample_bullmq (solo sample_job new_holder Start 0 []) (solo sample_job (bk_holder k') (Finished (Inr ())) n jobs)"
    by (auto simp: new_broker_def)
  moreover have "publish_step sample_bullmq new_pool (solo sample_job new_holder Start 0 [])"
    using publish_step.submit [of sample_bullmq new_pool sample_job] by (simp add: new_pool_def solo_def)
  ultimately show ?thesis
    by (intro exI [of _ "solo sample_job (bk_holder k') (Finished (Inr ())) n jobs"] exI [of _ n])
      (simp add: solo_def converse_rtranclp_into_rtranclp)
qed

section \<open>Properties\<close>

text \<open>
  C21: No queue is leaked, however publishers, error events, other callers and the shutdown interleave: every queue ever
  built is the current one or is being closed, never both, and no queue is closed twice; once the holder is
  destroyed no further queue is built.
\<close>

theorem queues_never_leaked:
  assumes "(publish_step b)\<^sup>*\<^sup>* new_pool s"
  shows "set (qh_made (pl_holder s)) = set (qh_closing (pl_holder s)) \<union> set_option (qh_currentQueue (pl_holder s)) \<and>
    (\<forall>q. qh_currentQueue (pl_holder s) = Some q \<longrightarrow> q \<notin> set (qh_closing (pl_holder s))) \<and>
    distinct (qh_closing (pl_holder s)) \<and>
    (qh_destroyed (pl_holder s) \<longrightarrow> (\<forall>s'. publish_step b s s' \<longrightarrow> qh_made (pl_holder s') = qh_made (pl_holder s)))"
  using reachable_pool_ok [OF assms] destroyed_made by (auto simp: pool_ok_def queues_accounted_def)

theorem queues_never_leaked_witness:
  "\<exists>s. (publish_step sample_bullmq)\<^sup>*\<^sup>* new_pool s \<and> pl_publishers s \<noteq> [] \<and> distinct (qh_closing (pl_holder s))"
proof -
  obtain s n where s: "steps sample_bullmq new_pool s" "pl_publishers s = [\<lparr>pb_data = sample_job, pb_at = Finished (Inr ()), pb_adds = n\<rparr>]"
    using sample_pool_run by blast
  with queues_never_leaked [OF s(1)] show ?thesis by auto
qed

text \<open>
  A publication that succeeds has put its job into the queue, and no publication calls \<open>queue.add\<close> or stores its job more
  than twice, under every interleaving.
\<close>

theorem publication_outcomes:
  assumes "(publish_step b)\<^sup>*\<^sup>* new_pool s" and "i < length (pl_publishers s)"
  shows "pb_adds (pl_publishers s ! i) \<le> 2 \<and> length (jobs_of i s) \<le> pb_adds (pl_publishers s ! i) \<and>
    set (jobs_of i s) \<subseteq> {pb_data (pl_publishers s ! i)} \<and>
    (pb_at (pl_publishers s ! i) = Finished (Inr ()) \<longrightarrow> jobs_of i s \<noteq> [])"
proof -
  have ok: "publisher_ok i s" using reachable_pool_ok [OF assms(1)] assms(2) by (simp add: pool_ok_def publishers_ok_def)
  have two: "adds_at at n \<Longrightarrow> n \<le> 2" for at n
    by (cases "(at, n)" rule: adds_at.cases) (auto split: if_splits)
  from ok two [of "pb_at (pl_publishers s ! i)" "pb_adds (pl_publishers s ! i)"] show ?thesis
    by (simp add: publisher_ok_def Let_def)
qed

theorem publication_outcomes_witness:
  "\<exists>s. (publish_step sample_bullmq)\<^sup>*\<^sup>* new_pool s \<and> jobs_of 0 s \<noteq> [] \<and> set (jobs_of 0 s) \<subseteq> {sample_job}"
proof -
  obtain s n where s: "steps sample_bullmq new_pool s" "pl_publishers s = [\<lparr>pb_data = sample_job, pb_at = Finished (Inr ()), pb_adds = n\<rparr>]"
    using sample_pool_run by blast
  with publication_outcomes [OF s(1), of 0] show ?thesis by auto
qed

text \<open>
  C22: Publishers never block each other: as long as one of them is unfinished, some publisher has a step that brings the pool
  closer to its end, and no step of any other kind takes it further away, so every
  publication ends once the calls into BullMQ return.
\<close>

theorem publishers_finish:
  assumes "(publish_step b)\<^sup>*\<^sup>* new_pool s" and "p \<in> set (pl_publishers s)" and "\<forall>r. pb_at p \<noteq> Finished r"
  shows "(\<exists>s'. publish_step b s s' \<and> length (pl_publishers s') = length (pl_publishers s) \<and> pool_rank s' < pool_rank s) \<and>
    (\<forall>s'. publish_step b s s' \<and> length (pl_publishers s') = length (pl_publishers s) \<longrightarrow> pool_rank s' \<le> pool_rank s)"
proof -
  from assms(2,3) obtain i where "i < length (pl_publishers s)" "\<forall>r. pb_at (pl_publishers s ! i) \<noteq> Finished r"
    by (auto simp: in_set_conv_nth)
  moreover have "promise_ok s" using reachable_pool_ok [OF assms(1)] by (simp add: pool_ok_def)
  ultimately show ?thesis using publisher_can_step step_rank_le by blast
qed

theorem publishers_finish_witness:
  "\<exists>s s'. (publish_step sample_bullmq)\<^sup>*\<^sup>* new_pool s \<and> publish_step sample_bullmq s s' \<and> pool_rank s' < pool_rank s"
proof -
  let ?s = "solo sample_job new_holder Start 0 []"
  have "publish_step sample_bullmq new_pool ?s"
    using publish_step.submit [of sample_bullmq new_pool sample_job] by (simp add: new_pool_def solo_def)
  then have "steps sample_bullmq new_pool ?s" by blast
  from publishers_finish [OF this, of "\<lparr>pb_data = sample_job, pb_at = Start, pb_adds = 0\<rparr>"] this show ?thesis
    by (auto simp: solo_def)
qed

text \<open>
  C23: The run of one publisher refines the interleaved model: its outcome, the holder it leaves and the
  jobs it adds are those of a sequence of steps of a pool with that publisher.
\<close>

theorem publish_refines_pool:
  assumes "publishProcessWebhookEvent b data k = (r, k')" and "\<not> qh_recreating (bk_holder k)"
  shows "\<exists>jobs n. bk_jobs k' = bk_jobs k @ map snd jobs \<and> \<not> qh_recreating (bk_holder k') \<and>
    (publish_step b)\<^sup>*\<^sup>* (solo data (bk_holder k) Start 0 []) (solo data (bk_holder k') (Finished r) n jobs)"
  using publish_run_simulated assms unfolding publishProcessWebhookEvent_def by blast

theorem publish_refines_pool_witness:
  "\<exists>(k' :: broker) jobs n. (publish_step sample_bullmq)\<^sup>*\<^sup>* (solo sample_job new_holder Start 0 [])
     (solo sample_job (bk_holder k') (Finished (Inr ())) n jobs)"
proof -
  obtain k' where "publishProcessWebhookEvent sample_bullmq sample_job new_broker = (Inr (), k')"
    using publish_up [OF sample_bullmq_up] unfolding publishProcessWebhookEvent_def by blast
  moreover have "\<not> qh_recreating (bk_holder new_broker)" "bk_holder new_broker = new_holder"
    by (simp_all add: new_broker_def new_holder_def)
  ultimately show ?thesis using publish_refines_pool by metis
qed

end
