(* ===== verification/Outbox.thy ===== *)
theory Outbox
  imports Queue_Holder Webhook_Acceptance
begin

text \<open>
  The transactional outbox: \<open>src/outbox/outbox-dispatcher.service.ts\<close> and
  \<open>src/outbox/outbox-dispatcher-runner.service.ts\<close>.

  \<open>dispatchBatch\<close> selects the eligible rows, publishes a job for each and marks the rows, in one
  transaction; the queue is outside the transaction, so jobs that were published stay when
  it is rolled back.  \<open>reconcileStalePublishedEvents\<close> hands rows whose job seems lost back to the
  dispatcher.  The runner calls both on timers.

  Rows that compare equal under \<open>ORDER BY\<close> come in the order of the table.  \<open>dw_logs\<close> records the log
  lines with the correlation identifier they are written under.
\<close>

section \<open>The world outside the database\<close>

record dispatch_world =
  dw_broker :: broker
  dw_logs :: "(jsstr option \<times> log_event) list"

definition tx_publish :: "bullmq \<Rightarrow> ProcessWebhookEventJobData \<Rightarrow> (dispatch_world, unit) tx" where
  "tx_publish b jobData e s =
     (case publishProcessWebhookEvent b jobData (dw_broker (ext s)) of
        (r, k) \<Rightarrow> (r, s\<lparr>ext := (ext s)\<lparr>dw_broker := k\<rparr>\<rparr>))"

definition tx_log :: "jsstr option \<Rightarrow> log_event \<Rightarrow> (dispatch_world, unit) tx" where
  "tx_log correlationId line e s = (Inr (), s\<lparr>ext := (ext s)\<lparr>dw_logs := dw_logs (ext s) @ [(correlationId, line)]\<rparr>\<rparr>)"

section \<open>The dispatcher\<close>

definition DEFAULT_OUTBOX_DISPATCH_BATCH_SIZE :: nat where
  "DEFAULT_OUTBOX_DISPATCH_BATCH_SIZE = 50"

definition INVALID_OUTBOX_PAYLOAD :: jsstr where
  "INVALID_OUTBOX_PAYLOAD = js ''INVALID_OUTBOX_PAYLOAD''"

definition DEFAULT_STALE_PUBLISHED_AFTER_MS :: int where
  "DEFAULT_STALE_PUBLISHED_AFTER_MS = 10 * 60000"

definition DEFAULT_OUTBOX_RECONCILE_BATCH_SIZE :: nat where
  "DEFAULT_OUTBOX_RECONCILE_BATCH_SIZE = 100"

definition STALE_PUBLISHED_WEBHOOK_REQUEUED :: jsstr where
  "STALE_PUBLISHED_WEBHOOK_REQUEUED = js ''STALE_PUBLISHED_WEBHOOK_REQUEUED''"

record OutboxDispatchBatchResult =
  br_selected :: nat
  br_published :: nat
  br_failed :: nat

definition OUTBOX_RETRY_BASE_DELAY_MS :: int where
  "OUTBOX_RETRY_BASE_DELAY_MS = 5000"

definition OUTBOX_RETRY_MAX_DELAY_MS :: int where
  "OUTBOX_RETRY_MAX_DELAY_MS = 5 * 60000"

definition calculateOutboxBackoffMs :: "int \<Rightarrow> int" where
  "calculateOutboxBackoffMs attempts =
     min (OUTBOX_RETRY_BASE_DELAY_MS * 2 ^ nat (max 0 (attempts - 1))) OUTBOX_RETRY_MAX_DELAY_MS"

definition NonRetryableOutboxError :: uval where
  "NonRetryableOutboxError =
     U_Object (Class_Error (js ''NonRetryableOutboxError''))
       [(js ''name'', U_String (js ''NonRetryableOutboxError'')), (js ''message'', U_String INVALID_OUTBOX_PAYLOAD),
        (js ''code'', U_String INVALID_OUTBOX_PAYLOAD)]"

definition type_error :: uval where
  "type_error =
     U_Object (Class_Error (js ''TypeError''))
       [(js ''name'', U_String (js ''TypeError'')), (js ''message'', U_String (js ''Cannot read properties of null''))]"

text \<open>Reading a property of \<open>null\<close> raises a \<open>TypeError\<close>.\<close>

definition toJobData :: "OutboxEventEntity \<Rightarrow> uval + ProcessWebhookEventJobData" where
  "toJobData outboxEvent =
     (if ob_payload outboxEvent = JNull then Inl type_error
      else (case json_get (js ''webhookEventId'') (ob_payload outboxEvent) of
              Some (JStr webhookEventId) \<Rightarrow>
                Inr \<lparr>jd_webhookEventId = webhookEventId,
                     jd_correlationId =
                       (case json_get (js ''correlationId'') (ob_payload outboxEvent) of
                          Some (JStr c) \<Rightarrow> normalizeCorrelationId (Some c)
                        | _ \<Rightarrow> None)\<rparr>
            | _ \<Rightarrow> Inl NonRetryableOutboxError))"

definition eligible :: "time \<Rightarrow> OutboxEventEntity \<Rightarrow> bool" where
  "eligible now r \<longleftrightarrow>
     ob_type r = PROCESS_WEBHOOK_OUTBOX_TYPE \<and> ob_deadAt r = None \<and>
     (ob_status r = OB_Pending \<or>
      ob_status r = OB_Failed \<and> (case ob_nextAttemptAt r of None \<Rightarrow> True | Some t \<Rightarrow> t \<le> now))"

definition eligible_rows :: "time \<Rightarrow> (uuid \<Rightarrow> bool) \<Rightarrow> nat \<Rightarrow> db \<Rightarrow> OutboxEventEntity list" where
  "eligible_rows now lock limit d =
     take limit (filter (\<lambda>r. \<not> lock (ob_id r)) (sort_key ob_createdAt (filter (eligible now) (outbox_events d))))"

definition findEligibleEvents :: "nat \<Rightarrow> ('x, OutboxEventEntity list) tx" where
  "findEligibleEvents limit =
     tx_bind (tx_ask pg_now) (\<lambda>now.
     tx_bind (tx_ask locked) (\<lambda>lock.
     query (eligible_rows now lock limit)))"

definition markPublished :: "uuid \<Rightarrow> ('x, unit) tx" where
  "markPublished outboxEventId =
     tx_bind tx_clock (\<lambda>publishedAt.
     tx_bind (tx_ask pg_now) (\<lambda>now.
     sql (ob_update now outboxEventId (\<lambda>r. r
       \<lparr>ob_status := OB_Published, ob_publishedAt := Some publishedAt, ob_nextAttemptAt := None, ob_lastError := None\<rparr>))))"

definition queued_rows :: "time \<Rightarrow> uuid \<Rightarrow> WebhookEventEntity list \<Rightarrow> WebhookEventEntity list" where
  "queued_rows now i rows =
     row_update we_id i (\<lambda>w. if we_status w = WE_Received then w\<lparr>we_status := WE_Queued, we_updatedAt := now\<rparr> else w) rows"

definition markWebhookQueued :: "jsstr \<Rightarrow> ('x, unit) tx" where
  "markWebhookQueued webhookEventId =
     tx_bind (tx_ask pg_uuid) (\<lambda>uuid_of.
     tx_bind (tx_ask pg_now) (\<lambda>now.
     sql (\<lambda>d. case uuid_of webhookEventId of
                None \<Rightarrow> Inl (pg_error ''22P02'')
              | Some i \<Rightarrow> Inr ((), d\<lparr>webhook_events := queued_rows now i (webhook_events d)\<rparr>))))"

text \<open>The \<open>integer\<close> column of the attempts overflows at \<open>2 ^ 31\<close>.\<close>

definition update_attempts ::
  "int \<Rightarrow> time \<Rightarrow> uuid \<Rightarrow> (OutboxEventEntity \<Rightarrow> OutboxEventEntity) \<Rightarrow> db \<Rightarrow> uval + (unit \<times> db)" where
  "update_attempts attempts now i f d =
     (if 2 ^ 31 \<le> attempts then Inl (pg_error ''22003'') else ob_update now i f d)"

definition markTransientFailure :: "OutboxEventEntity \<Rightarrow> uval \<Rightarrow> ('x, unit) tx" where
  "markTransientFailure outboxEvent error =
     (let attempts = ob_attempts outboxEvent + 1
      in tx_bind tx_clock (\<lambda>date_now.
         tx_bind (tx_ask pg_now) (\<lambda>now.
         sql (update_attempts attempts now (ob_id outboxEvent) (\<lambda>r. r
           \<lparr>ob_status := OB_Failed, ob_attempts := attempts,
            ob_nextAttemptAt := Some (date_now + calculateOutboxBackoffMs attempts), ob_deadAt := None,
            ob_lastError := Some (sanitizeErrorMessage error (js ''UNKNOWN_ERROR''))\<rparr>)))))"

definition markNonRetryableFailure :: "OutboxEventEntity \<Rightarrow> uval \<Rightarrow> ('x, unit) tx" where
  "markNonRetryableFailure outboxEvent error =
     (let attempts = ob_attempts outboxEvent + 1
      in tx_bind tx_clock (\<lambda>deadAt.
         tx_bind (tx_ask pg_now) (\<lambda>now.
         sql (update_attempts attempts now (ob_id outboxEvent) (\<lambda>r. r
           \<lparr>ob_status := OB_Failed, ob_attempts := attempts, ob_nextAttemptAt := None, ob_deadAt := Some deadAt,
            ob_lastError := Some (sanitizeErrorMessage error (js ''UNKNOWN_ERROR''))\<rparr>)))))"

definition poisoned_line :: "OutboxEventEntity \<Rightarrow> uval \<Rightarrow> log_event" where
  "poisoned_line outboxEvent error =
     (Log_Warn, js ''outbox_dispatch_poisoned'',
      [(js ''webhookEventId'', U_String (ob_aggregateId outboxEvent)), (js ''status'', U_String (js ''FAILED'')),
       (js ''errorCode'', U_String (toSafeErrorCode error INVALID_OUTBOX_PAYLOAD))])"

definition dispatch_failed_line :: "jsstr option \<Rightarrow> uval \<Rightarrow> log_event" where
  "dispatch_failed_line webhookEventId error =
     (Log_Warn, js ''outbox_dispatch_failed'',
      (case webhookEventId of None \<Rightarrow> [] | Some i \<Rightarrow> [(js ''webhookEventId'', U_String i)])
      @ [(js ''status'', U_String (js ''FAILED'')),
         (js ''errorCode'', U_String (toSafeErrorCode error (js ''OUTBOX_DISPATCH_FAILED'')))]
      @ describeError error)"

definition published_line :: "jsstr \<Rightarrow> log_event" where
  "published_line webhookEventId =
     (Log_Info, js ''outbox_dispatch_published'',
      [(js ''webhookEventId'', U_String webhookEventId), (js ''status'', U_String (js ''PUBLISHED''))])"

definition publishOutboxEvent ::
  "bullmq \<Rightarrow> OutboxEventEntity \<Rightarrow> ProcessWebhookEventJobData \<Rightarrow> (dispatch_world, bool) tx" where
  "publishOutboxEvent b outboxEvent jobData =
     (let webhookEventId = jd_webhookEventId jobData;
          context = normalizeCorrelationId (jd_correlationId jobData)
      in tx_catch
           (tx_bind (tx_publish b jobData) (\<lambda>_.
            tx_bind (markWebhookQueued webhookEventId) (\<lambda>_.
            tx_bind (markPublished (ob_id outboxEvent)) (\<lambda>_.
            tx_bind (tx_log context (published_line webhookEventId)) (\<lambda>_.
            tx_return True)))))
           (\<lambda>error.
            tx_bind (markTransientFailure outboxEvent error) (\<lambda>_.
            tx_bind (tx_log context (dispatch_failed_line (Some webhookEventId) error)) (\<lambda>_.
            tx_return False))))"

text \<open>A row whose payload gives no job.\<close>

definition reject_outbox_event :: "OutboxEventEntity \<Rightarrow> uval \<Rightarrow> (dispatch_world, unit) tx" where
  "reject_outbox_event outboxEvent error =
     (if error = NonRetryableOutboxError then
        tx_bind (markNonRetryableFailure outboxEvent error) (\<lambda>_.
        tx_log None (poisoned_line outboxEvent error))
      else
        tx_bind (markTransientFailure outboxEvent error) (\<lambda>_.
        tx_log None (dispatch_failed_line None error)))"

fun dispatch_events ::
  "bullmq \<Rightarrow> OutboxEventEntity list \<Rightarrow> OutboxDispatchBatchResult \<Rightarrow> (dispatch_world, OutboxDispatchBatchResult) tx" where
  "dispatch_events b [] result = tx_return result"
| "dispatch_events b (outboxEvent # outboxEvents) result =
     (case toJobData outboxEvent of
        Inl error \<Rightarrow>
          tx_bind (reject_outbox_event outboxEvent error) (\<lambda>_.
          dispatch_events b outboxEvents (result\<lparr>br_failed := br_failed result + 1\<rparr>))
      | Inr jobData \<Rightarrow>
          tx_bind (publishOutboxEvent b outboxEvent jobData) (\<lambda>published.
          if published then dispatch_events b outboxEvents (result\<lparr>br_published := br_published result + 1\<rparr>)
          else tx_return (result\<lparr>br_failed := br_failed result + 1\<rparr>)))"

definition dispatch_batch_body :: "bullmq \<Rightarrow> nat \<Rightarrow> (dispatch_world, OutboxDispatchBatchResult) tx" where
  "dispatch_batch_body b limit =
     tx_bind (findEligibleEvents limit) (\<lambda>outboxEvents.
     dispatch_events b outboxEvents \<lparr>br_selected = length outboxEvents, br_published = 0, br_failed = 0\<rparr>)"

definition dispatchBatch ::
  "bullmq \<Rightarrow> nat \<Rightarrow> env \<Rightarrow> db \<times> dispatch_world \<Rightarrow> (uval + OutboxDispatchBatchResult) \<times> db \<times> dispatch_world" where
  "dispatchBatch b limit e st = transaction (dispatch_batch_body b limit) e st"

section \<open>The reconciler\<close>

definition is_stale :: "time \<Rightarrow> (uuid \<Rightarrow> bool) \<Rightarrow> int \<Rightarrow> db \<Rightarrow> OutboxEventEntity \<Rightarrow> bool" where
  "is_stale now lock olderThanMs d r \<longleftrightarrow>
     ob_aggregateType r = WEBHOOK_OUTBOX_AGGREGATE_TYPE \<and>
     list_ex (\<lambda>w. we_id w = ob_aggregateId r \<and> (we_status w = WE_Received \<or> we_status w = WE_Queued) \<and> \<not> lock (we_id w))
       (webhook_events d) \<and>
     ob_type r = PROCESS_WEBHOOK_OUTBOX_TYPE \<and> ob_status r = OB_Published \<and> ob_deadAt r = None \<and>
     (case ob_publishedAt r of None \<Rightarrow> False | Some t \<Rightarrow> t < now - olderThanMs) \<and> \<not> lock (ob_id r)"

definition stale_rows :: "time \<Rightarrow> (uuid \<Rightarrow> bool) \<Rightarrow> int \<Rightarrow> nat \<Rightarrow> db \<Rightarrow> OutboxEventEntity list" where
  "stale_rows now lock olderThanMs limit d =
     take limit (sort_key (\<lambda>r. case ob_publishedAt r of None \<Rightarrow> 0 | Some t \<Rightarrow> t)
       (filter (is_stale now lock olderThanMs d) (outbox_events d)))"

definition requeued_row :: "time \<Rightarrow> OutboxEventEntity \<Rightarrow> OutboxEventEntity" where
  "requeued_row now r =
     r\<lparr>ob_status := OB_Failed, ob_nextAttemptAt := Some now, ob_lastError := Some STALE_PUBLISHED_WEBHOOK_REQUEUED,
       ob_updatedAt := now\<rparr>"

definition reconcile_statement :: "int \<Rightarrow> nat \<Rightarrow> ('x, OutboxEventEntity list) tx" where
  "reconcile_statement olderThanMs limit =
     tx_bind (tx_ask pg_now) (\<lambda>now.
     tx_bind (tx_ask locked) (\<lambda>lock.
     sql (\<lambda>d.
       let stale = stale_rows now lock olderThanMs limit d
       in Inr (map (requeued_row now) stale,
               d\<lparr>outbox_events := map (\<lambda>r. if ob_id r \<in> set (map ob_id stale) then requeued_row now r else r)
                   (outbox_events d)\<rparr>))))"

definition requeued_line :: "OutboxEventEntity \<Rightarrow> log_event" where
  "requeued_line row =
     (Log_Warn, js ''outbox_reconcile_requeued'',
      [(js ''webhookEventId'', U_String (ob_aggregateId row)),
       (js ''correlationId'',
        case normalizeCorrelationId
            (case json_get (js ''correlationId'') (ob_payload row) of Some (JStr c) \<Rightarrow> Some c | _ \<Rightarrow> None) of
          None \<Rightarrow> U_Undefined | Some c \<Rightarrow> U_String c),
       (js ''status'', U_String (js ''FAILED'')),
       (js ''errorCode'', U_String STALE_PUBLISHED_WEBHOOK_REQUEUED)])"

text \<open>One statement outside \<open>dataSource.transaction\<close> is a transaction of its own.\<close>

definition reconcileStalePublishedEvents ::
  "int \<Rightarrow> nat \<Rightarrow> env \<Rightarrow> db \<Rightarrow> ((uval + nat) \<times> db) \<times> log_event list" where
  "reconcileStalePublishedEvents olderThanMs limit e d =
     (case db_transaction (reconcile_statement olderThanMs limit) e d of
        (Inl err, d') \<Rightarrow> ((Inl err, d'), [])
      | (Inr rows, d') \<Rightarrow> ((Inr (length rows), d'), map requeued_line rows))"

section \<open>The runner\<close>

text \<open>
  The state of the runner between callbacks; a timer is present or not, and a dispatch or a
  reconciliation is in flight or not.
\<close>

record OutboxDispatcherRunnerService =
  or_timer :: "int option"
  or_reconcileTimer :: "int option"
  or_inFlightDispatch :: bool
  or_inFlightReconcile :: bool
  or_consecutiveFailures :: nat
  or_cooldownUntilMs :: int
  or_logs :: "log_event list"

definition new_runner :: OutboxDispatcherRunnerService where
  "new_runner =
     \<lparr>or_timer = None, or_reconcileTimer = None, or_inFlightDispatch = False, or_inFlightReconcile = False,
      or_consecutiveFailures = 0, or_cooldownUntilMs = 0, or_logs = []\<rparr>"

definition RUNNER_BACKOFF_BASE_MS :: int where
  "RUNNER_BACKOFF_BASE_MS = 1000"

definition RUNNER_BACKOFF_MAX_MS :: int where
  "RUNNER_BACKOFF_MAX_MS = 30000"

definition OUTBOX_RECONCILE_INTERVAL_MS :: int where
  "OUTBOX_RECONCILE_INTERVAL_MS = 60000"

definition DEFAULT_OUTBOX_DISPATCH_INTERVAL_MS :: int where
  "DEFAULT_OUTBOX_DISPATCH_INTERVAL_MS = 1000"

definition calculateCooldownMs :: "OutboxDispatcherRunnerService \<Rightarrow> int" where
  "calculateCooldownMs r =
     min (RUNNER_BACKOFF_BASE_MS * 2 ^ (or_consecutiveFailures r - 1)) RUNNER_BACKOFF_MAX_MS"

definition isEnabled :: "uval \<Rightarrow> bool" where
  "isEnabled OUTBOX_DISPATCH_ENABLED =
     (case OUTBOX_DISPATCH_ENABLED of
        U_Bool x \<Rightarrow> x
      | U_String s \<Rightarrow> to_lower s = js ''true''
      | _ \<Rightarrow> True)"

text \<open>\<open>Number\<close> of a text is not code of the repository: \<open>js_number\<close> gives its value when it is an integer.\<close>

definition getIntervalMs :: "(jsstr \<Rightarrow> int option) \<Rightarrow> uval \<Rightarrow> int" where
  "getIntervalMs js_number OUTBOX_DISPATCH_INTERVAL_MS =
     (case (case OUTBOX_DISPATCH_INTERVAL_MS of U_Number n \<Rightarrow> Some n | U_String s \<Rightarrow> js_number s | _ \<Rightarrow> None) of
        Some n \<Rightarrow> if 0 < n then n else DEFAULT_OUTBOX_DISPATCH_INTERVAL_MS
      | None \<Rightarrow> DEFAULT_OUTBOX_DISPATCH_INTERVAL_MS)"

definition runner_bootstrap ::
  "(jsstr \<Rightarrow> int option) \<Rightarrow> uval \<Rightarrow> uval \<Rightarrow> OutboxDispatcherRunnerService \<Rightarrow> OutboxDispatcherRunnerService" where
  "runner_bootstrap js_number enabled interval r =
     (if \<not> isEnabled enabled then r
      else r\<lparr>or_timer := Some (getIntervalMs js_number interval), or_reconcileTimer := Some OUTBOX_RECONCILE_INTERVAL_MS\<rparr>)"

definition runner_shutdown :: "OutboxDispatcherRunnerService \<Rightarrow> OutboxDispatcherRunnerService" where
  "runner_shutdown r = r\<lparr>or_timer := None, or_reconcileTimer := None\<rparr>"

text \<open>\<open>dispatchOnce\<close> up to its call of the dispatcher (the answer says whether it is called), and its callbacks.\<close>

definition dispatchOnce :: "int \<Rightarrow> OutboxDispatcherRunnerService \<Rightarrow> bool \<times> OutboxDispatcherRunnerService" where
  "dispatchOnce date_now r =
     (if or_inFlightDispatch r then (False, r)
      else if date_now < or_cooldownUntilMs r then (False, r)
      else (True, r\<lparr>or_inFlightDispatch := True\<rparr>))"

definition dispatch_settled ::
  "int \<Rightarrow> uval + OutboxDispatchBatchResult \<Rightarrow> OutboxDispatcherRunnerService \<Rightarrow> OutboxDispatcherRunnerService" where
  "dispatch_settled date_now result r =
     (case result of
        Inr _ \<Rightarrow> r\<lparr>or_consecutiveFailures := 0, or_cooldownUntilMs := 0, or_inFlightDispatch := False\<rparr>
      | Inl error \<Rightarrow>
          let r1 = r\<lparr>or_consecutiveFailures := or_consecutiveFailures r + 1\<rparr>
          in r1\<lparr>or_cooldownUntilMs := date_now + calculateCooldownMs r1,
                or_logs := or_logs r1 @ [(Log_Warn, js ''outbox_dispatch_runner_failed'',
                  [(js ''status'', U_String (js ''FAILED'')),
                   (js ''errorCode'', U_String (toSafeErrorCode error (js ''OUTBOX_DISPATCH_RUNNER_FAILED'')))]
                  @ describeError error)],
                or_inFlightDispatch := False\<rparr>)"

definition reconcileOnce :: "OutboxDispatcherRunnerService \<Rightarrow> bool \<times> OutboxDispatcherRunnerService" where
  "reconcileOnce r =
     (if or_inFlightReconcile r then (False, r) else (True, r\<lparr>or_inFlightReconcile := True\<rparr>))"

definition reconcile_settled :: "uval + nat \<Rightarrow> OutboxDispatcherRunnerService \<Rightarrow> OutboxDispatcherRunnerService" where
  "reconcile_settled result r =
     (case result of
        Inr _ \<Rightarrow> r\<lparr>or_inFlightReconcile := False\<rparr>
      | Inl error \<Rightarrow>
          r\<lparr>or_logs := or_logs r @ [(Log_Warn, js ''outbox_reconcile_failed'',
               [(js ''status'', U_String (js ''FAILED'')),
                (js ''errorCode'', U_String (toSafeErrorCode error (js ''OUTBOX_RECONCILE_FAILED'')))]
               @ describeError error)],
            or_inFlightReconcile := False\<rparr>)"

section \<open>Failures of a batch\<close>

lemma fault_safe_log [fault_safe_intros]: "fault_safe (tx_log c l)"
  by (auto intro!: fault_safeI simp: tx_log_def)

text \<open>
  A publication may fail by itself, without a failing statement; then the handler can go on.
  After a failing statement every statement of the handler is refused, so it throws too.
\<close>

definition refuses_aborted :: "('x, 'a) tx \<Rightarrow> bool" where
  "refuses_aborted p \<longleftrightarrow> (\<forall>e s. aborted s \<longrightarrow> (\<exists>err s'. p e s = (Inl err, s')))"

lemma refuses_abortedD: "refuses_aborted p \<Longrightarrow> aborted s \<Longrightarrow> p e s \<noteq> (Inr x, s')"
  unfolding refuses_aborted_def by (metis Inl_Inr_False Pair_inject)

lemma sql_refuses: "refuses_aborted (sql f)"
  by (auto simp: refuses_aborted_def sql_def Let_def)

lemma bind_refuses: "refuses_aborted p \<Longrightarrow> refuses_aborted (tx_bind p f)"
proof -
  assume p: "refuses_aborted p"
  show ?thesis
    unfolding refuses_aborted_def
  proof (intro allI impI)
    fix e and s :: "'a session" assume "aborted s"
    with p obtain err s' where "p e s = (Inl err, s')" unfolding refuses_aborted_def by blast
    then show "\<exists>err s'. tx_bind p f e s = (Inl err, s')" by (simp add: tx_bind_def)
  qed
qed

lemma bind_refuses_later:
  assumes "\<And>e s. \<exists>x s'. p e s = (Inr x, s') \<and> aborted s' = aborted s" and "\<And>x. refuses_aborted (f x)"
  shows "refuses_aborted (tx_bind p f)"
  unfolding refuses_aborted_def
proof (intro allI impI)
  fix e and s :: "'a session" assume "aborted s"
  moreover obtain x s' where "p e s = (Inr x, s')" "aborted s' = aborted s" using assms(1) by blast
  ultimately show "\<exists>err s'. tx_bind p f e s = (Inl err, s')"
    using assms(2) by (simp add: tx_bind_def refuses_aborted_def)
qed

lemma transient_refuses: "refuses_aborted (markTransientFailure r err)"
  unfolding markTransientFailure_def Let_def
  by (intro bind_refuses_later sql_refuses) (simp_all add: tx_run)

lemma fault_safe_catch:
  assumes "\<And>e s err s'. \<not> aborted s \<Longrightarrow> m e s = (Inl err, s') \<Longrightarrow> aborted s' \<or> (\<not> aborted s' \<and> m (calm e) s = (Inl err, s'))"
    and "fault_safe m" and "\<And>err. fault_safe (h err)" and "\<And>err. refuses_aborted (h err)"
  shows "fault_safe (tx_catch m h)"
proof (rule fault_safeI)
  fix e and s :: "'a session" and x s'
  assume s: "\<not> aborted s" and run: "tx_catch m h e s = (Inr x, s')"
  show "\<not> aborted s' \<and> tx_catch m h (calm e) s = (Inr x, s')"
  proof (cases "m e s")
    case (Pair r s1)
    show ?thesis
    proof (cases r)
      case (Inl err)
      with run Pair have h: "h err e s1 = (Inr x, s')" by (simp add: tx_catch_def)
      with assms(4) [of err] have "\<not> aborted s1" unfolding refuses_aborted_def by (metis Inl_Inr_False Pair_inject)
      with assms(1) [OF s, of e err s1] Pair Inl have "m (calm e) s = (Inl err, s1)" by simp
      with fault_safeD [OF assms(3) \<open>\<not> aborted s1\<close> h] show ?thesis by (simp add: tx_catch_def)
    next
      case (Inr y)
      with run Pair have "x = y" "s' = s1" by (simp_all add: tx_catch_def)
      with fault_safeD [OF assms(2) s, of e y s1] Pair Inr show ?thesis by (simp add: tx_catch_def)
    qed
  qed
qed

lemma mark_safe [fault_safe_intros]:
  "fault_safe (markWebhookQueued i)" "fault_safe (markPublished j)" "fault_safe (markTransientFailure r err)"
  "fault_safe (markNonRetryableFailure r err)"
  unfolding markWebhookQueued_def markPublished_def markTransientFailure_def markNonRetryableFailure_def Let_def
  by (auto intro!: fault_safe_intros)

lemma publish_safe [fault_safe_intros]: "fault_safe (tx_publish b jobData)"
  by (auto intro!: fault_safeI simp: tx_publish_def split: prod.splits)

lemma marks_fail_aborted:
  assumes "\<not> aborted s"
    and "tx_bind (markWebhookQueued i) (\<lambda>_. tx_bind (markPublished j) (\<lambda>_. tx_bind (tx_log c l) (\<lambda>_. tx_return True))) e s = (Inl err, s')"
  shows "aborted s'"
  using assms
  by (auto simp: markWebhookQueued_def markPublished_def tx_bind_def tx_run tx_log_def sql_def ob_update_def Let_def
      split: prod.splits sum.splits option.splits if_splits)

lemma publishOutboxEvent_safe [fault_safe_intros]: "fault_safe (publishOutboxEvent b r jobData)"
  unfolding publishOutboxEvent_def Let_def
proof (rule fault_safe_catch)
  fix e and s :: "dispatch_world session" and err s'
  assume s: "\<not> aborted s"
    and run: "tx_bind (tx_publish b jobData) (\<lambda>_. tx_bind (markWebhookQueued (jd_webhookEventId jobData)) (\<lambda>_.
      tx_bind (markPublished (ob_id r)) (\<lambda>_. tx_bind (tx_log (normalizeCorrelationId (jd_correlationId jobData))
        (published_line (jd_webhookEventId jobData))) (\<lambda>_. tx_return True)))) e s = (Inl err, s')"
  obtain u k where p: "publishProcessWebhookEvent b jobData (dw_broker (ext s)) = (u, k)"
    by (cases "publishProcessWebhookEvent b jobData (dw_broker (ext s))")
  show "aborted s' \<or> (\<not> aborted s' \<and> tx_bind (tx_publish b jobData) (\<lambda>_. tx_bind (markWebhookQueued (jd_webhookEventId jobData)) (\<lambda>_.
      tx_bind (markPublished (ob_id r)) (\<lambda>_. tx_bind (tx_log (normalizeCorrelationId (jd_correlationId jobData))
        (published_line (jd_webhookEventId jobData))) (\<lambda>_. tx_return True)))) (calm e) s = (Inl err, s'))"
  proof (cases u)
    case (Inl err0)
    with p run s show ?thesis by (auto simp: tx_bind_def tx_publish_def)
  next
    case (Inr v)
    let ?s = "s\<lparr>ext := (ext s)\<lparr>dw_broker := k\<rparr>\<rparr>"
    have "\<not> aborted ?s" using s by simp
    moreover from p run Inr have "tx_bind (markWebhookQueued (jd_webhookEventId jobData)) (\<lambda>_.
      tx_bind (markPublished (ob_id r)) (\<lambda>_. tx_bind (tx_log (normalizeCorrelationId (jd_correlationId jobData))
        (published_line (jd_webhookEventId jobData))) (\<lambda>_. tx_return True))) e ?s = (Inl err, s')"
      by (subst (asm) tx_bind_def) (simp add: tx_publish_def)
    ultimately show ?thesis using marks_fail_aborted by blast
  qed
qed (intro fault_safe_intros bind_refuses transient_refuses)+

lemma dispatch_events_safe: "fault_safe (dispatch_events b rs result)"
  by (induction b rs result rule: dispatch_events.induct)
    (auto intro!: fault_safe_intros simp: reject_outbox_event_def split: sum.split)

lemma dispatch_safe: "fault_safe (dispatch_batch_body b limit)"
  unfolding dispatch_batch_body_def findEligibleEvents_def
  by (intro fault_safe_intros dispatch_events_safe) simp_all

interpretation dispatch: atomic_operation "dispatch_batch_body b limit" for b limit
  by unfold_locales (rule dispatch_safe)

lemma reconcile_safe: "fault_safe (reconcile_statement olderThanMs limit)"
  unfolding reconcile_statement_def by (intro fault_safe_intros) simp_all

interpretation reconcile: atomic_db_operation "reconcile_statement olderThanMs limit" for olderThanMs limit
  by unfold_locales (rule reconcile_safe)

section \<open>Jobs a batch may publish\<close>

text \<open>Whatever fails, a program only adds jobs, and only jobs of \<open>J\<close>.\<close>

definition emits :: "ProcessWebhookEventJobData set \<Rightarrow> (dispatch_world, 'a) tx \<Rightarrow> bool" where
  "emits J p \<longleftrightarrow> (\<forall>e s. \<exists>new. set new \<subseteq> J \<and>
     bk_jobs (dw_broker (ext (snd (p e s)))) = bk_jobs (dw_broker (ext s)) @ new)"

named_theorems emits_intros

lemma emits_same: "(\<And>e s. ext (snd (p e s)) = ext s) \<Longrightarrow> emits J p"
  by (simp add: emits_def exI [of _ "[]"])

lemma emits_basic [emits_intros]:
  "emits J (tx_return x)" "emits J tx_clock" "emits J (tx_ask f)" "emits J (sql g)" "emits J (query h)"
  by (rule emits_same; simp add: tx_run sql_def query_def Let_def split: option.split sum.split)+

lemma emits_log [emits_intros]: "emits J (tx_log c l)"
  by (simp add: emits_def tx_log_def exI [of _ "[]"])

lemma emits_bind [emits_intros]:
  assumes "emits J p" and "\<And>x. emits J (f x)"
  shows "emits J (tx_bind p f)"
  unfolding emits_def
proof (intro allI)
  fix e s
  obtain r s1 where 1: "p e s = (r, s1)" by (cases "p e s")
  with assms(1) obtain new where n: "set new \<subseteq> J" "bk_jobs (dw_broker (ext s1)) = bk_jobs (dw_broker (ext s)) @ new"
    unfolding emits_def by (metis snd_conv)
  show "\<exists>new. set new \<subseteq> J \<and> bk_jobs (dw_broker (ext (snd (tx_bind p f e s)))) = bk_jobs (dw_broker (ext s)) @ new"
  proof (cases r)
    case (Inl err)
    with 1 n show ?thesis by (auto simp: tx_bind_def)
  next
    case (Inr x)
    from assms(2) [of x] obtain new' where "set new' \<subseteq> J"
      "bk_jobs (dw_broker (ext (snd (f x e s1)))) = bk_jobs (dw_broker (ext s1)) @ new'" unfolding emits_def by blast
    with n 1 Inr show ?thesis by (intro exI [of _ "new @ new'"]) (simp add: tx_bind_def)
  qed
qed

lemma emits_catch [emits_intros]:
  assumes "emits J p" and "\<And>x. emits J (f x)"
  shows "emits J (tx_catch p f)"
  unfolding emits_def
proof (intro allI)
  fix e s
  obtain r s1 where 1: "p e s = (r, s1)" by (cases "p e s")
  with assms(1) obtain new where n: "set new \<subseteq> J" "bk_jobs (dw_broker (ext s1)) = bk_jobs (dw_broker (ext s)) @ new"
    unfolding emits_def by (metis snd_conv)
  show "\<exists>new. set new \<subseteq> J \<and> bk_jobs (dw_broker (ext (snd (tx_catch p f e s)))) = bk_jobs (dw_broker (ext s)) @ new"
  proof (cases r)
    case (Inr x)
    with 1 n show ?thesis by (auto simp: tx_catch_def)
  next
    case (Inl x)
    from assms(2) [of x] obtain new' where "set new' \<subseteq> J"
      "bk_jobs (dw_broker (ext (snd (f x e s1)))) = bk_jobs (dw_broker (ext s1)) @ new'" unfolding emits_def by blast
    with n 1 Inl show ?thesis by (intro exI [of _ "new @ new'"]) (simp add: tx_catch_def)
  qed
qed

lemma emits_publish: "jobData \<in> J \<Longrightarrow> emits J (tx_publish b jobData)"
  unfolding emits_def
proof (intro allI)
  fix e and s :: "dispatch_world session"
  assume "jobData \<in> J"
  obtain r k where p: "publishProcessWebhookEvent b jobData (dw_broker (ext s)) = (r, k)"
    by (cases "publishProcessWebhookEvent b jobData (dw_broker (ext s))")
  with publish_jobs [of b jobData "dw_broker (ext s)" r k] obtain n where
    "bk_jobs k = bk_jobs (dw_broker (ext s)) @ replicate n jobData" unfolding publishProcessWebhookEvent_def by blast
  with p \<open>jobData \<in> J\<close> show "\<exists>new. set new \<subseteq> J \<and>
      bk_jobs (dw_broker (ext (snd (tx_publish b jobData e s)))) = bk_jobs (dw_broker (ext s)) @ new"
    by (intro exI [of _ "replicate n jobData"]) (auto simp: tx_publish_def)
qed

lemma emits_marks [emits_intros]:
  "emits J (markWebhookQueued i)" "emits J (markPublished j)" "emits J (markTransientFailure r err)"
  "emits J (markNonRetryableFailure r err)"
  unfolding markWebhookQueued_def markPublished_def markTransientFailure_def markNonRetryableFailure_def Let_def
  by (intro emits_intros)+

definition jobs_for :: "OutboxEventEntity list \<Rightarrow> ProcessWebhookEventJobData set" where
  "jobs_for rs = {j. \<exists>r\<in>set rs. toJobData r = Inr j}"

lemma emits_events: "set rs \<subseteq> set rs0 \<Longrightarrow> emits (jobs_for rs0) (dispatch_events b rs result)"
proof (induction b rs result rule: dispatch_events.induct)
  case (2 b r rs result)
  have rej: "emits (jobs_for rs0) (reject_outbox_event r err)" for err
    unfolding reject_outbox_event_def by (cases "err = NonRetryableOutboxError") (simp_all add: emits_intros)
  have pub: "emits (jobs_for rs0) (publishOutboxEvent b r j)" if "toJobData r = Inr j" for j
    unfolding publishOutboxEvent_def Let_def
    using 2(3) that by (intro emits_intros emits_publish) (auto simp: jobs_for_def)
  show ?case
  proof (cases "toJobData r")
    case (Inl err)
    with 2 rej show ?thesis by (auto intro!: emits_intros)
  next
    case (Inr j)
    then show ?thesis using 2 pub by (auto intro!: emits_bind emits_basic)
  qed
qed (simp add: emits_basic)

section \<open>The effect of a batch\<close>

definition published_row :: "time \<Rightarrow> time \<Rightarrow> OutboxEventEntity \<Rightarrow> OutboxEventEntity" where
  "published_row t now r =
     r\<lparr>ob_status := OB_Published, ob_publishedAt := Some t, ob_nextAttemptAt := None, ob_lastError := None, ob_updatedAt := now\<rparr>"

definition failed_row :: "time \<Rightarrow> jsstr \<Rightarrow> time \<Rightarrow> OutboxEventEntity \<Rightarrow> OutboxEventEntity" where
  "failed_row t message now r =
     r\<lparr>ob_status := OB_Failed, ob_attempts := ob_attempts r + 1,
       ob_nextAttemptAt := Some (t + calculateOutboxBackoffMs (ob_attempts r + 1)), ob_deadAt := None,
       ob_lastError := Some message, ob_updatedAt := now\<rparr>"

definition dead_row :: "time \<Rightarrow> jsstr \<Rightarrow> time \<Rightarrow> OutboxEventEntity \<Rightarrow> OutboxEventEntity" where
  "dead_row t message now r =
     r\<lparr>ob_status := OB_Failed, ob_attempts := ob_attempts r + 1, ob_nextAttemptAt := None, ob_deadAt := Some t,
       ob_lastError := Some message, ob_updatedAt := now\<rparr>"

text \<open>How a selected row may change, when the queue holds the jobs \<open>J\<close> afterwards.\<close>

definition row_change :: "env \<Rightarrow> ProcessWebhookEventJobData set \<Rightarrow> OutboxEventEntity \<Rightarrow> OutboxEventEntity \<Rightarrow> bool" where
  "row_change e J r r' \<longleftrightarrow>
     (\<exists>t j. toJobData r = Inr j \<and> j \<in> J \<and> r' = published_row t (pg_now e) r) \<or>
     (\<exists>t m. toJobData r \<noteq> Inl NonRetryableOutboxError \<and> r' = failed_row t m (pg_now e) r) \<or>
     (\<exists>t m. toJobData r = Inl NonRetryableOutboxError \<and> r' = dead_row t m (pg_now e) r)"

definition event_change :: "env \<Rightarrow> OutboxEventEntity list \<Rightarrow> WebhookEventEntity \<Rightarrow> WebhookEventEntity \<Rightarrow> bool" where
  "event_change e rs w w' \<longleftrightarrow>
     we_status w = WE_Received \<and> w' = w\<lparr>we_status := WE_Queued, we_updatedAt := pg_now e\<rparr> \<and>
     (\<exists>r\<in>set rs. \<exists>j. toJobData r = Inr j \<and> pg_uuid e (jd_webhookEventId j) = Some (we_id w))"

abbreviation queue_jobs :: "dispatch_world session \<Rightarrow> ProcessWebhookEventJobData set" where
  "queue_jobs s \<equiv> set (bk_jobs (dw_broker (ext s)))"

lemma ob_update_Inr: "ob_update now i f d = Inr (x, d') \<longleftrightarrow>
    d' = d\<lparr>outbox_events := row_update ob_id i (\<lambda>r. (f r)\<lparr>ob_updatedAt := now\<rparr>) (outbox_events d)\<rparr>"
  by (auto simp: ob_update_def)

lemma transient_success:
  assumes "markTransientFailure r err e s = (Inr u, s')"
  shows "\<exists>t m. tables s' = (tables s)\<lparr>outbox_events := row_update ob_id (ob_id r)
      (\<lambda>x. x\<lparr>ob_status := OB_Failed, ob_attempts := ob_attempts r + 1,
        ob_nextAttemptAt := Some (t + calculateOutboxBackoffMs (ob_attempts r + 1)), ob_deadAt := None,
        ob_lastError := Some m, ob_updatedAt := pg_now e\<rparr>) (outbox_events (tables s))\<rparr> \<and> ext s' = ext s"
  using assms unfolding markTransientFailure_def Let_def
  by (auto simp: tx_inv update_attempts_def ob_update_Inr split: if_splits)

lemma dead_success:
  assumes "markNonRetryableFailure r err e s = (Inr u, s')"
  shows "\<exists>t m. tables s' = (tables s)\<lparr>outbox_events := row_update ob_id (ob_id r)
      (\<lambda>x. x\<lparr>ob_status := OB_Failed, ob_attempts := ob_attempts r + 1, ob_nextAttemptAt := None, ob_deadAt := Some t,
        ob_lastError := Some m, ob_updatedAt := pg_now e\<rparr>) (outbox_events (tables s))\<rparr> \<and> ext s' = ext s"
  using assms unfolding markNonRetryableFailure_def Let_def
  by (auto simp: tx_inv update_attempts_def ob_update_Inr split: if_splits)

lemma log_success: "tx_log c l e s = (r, s') \<Longrightarrow> tables s' = tables s \<and> queue_jobs s' = queue_jobs s \<and> r = Inr ()"
  by (auto simp: tx_log_def)

text \<open>
  The row of the event in hand changes in one of the three ways, the other rows do not.
\<close>

definition one_row :: "env \<Rightarrow> ProcessWebhookEventJobData set \<Rightarrow> OutboxEventEntity \<Rightarrow> OutboxEventEntity list \<Rightarrow> OutboxEventEntity list \<Rightarrow> bool" where
  "one_row e J r rows rows' \<longleftrightarrow> (\<exists>f. rows' = row_update ob_id (ob_id r) f rows \<and> row_change e J r (f r) \<and> (\<forall>x. ob_id (f x) = ob_id x))"

lemma one_row_failed:
  assumes "toJobData r \<noteq> Inl NonRetryableOutboxError"
  shows "one_row e J r rows (row_update ob_id (ob_id r)
      (\<lambda>x. x\<lparr>ob_status := OB_Failed, ob_attempts := ob_attempts r + 1,
        ob_nextAttemptAt := Some (t + calculateOutboxBackoffMs (ob_attempts r + 1)), ob_deadAt := None,
        ob_lastError := Some m, ob_updatedAt := pg_now e\<rparr>) rows)"
  unfolding one_row_def
  by (intro exI conjI, rule refl) (use assms in \<open>auto simp: row_change_def failed_row_def\<close>)

lemma one_row_dead:
  assumes "toJobData r = Inl NonRetryableOutboxError"
  shows "one_row e J r rows (row_update ob_id (ob_id r)
      (\<lambda>x. x\<lparr>ob_status := OB_Failed, ob_attempts := ob_attempts r + 1, ob_nextAttemptAt := None, ob_deadAt := Some t,
        ob_lastError := Some m, ob_updatedAt := pg_now e\<rparr>) rows)"
  unfolding one_row_def
  by (intro exI conjI, rule refl) (use assms in \<open>auto simp: row_change_def dead_row_def\<close>)

lemma one_row_published:
  assumes "toJobData r = Inr j" and "j \<in> J"
  shows "one_row e J r rows (row_update ob_id (ob_id r)
      (\<lambda>x. x\<lparr>ob_status := OB_Published, ob_publishedAt := Some t, ob_nextAttemptAt := None, ob_lastError := None,
        ob_updatedAt := pg_now e\<rparr>) rows)"
  unfolding one_row_def
  by (intro exI conjI, rule refl) (use assms in \<open>auto simp: row_change_def published_row_def\<close>)

lemma reject_success:
  assumes "reject_outbox_event r err e s = (Inr u, s')" and "toJobData r = Inl err"
  shows "\<exists>rows. tables s' = (tables s)\<lparr>outbox_events := rows\<rparr> \<and> one_row e (queue_jobs s') r (outbox_events (tables s)) rows \<and>
    queue_jobs s' = queue_jobs s"
proof (cases "err = NonRetryableOutboxError")
  case True
  with assms(1) obtain s1 u1 where 1: "markNonRetryableFailure r err e s = (Inr u1, s1)"
    and 2: "tx_log None (poisoned_line r err) e s1 = (Inr u, s')" by (auto simp: reject_outbox_event_def tx_bind_Inr)
  from dead_success [OF 1] log_success [OF 2] one_row_dead [of r e "queue_jobs s'"] True assms(2) show ?thesis by auto
next
  case False
  with assms(1) obtain s1 u1 where 1: "markTransientFailure r err e s = (Inr u1, s1)"
    and 2: "tx_log None (dispatch_failed_line None err) e s1 = (Inr u, s')" by (auto simp: reject_outbox_event_def tx_bind_Inr)
  from transient_success [OF 1] log_success [OF 2] one_row_failed [of r e "queue_jobs s'"] False assms(2) show ?thesis by auto
qed

text \<open>The two halves of \<open>publishOutboxEvent\<close>: the marks after a publication, and the handler.\<close>

lemma handler_success:
  assumes "tx_bind (markTransientFailure r err) (\<lambda>_. tx_bind (tx_log c l) (\<lambda>_. tx_return False)) e s = (Inr published, s')"
    and "toJobData r = Inr j"
  shows "\<exists>rows. one_row e (queue_jobs s') r (outbox_events (tables s)) rows \<and> queue_jobs s' = queue_jobs s \<and>
    published = False \<and> tables s' = (tables s)\<lparr>outbox_events := rows\<rparr>"
proof -
  from assms(1) obtain u1 s1 where 1: "markTransientFailure r err e s = (Inr u1, s1)" and "published = False"
    and 2: "tx_log c l e s1 = (Inr (), s')"
    by (auto simp: tx_bind_Inr tx_basic_Inr)
  with transient_success [OF 1] log_success [OF 2] one_row_failed [of r e "queue_jobs s'"] assms(2) show ?thesis by auto
qed

lemma marks_success:
  assumes "tx_bind (markWebhookQueued wid) (\<lambda>_. tx_bind (markPublished (ob_id r)) (\<lambda>_.
      tx_bind (tx_log c l) (\<lambda>_. tx_return True))) e s = (Inr published, s')"
    and "toJobData r = Inr j" and "j \<in> queue_jobs s"
  shows "\<exists>rows i. one_row e (queue_jobs s') r (outbox_events (tables s)) rows \<and> queue_jobs s' = queue_jobs s \<and> published \<and>
    pg_uuid e wid = Some i \<and>
    tables s' = (tables s)\<lparr>webhook_events := queued_rows (pg_now e) i (webhook_events (tables s)), outbox_events := rows\<rparr>"
proof -
  from assms(1) obtain u1 s1 u2 s2 where 1: "markWebhookQueued wid e s = (Inr u1, s1)"
    and 2: "markPublished (ob_id r) e s1 = (Inr u2, s2)" and 3: "tx_log c l e s2 = (Inr (), s')" and "published"
    by (auto simp: tx_bind_Inr tx_basic_Inr)
  from 1 obtain i where i: "pg_uuid e wid = Some i" "ext s1 = ext s"
    "tables s1 = (tables s)\<lparr>webhook_events := queued_rows (pg_now e) i (webhook_events (tables s))\<rparr>"
    unfolding markWebhookQueued_def by (auto simp: tx_inv split: option.splits)
  from 2 obtain t where "ext s2 = ext s1" "tables s2 = (tables s1)\<lparr>outbox_events := row_update ob_id (ob_id r)
      (\<lambda>x. x\<lparr>ob_status := OB_Published, ob_publishedAt := Some t, ob_nextAttemptAt := None, ob_lastError := None,
        ob_updatedAt := pg_now e\<rparr>) (outbox_events (tables s1))\<rparr>"
    unfolding markPublished_def by (auto simp: tx_inv ob_update_Inr)
  with i log_success [OF 3] one_row_published [OF assms(2), of "queue_jobs s'" e] assms(3) \<open>published\<close> show ?thesis by auto
qed

lemma publish_success:
  assumes "publishOutboxEvent b r j e s = (Inr published, s')" and "toJobData r = Inr j" and "\<not> aborted s"
  shows "\<exists>rows. one_row e (queue_jobs s') r (outbox_events (tables s)) rows \<and> queue_jobs s \<subseteq> queue_jobs s' \<and>
    (if published then \<exists>i. pg_uuid e (jd_webhookEventId j) = Some i \<and>
       tables s' = (tables s)\<lparr>webhook_events := queued_rows (pg_now e) i (webhook_events (tables s)), outbox_events := rows\<rparr>
     else tables s' = (tables s)\<lparr>outbox_events := rows\<rparr>)"
proof -
  obtain u k where p: "publishProcessWebhookEvent b j (dw_broker (ext s)) = (u, k)"
    by (cases "publishProcessWebhookEvent b j (dw_broker (ext s))")
  with publish_jobs [of b j "dw_broker (ext s)" u k] obtain n where
    n: "bk_jobs k = bk_jobs (dw_broker (ext s)) @ replicate n j" "u = Inr () \<longrightarrow> 1 \<le> n"
    unfolding publishProcessWebhookEvent_def by blast
  let ?s = "s\<lparr>ext := (ext s)\<lparr>dw_broker := k\<rparr>\<rparr>"
  let ?c = "normalizeCorrelationId (jd_correlationId j)" and ?i = "jd_webhookEventId j"
  let ?rest = "tx_bind (markWebhookQueued ?i) (\<lambda>_. tx_bind (markPublished (ob_id r)) (\<lambda>_.
      tx_bind (tx_log ?c (published_line ?i)) (\<lambda>_. tx_return True)))"
  let ?handler = "\<lambda>err. tx_bind (markTransientFailure r err) (\<lambda>_. tx_bind (tx_log ?c (dispatch_failed_line (Some ?i) err)) (\<lambda>_.
      tx_return False))"
  have grow: "queue_jobs s \<subseteq> queue_jobs ?s" "tables ?s = tables s" using n by simp_all
  show ?thesis
  proof (cases u)
    case (Inl err)
    with assms(1) p have "?handler err e ?s = (Inr published, s')"
      by (simp add: publishOutboxEvent_def Let_def tx_catch_def tx_bind_def [of "tx_publish b j"] tx_publish_def)
    from handler_success [OF this assms(2)] grow show ?thesis by auto
  next
    case (Inr v)
    with assms(1) p have run: "tx_catch ?rest ?handler e ?s = (Inr published, s')"
      by (simp add: publishOutboxEvent_def Let_def tx_catch_def tx_bind_def [of "tx_publish b j"] tx_publish_def)
    have j: "j \<in> queue_jobs ?s" using n Inr by (cases v) auto
    obtain x s1 where Pair: "?rest e ?s = (x, s1)" by (cases "?rest e ?s")
    show ?thesis
    proof (cases x)
      case (Inl err)
      have "\<not> aborted ?s" using assms(3) by simp
      from marks_fail_aborted [OF this Pair [unfolded Inl]] have "aborted s1" .
      moreover have "?handler err e s1 = (Inr published, s')" using run Pair Inl by (simp add: tx_catch_def)
      moreover have "refuses_aborted (?handler err)" by (intro bind_refuses transient_refuses)
      ultimately have False using refuses_abortedD by metis
      then show ?thesis ..
    next
      case x: (Inr y)
      with run Pair have "?rest e ?s = (Inr published, s')" by (simp add: tx_catch_def)
      from marks_success [OF this assms(2) j] grow show ?thesis by auto
    qed
  qed
qed

text \<open>A run of the loop over the selected rows.\<close>

definition batch_effect ::
  "env \<Rightarrow> OutboxEventEntity list \<Rightarrow> ProcessWebhookEventJobData set \<Rightarrow> db \<Rightarrow> db \<Rightarrow> bool" where
  "batch_effect e rs J d d' \<longleftrightarrow>
     payment_intents d' = payment_intents d \<and> idempotency_records d' = idempotency_records d \<and>
     webhook_processing_attempts d' = webhook_processing_attempts d \<and>
     list_all2 (\<lambda>r r'. r' = r \<or> r \<in> set rs \<and> row_change e J r r') (outbox_events d) (outbox_events d') \<and>
     list_all2 (\<lambda>w w'. w' = w \<or> event_change e rs w w') (webhook_events d) (webhook_events d')"

lemma batch_effect_refl: "batch_effect e rs J d d"
  by (simp add: batch_effect_def list_all2_same)

lemma row_change_mono: "J \<subseteq> J' \<Longrightarrow> row_change e J r r' \<Longrightarrow> row_change e J' r r'"
  by (auto simp: row_change_def)

lemma row_change_id: "row_change e J r r' \<Longrightarrow> ob_id r' = ob_id r"
  by (auto simp: row_change_def published_row_def failed_row_def dead_row_def)

lemma event_change_mono: "set rs \<subseteq> set rs' \<Longrightarrow> event_change e rs w w' \<Longrightarrow> event_change e rs' w w'"
  by (auto simp: event_change_def)

lemma outbox_compose:
  assumes one: "one_row e J r rows rows1" and "J \<subseteq> J'" and dist: "distinct (map ob_id rows)" and r: "r \<in> set rows"
    and notin: "ob_id r \<notin> ob_id ` set rs"
    and rest: "list_all2 (\<lambda>r r'. r' = r \<or> r \<in> set rs \<and> row_change e J' r r') rows1 rows2"
  shows "list_all2 (\<lambda>x x'. x' = x \<or> x \<in> set (r # rs) \<and> row_change e J' x x') rows rows2"
proof -
  from one obtain f where f: "rows1 = row_update ob_id (ob_id r) f rows" "row_change e J r (f r)" "\<And>x. ob_id (f x) = ob_id x"
    by (auto simp: one_row_def)
  have len: "length rows2 = length rows" using rest f(1) by (simp add: list_all2_lengthD [symmetric])
  have "rows2 ! i = rows ! i \<or> rows ! i \<in> set (r # rs) \<and> row_change e J' (rows ! i) (rows2 ! i)" if i: "i < length rows" for i
  proof -
    have 1: "rows1 ! i = (if ob_id (rows ! i) = ob_id r then f (rows ! i) else rows ! i)"
      using i f(1) by (simp add: row_update_def)
    have 2: "rows2 ! i = rows1 ! i \<or> rows1 ! i \<in> set rs \<and> row_change e J' (rows1 ! i) (rows2 ! i)"
      using rest i f(1) by (simp add: list_all2_conv_all_nth)
    show ?thesis
    proof (cases "ob_id (rows ! i) = ob_id r")
      case True
      with dist r i have eq: "rows ! i = r" by (metis distinct_map inj_onD nth_mem)
      with 1 2 notin f(3) [of r] have "rows2 ! i = f r" by (metis image_eqI)
      with eq row_change_mono [OF assms(2) f(2)] show ?thesis by simp
    next
      case False
      with 1 2 show ?thesis by auto
    qed
  qed
  with len show ?thesis by (simp add: list_all2_conv_all_nth)
qed

lemma queued_effect:
  assumes "toJobData r = Inr j" and "pg_uuid e (jd_webhookEventId j) = Some i"
    and "list_all2 (\<lambda>w w'. w' = w \<or> event_change e rs w w') (queued_rows (pg_now e) i ws) ws'"
  shows "list_all2 (\<lambda>w w'. w' = w \<or> event_change e (r # rs) w w') ws ws'"
proof -
  have "ws' ! n = ws ! n \<or> event_change e (r # rs) (ws ! n) (ws' ! n)" if n: "n < length ws" for n
  proof -
    have 2: "ws' ! n = queued_rows (pg_now e) i ws ! n \<or> event_change e rs (queued_rows (pg_now e) i ws ! n) (ws' ! n)"
      using assms(3) n by (simp add: list_all2_conv_all_nth queued_rows_def)
    have 1: "queued_rows (pg_now e) i ws ! n = (if we_id (ws ! n) = i \<and> we_status (ws ! n) = WE_Received
        then (ws ! n)\<lparr>we_status := WE_Queued, we_updatedAt := pg_now e\<rparr> else ws ! n)"
      using n by (simp add: queued_rows_def row_update_def)
    show ?thesis
    proof (cases "we_id (ws ! n) = i \<and> we_status (ws ! n) = WE_Received")
      case True
      with 1 2 assms(1,2) show ?thesis by (auto simp: event_change_def)
    next
      case False
      with 1 2 event_change_mono [of rs "r # rs" e "ws ! n" "ws' ! n"] show ?thesis by auto
    qed
  qed
  moreover have "length ws' = length ws" using assms(3) by (simp add: list_all2_lengthD [symmetric] queued_rows_def)
  ultimately show ?thesis by (simp add: list_all2_conv_all_nth)
qed

lemma events_mono:
  "list_all2 (\<lambda>w w'. w' = w \<or> event_change e rs w w') ws ws' \<Longrightarrow>
   list_all2 (\<lambda>w w'. w' = w \<or> event_change e (r # rs) w w') ws ws'"
  by (erule list_all2_mono) (auto intro: event_change_mono [of rs "r # rs"])

lemma one_row_ids: "one_row e J r rows rows' \<Longrightarrow> map ob_id rows' = map ob_id rows"
  unfolding one_row_def by (auto intro: row_update_keys)

lemma one_row_others:
  "one_row e J r rows rows' \<Longrightarrow> x \<in> set rows \<Longrightarrow> ob_id x \<noteq> ob_id r \<Longrightarrow> x \<in> set rows'"
  unfolding one_row_def by (auto simp: in_row_update intro!: bexI [of _ x])

lemma emits_jobs:
  assumes "emits J p" and "p e s = (r, s')"
  shows "queue_jobs s \<subseteq> queue_jobs s'" "queue_jobs s' \<subseteq> queue_jobs s \<union> J"
  using assms unfolding emits_def by (metis snd_conv set_append Un_upper1, metis snd_conv set_append Un_mono subset_refl)

lemma reject_safe: "fault_safe (reject_outbox_event r err)"
  unfolding reject_outbox_event_def by (intro fault_safe_intros)

lemma dispatch_events_effect:
  assumes "dispatch_events b rs result e s = (Inr result', s')" and "\<not> aborted s" and "distinct (map ob_id rs)"
    and "set rs \<subseteq> set (outbox_events (tables s))" and "distinct (map ob_id (outbox_events (tables s)))"
  shows "batch_effect e rs (queue_jobs s') (tables s) (tables s')"
  using assms
proof (induction b rs result arbitrary: s rule: dispatch_events.induct)
  case (1 b result)
  then show ?case by (simp add: tx_basic_Inr batch_effect_refl)
next
  case (2 b r rs result)
  have notin: "ob_id r \<notin> ob_id ` set rs" and r: "r \<in> set (outbox_events (tables s))" using 2(5,6) by auto
  have later: "batch_effect e (r # rs) (queue_jobs s') (tables s) (tables s')"
    if one: "one_row e J r (outbox_events (tables s)) rows" and J: "J \<subseteq> queue_jobs s'"
      and t: "tables s1 = (tables s)\<lparr>webhook_events := ws, outbox_events := rows\<rparr>"
      and ws: "ws = webhook_events (tables s) \<or>
        (\<exists>i j. toJobData r = Inr j \<and> pg_uuid e (jd_webhookEventId j) = Some i \<and> ws = queued_rows (pg_now e) i (webhook_events (tables s)))"
      and IH: "batch_effect e rs (queue_jobs s') (tables s1) (tables s')" for J rows ws s1
    using IH outbox_compose [OF one J 2(7) r notin] events_mono [of e rs "webhook_events (tables s)" _ r]
      queued_effect [of r _ e _ rs "webhook_events (tables s)"] ws
    unfolding batch_effect_def t by auto
  have pre: "distinct (map ob_id rs)" using 2(5) by simp
  have keep: "set rs \<subseteq> set rows" "distinct (map ob_id rows)" if "one_row e J r (outbox_events (tables s)) rows" for J rows
  proof -
    show "distinct (map ob_id rows)" using one_row_ids [OF that] 2(7) by simp
    show "set rs \<subseteq> set rows" using one_row_others [OF that] 2(6) notin by (force simp: image_iff)
  qed
  show ?case
  proof (cases "toJobData r")
    case (Inl err)
    with 2(3) obtain u s1 where 1: "reject_outbox_event r err e s = (Inr u, s1)"
      and rest: "dispatch_events b rs (result\<lparr>br_failed := br_failed result + 1\<rparr>) e s1 = (Inr result', s')"
      by (auto simp: tx_bind_Inr)
    from reject_success [OF 1 Inl] obtain rows where t: "tables s1 = (tables s)\<lparr>outbox_events := rows\<rparr>"
      and one: "one_row e (queue_jobs s1) r (outbox_events (tables s)) rows" by blast
    have ok: "\<not> aborted s1"
      using fault_safeD(1) [OF reject_safe 2(4) 1] .
    have J: "queue_jobs s1 \<subseteq> queue_jobs s'" using emits_jobs(1) [OF emits_events [of rs rs] rest] by simp
    have IH: "batch_effect e rs (queue_jobs s') (tables s1) (tables s')"
      using 2(1) [OF Inl rest ok pre] keep [OF one] t by simp
    have t': "tables s1 = (tables s)\<lparr>webhook_events := webhook_events (tables s), outbox_events := rows\<rparr>" using t by simp
    show ?thesis by (rule later [OF one J t' _ IH]) simp
  next
    case (Inr j)
    with 2(3) obtain published s1 where 1: "publishOutboxEvent b r j e s = (Inr published, s1)"
      and rest: "(if published then dispatch_events b rs (result\<lparr>br_published := br_published result + 1\<rparr>)
        else tx_return (result\<lparr>br_failed := br_failed result + 1\<rparr>)) e s1 = (Inr result', s')"
      by (auto simp: tx_bind_Inr)
    from publish_success [OF 1 Inr 2(4)] obtain rows where one: "one_row e (queue_jobs s1) r (outbox_events (tables s)) rows"
      and t: "if published then \<exists>i. pg_uuid e (jd_webhookEventId j) = Some i \<and>
         tables s1 = (tables s)\<lparr>webhook_events := queued_rows (pg_now e) i (webhook_events (tables s)), outbox_events := rows\<rparr>
       else tables s1 = (tables s)\<lparr>outbox_events := rows\<rparr>" by blast
    have ok: "\<not> aborted s1" using fault_safeD(1) [OF publishOutboxEvent_safe 2(4) 1] .
    show ?thesis
    proof (cases published)
      case True
      with t obtain i where i: "pg_uuid e (jd_webhookEventId j) = Some i"
        "tables s1 = (tables s)\<lparr>webhook_events := queued_rows (pg_now e) i (webhook_events (tables s)), outbox_events := rows\<rparr>" by auto
      from True rest have rest': "dispatch_events b rs (result\<lparr>br_published := br_published result + 1\<rparr>) e s1 = (Inr result', s')" by simp
      have J: "queue_jobs s1 \<subseteq> queue_jobs s'" using emits_jobs(1) [OF emits_events [of rs rs] rest'] by simp
      have IH: "batch_effect e rs (queue_jobs s') (tables s1) (tables s')"
        using 2(2) [OF Inr True rest' ok pre] keep [OF one] i by simp
      show ?thesis by (rule later [OF one J i(2) _ IH]) (use i Inr in blast)
    next
      case False
      with rest have s': "s' = s1" by (simp add: tx_basic_Inr)
      have t': "tables s1 = (tables s)\<lparr>webhook_events := webhook_events (tables s), outbox_events := rows\<rparr>" using t False by simp
      show ?thesis by (rule later [OF one _ t' _]) (simp_all add: s' batch_effect_refl)
    qed
  qed
qed

lemma eligible_rows_sub: "set (eligible_rows now lock limit d) \<subseteq> {r \<in> set (outbox_events d). eligible now r \<and> \<not> lock (ob_id r)}"
  unfolding eligible_rows_def by (auto dest!: in_set_takeD)

lemma distinct_sort_map: "distinct (map f xs) \<Longrightarrow> distinct (map f (sort_key g xs))"
  by (metis distinct_map distinct_sort set_sort)

lemma eligible_rows_distinct:
  "distinct (map ob_id (outbox_events d)) \<Longrightarrow> distinct (map ob_id (eligible_rows now lock limit d))"
proof -
  assume "distinct (map ob_id (outbox_events d))"
  then have "distinct (map ob_id (sort_key ob_createdAt (filter (eligible now) (outbox_events d))))"
    by (intro distinct_sort_map) (simp add: distinct_map_filter)
  then have "distinct (map ob_id (filter (\<lambda>r. \<not> lock (ob_id r)) (sort_key ob_createdAt (filter (eligible now) (outbox_events d)))))"
    by (rule distinct_map_filter)
  then show ?thesis unfolding eligible_rows_def by (metis distinct_take take_map)
qed

lemma body_unfold:
  assumes "dispatch_batch_body b limit e (new_session d w) = (Inr result, s')"
  obtains s1 where "dispatch_events b (eligible_rows (pg_now e) (locked e) limit d)
      \<lparr>br_selected = length (eligible_rows (pg_now e) (locked e) limit d), br_published = 0, br_failed = 0\<rparr> e s1 = (Inr result, s')"
    "tables s1 = d" "ext s1 = w" "\<not> aborted s1"
  using assms unfolding dispatch_batch_body_def findEligibleEvents_def by (auto simp: tx_inv)

lemma emits_body:
  "\<exists>new. set new \<subseteq> jobs_for (eligible_rows (pg_now e) (locked e) limit d) \<and>
     bk_jobs (dw_broker (ext (snd (dispatch_batch_body b limit e (new_session d w))))) = bk_jobs (dw_broker w) @ new"
proof -
  let ?rs = "eligible_rows (pg_now e) (locked e) limit d"
  let ?r0 = "\<lparr>br_selected = length ?rs, br_published = 0, br_failed = 0\<rparr>"
  have "\<exists>s1. ext s1 = w \<and> ((\<exists>err. dispatch_batch_body b limit e (new_session d w) = (Inl err, s1)) \<or>
      dispatch_batch_body b limit e (new_session d w) = dispatch_events b ?rs ?r0 e s1)"
  proof (cases "faults e 0")
    case None
    then show ?thesis
      by (intro exI [of _ "(new_session d w)\<lparr>stmts := Suc 0, tables := d\<rparr>"])
        (simp add: dispatch_batch_body_def findEligibleEvents_def tx_bind_def tx_run query_def sql_def Let_def)
  next
    case (Some err)
    then show ?thesis
      by (intro exI [of _ "(new_session d w)\<lparr>stmts := Suc 0, aborted := True\<rparr>"])
        (simp add: dispatch_batch_body_def findEligibleEvents_def tx_bind_def tx_run query_def sql_def Let_def)
  qed
  then obtain s1 where s1: "ext s1 = w" and
    cases: "(\<exists>err. dispatch_batch_body b limit e (new_session d w) = (Inl err, s1)) \<or>
      dispatch_batch_body b limit e (new_session d w) = dispatch_events b ?rs ?r0 e s1" by blast
  from emits_events [of ?rs ?rs b ?r0] obtain new where "set new \<subseteq> jobs_for ?rs"
    "bk_jobs (dw_broker (ext (snd (dispatch_events b ?rs ?r0 e s1)))) = bk_jobs (dw_broker (ext s1)) @ new"
    unfolding emits_def by blast
  with cases s1 show ?thesis by (auto intro: exI [of _ "[]"])
qed

lemma transaction_ext: "snd (snd (transaction p e (d, x))) = ext (snd (p e (new_session d x)))"
  by (auto simp: transaction_def split: prod.splits sum.splits commit_outcome.splits)

lemma dispatch_jobs:
  "\<exists>new. set new \<subseteq> jobs_for (eligible_rows (pg_now e) (locked e) limit d) \<and>
     bk_jobs (dw_broker (snd (snd (dispatchBatch b limit e (d, w))))) = bk_jobs (dw_broker w) @ new"
  unfolding dispatchBatch_def transaction_ext by (rule emits_body)

lemma dispatch_calm_effect:
  assumes "dispatchBatch b limit (calm e) (d, w) = (Inr result, d', w')" and "distinct (map ob_id (outbox_events d))"
  shows "batch_effect e (eligible_rows (pg_now e) (locked e) limit d) (set (bk_jobs (dw_broker w'))) d d'"
proof -
  from assms(1) obtain s' where run: "dispatch_batch_body b limit (calm e) (new_session d w) = (Inr result, s')"
    and d': "d' = tables s'" "w' = ext s'"
    unfolding dispatchBatch_def dispatch.run_calm by (auto split: prod.splits sum.splits)
  from run obtain s1 where s1: "dispatch_events b (eligible_rows (pg_now e) (locked e) limit d)
      \<lparr>br_selected = length (eligible_rows (pg_now e) (locked e) limit d), br_published = 0, br_failed = 0\<rparr> (calm e) s1 = (Inr result, s')"
    "tables s1 = d" "ext s1 = w" "\<not> aborted s1" by (rule body_unfold) simp
  have "batch_effect (calm e) (eligible_rows (pg_now e) (locked e) limit d) (queue_jobs s') d (tables s')"
    using dispatch_events_effect [OF s1(1,4) eligible_rows_distinct [OF assms(2)]] eligible_rows_sub s1(2) assms(2) by fastforce
  then show ?thesis unfolding d' by (simp add: batch_effect_def row_change_def event_change_def)
qed

lemma dispatch_effect:
  assumes "distinct (map ob_id (outbox_events d))" and "dispatchBatch b limit e (d, w) = (r, d', w')"
  shows "batch_effect e (eligible_rows (pg_now e) (locked e) limit d) (set (bk_jobs (dw_broker w'))) d d'"
  using dispatch.outcome [of b limit e "(d, w)"]
proof (elim disjE exE conjE)
  assume "transaction (dispatch_batch_body b limit) e (d, w) = transaction (dispatch_batch_body b limit) (calm e) (d, w)"
  then have run: "dispatchBatch b limit (calm e) (d, w) = (r, d', w')" using assms(2) by (simp add: dispatchBatch_def)
  show ?thesis
  proof (cases r)
    case (Inl err)
    with run have "d' = d" unfolding dispatchBatch_def dispatch.run_calm by (auto split: prod.splits sum.splits)
    then show ?thesis by (simp add: batch_effect_refl)
  next
    case (Inr result)
    with run dispatch_calm_effect assms(1) show ?thesis by blast
  qed
next
  fix err x
  assume "transaction (dispatch_batch_body b limit) e (d, w) = (Inl err, fst (d, w), x)"
  with assms(2) show ?thesis by (simp add: dispatchBatch_def batch_effect_refl)
next
  fix err x result
  assume "transaction (dispatch_batch_body b limit) e (d, w) = (Inl err, x)"
    and "transaction (dispatch_batch_body b limit) (calm e) (d, w) = (Inr result, x)"
  with assms dispatch_calm_effect show ?thesis by (simp add: dispatchBatch_def)
qed

section \<open>A batch while Redis and PostgreSQL answer\<close>

definition job_of :: "OutboxEventEntity \<Rightarrow> ProcessWebhookEventJobData" where
  "job_of r = (case toJobData r of Inr j \<Rightarrow> j | Inl err \<Rightarrow> \<lparr>jd_webhookEventId = [], jd_correlationId = None\<rparr>)"

definition deliverable :: "env \<Rightarrow> OutboxEventEntity \<Rightarrow> bool" where
  "deliverable e r \<longleftrightarrow> (\<exists>j. toJobData r = Inr j \<and> pg_uuid e (jd_webhookEventId j) \<noteq> None)"

lemma publish_event_up:
  assumes "redis_up b" and "holder_ready (bk_holder (dw_broker (ext s)))" and "\<not> aborted s" and "toJobData r = Inr j"
    and "pg_uuid e (jd_webhookEventId j) = Some i"
  shows "\<exists>s'. publishOutboxEvent b r j (calm e) s = (Inr True, s') \<and> \<not> aborted s' \<and>
    holder_ready (bk_holder (dw_broker (ext s'))) \<and>
    bk_jobs (dw_broker (ext s')) = bk_jobs (dw_broker (ext s)) @ [j] \<and>
    (\<exists>t. tables s' = (tables s)\<lparr>webhook_events := queued_rows (pg_now e) i (webhook_events (tables s)),
       outbox_events := row_update ob_id (ob_id r) (\<lambda>x. x\<lparr>ob_status := OB_Published, ob_publishedAt := Some t,
         ob_nextAttemptAt := None, ob_lastError := None, ob_updatedAt := pg_now e\<rparr>) (outbox_events (tables s))\<rparr>)"
proof -
  obtain k where k: "publishProcessWebhookEvent b j (dw_broker (ext s)) = (Inr (), k)" "holder_ready (bk_holder k)"
    "bk_jobs k = bk_jobs (dw_broker (ext s)) @ [j]"
    using publish_up [OF assms(1,2), of j] unfolding publishProcessWebhookEvent_def by blast
  show ?thesis
    using k assms(3,5)
    by (auto simp: publishOutboxEvent_def Let_def tx_catch_def tx_eval tx_publish_def markWebhookQueued_def markPublished_def
        tx_log_def ob_update_def)
qed

lemma dispatch_events_up:
  assumes "redis_up b" and "holder_ready (bk_holder (dw_broker (ext s)))" and "\<not> aborted s"
    and "\<forall>r\<in>set rs. deliverable e r" and "distinct (map ob_id rs)" and "set rs \<subseteq> set (outbox_events (tables s))"
    and "distinct (map ob_id (outbox_events (tables s)))"
  shows "\<exists>s'. dispatch_events b rs result (calm e) s = (Inr (result\<lparr>br_published := br_published result + length rs\<rparr>), s') \<and>
    \<not> aborted s' \<and> holder_ready (bk_holder (dw_broker (ext s'))) \<and>
    bk_jobs (dw_broker (ext s')) = bk_jobs (dw_broker (ext s)) @ map job_of rs \<and>
    (\<forall>r\<in>set rs. \<exists>t. published_row t (pg_now e) r \<in> set (outbox_events (tables s'))) \<and>
    (\<forall>x\<in>set (outbox_events (tables s)). ob_id x \<notin> ob_id ` set rs \<longrightarrow> x \<in> set (outbox_events (tables s')))"
  using assms(2-)
proof (induction rs arbitrary: s result)
  case Nil
  then show ?case by (simp add: tx_run)
next
  case (Cons r rs)
  from Cons.prems(3) obtain j i where j: "toJobData r = Inr j" "pg_uuid e (jd_webhookEventId j) = Some i"
    by (auto simp: deliverable_def)
  from publish_event_up [OF assms(1) Cons.prems(1,2) j] obtain s1 t where
    1: "publishOutboxEvent b r j (calm e) s = (Inr True, s1)" "\<not> aborted s1" "holder_ready (bk_holder (dw_broker (ext s1)))"
      "bk_jobs (dw_broker (ext s1)) = bk_jobs (dw_broker (ext s)) @ [j]"
    and t: "tables s1 = (tables s)\<lparr>webhook_events := queued_rows (pg_now e) i (webhook_events (tables s)),
       outbox_events := row_update ob_id (ob_id r) (\<lambda>x. x\<lparr>ob_status := OB_Published, ob_publishedAt := Some t,
         ob_nextAttemptAt := None, ob_lastError := None, ob_updatedAt := pg_now e\<rparr>) (outbox_events (tables s))\<rparr>" by blast
  let ?rows = "outbox_events (tables s)" and ?rows1 = "outbox_events (tables s1)"
  have ids: "map ob_id ?rows1 = map ob_id ?rows" using t by (simp add: row_update_keys)
  have other: "x \<in> set ?rows1" if "x \<in> set ?rows" "ob_id x \<noteq> ob_id r" for x
    using that t by (auto simp: in_row_update intro!: bexI [of _ x])
  have pub: "published_row t (pg_now e) r \<in> set ?rows1"
    using Cons.prems(5) t by (auto simp: in_row_update published_row_def intro!: bexI [of _ r])
  have "set rs \<subseteq> set ?rows1" using Cons.prems(4,5) other by (force simp: image_iff)
  with Cons.IH [OF 1(3,2), of "result\<lparr>br_published := br_published result + 1\<rparr>"] Cons.prems ids obtain s' where
    s': "dispatch_events b rs (result\<lparr>br_published := br_published result + 1\<rparr>) (calm e) s1 =
        (Inr (result\<lparr>br_published := br_published result + 1 + length rs\<rparr>), s')" "\<not> aborted s'"
      "holder_ready (bk_holder (dw_broker (ext s')))" "bk_jobs (dw_broker (ext s')) = bk_jobs (dw_broker (ext s1)) @ map job_of rs"
      "\<forall>r\<in>set rs. \<exists>t. published_row t (pg_now e) r \<in> set (outbox_events (tables s'))"
      "\<forall>x\<in>set ?rows1. ob_id x \<notin> ob_id ` set rs \<longrightarrow> x \<in> set (outbox_events (tables s'))" by auto
  have "published_row t (pg_now e) r \<in> set (outbox_events (tables s'))"
    using s'(6) pub Cons.prems(4) by (force simp: published_row_def)
  moreover have "x \<in> set (outbox_events (tables s'))" if "x \<in> set ?rows" "ob_id x \<notin> ob_id ` set (r # rs)" for x
    using s'(6) other [OF that(1)] that(2) by auto
  ultimately show ?case using s' 1 j by (auto simp: tx_bind_def job_of_def)
qed

lemma dispatch_up:
  assumes "redis_up b" and "holder_ready (bk_holder (dw_broker w))" and "distinct (map ob_id (outbox_events d))"
    and "\<forall>r\<in>set (outbox_events d). deliverable e r"
  fixes limit :: nat
  defines "selected \<equiv> eligible_rows (pg_now e) (locked e) limit d"
  shows "\<exists>d' w'. dispatchBatch b limit (calm e) (d, w) =
      (Inr \<lparr>br_selected = length selected, br_published = length selected, br_failed = 0\<rparr>, d', w') \<and>
    holder_ready (bk_holder (dw_broker w')) \<and> bk_jobs (dw_broker w') = bk_jobs (dw_broker w) @ map job_of selected \<and>
    (\<forall>r\<in>set selected. \<exists>t. published_row t (pg_now e) r \<in> set (outbox_events d')) \<and>
    (\<forall>r\<in>set (outbox_events d). r \<notin> set selected \<longrightarrow> r \<in> set (outbox_events d'))"
proof -
  let ?s = "(new_session d w)\<lparr>stmts := Suc 0, tables := d\<rparr>"
  let ?r0 = "\<lparr>br_selected = length selected, br_published = 0, br_failed = 0\<rparr>"
  have sub: "set selected \<subseteq> set (outbox_events d)" using eligible_rows_sub unfolding selected_def by fastforce
  have start: "dispatch_batch_body b limit (calm e) (new_session d w) = dispatch_events b selected ?r0 (calm e) ?s"
    by (simp add: dispatch_batch_body_def findEligibleEvents_def query_def tx_eval selected_def Let_def)
  from dispatch_events_up [OF assms(1), of ?s selected e ?r0] assms(2-4) sub eligible_rows_distinct [OF assms(3)]
  obtain s' where s': "dispatch_events b selected ?r0 (calm e) ?s =
      (Inr \<lparr>br_selected = length selected, br_published = length selected, br_failed = 0\<rparr>, s')"
    "holder_ready (bk_holder (dw_broker (ext s')))"
    "bk_jobs (dw_broker (ext s')) = bk_jobs (dw_broker w) @ map job_of selected"
    "\<forall>r\<in>set selected. \<exists>t. published_row t (pg_now e) r \<in> set (outbox_events (tables s'))"
    "\<forall>x\<in>set (outbox_events d). ob_id x \<notin> ob_id ` set selected \<longrightarrow> x \<in> set (outbox_events (tables s'))"
    unfolding selected_def by auto
  have "ob_id x \<notin> ob_id ` set selected" if "x \<in> set (outbox_events d)" "x \<notin> set selected" for x
    using that sub assms(3) by (auto simp: distinct_map inj_on_def)
  with s' start show ?thesis unfolding dispatchBatch_def dispatch.run_calm by (auto intro!: exI)
qed

section \<open>Reconciliation\<close>

lemma reconcile_calm:
  "db_transaction (reconcile_statement olderThanMs limit) (calm e) d =
     (let stale = stale_rows (pg_now e) (locked e) olderThanMs limit d
      in (Inr (map (requeued_row (pg_now e)) stale),
          d\<lparr>outbox_events := map (\<lambda>r. if ob_id r \<in> set (map ob_id stale) then requeued_row (pg_now e) r else r) (outbox_events d)\<rparr>))"
  unfolding reconcile.db_calm by (simp add: reconcile_statement_def tx_eval Let_def)

lemma stale_rows_sub:
  "set (stale_rows now lock olderThanMs limit d) \<subseteq> {r \<in> set (outbox_events d). is_stale now lock olderThanMs d r}"
  unfolding stale_rows_def by (auto dest!: in_set_takeD)

lemma reconcile_calm_rows:
  assumes "distinct (map ob_id (outbox_events d))"
  shows "map (\<lambda>r. if ob_id r \<in> set (map ob_id (stale_rows now lock olderThanMs limit d)) then requeued_row now r else r) (outbox_events d) =
    map (\<lambda>r. if r \<in> set (stale_rows now lock olderThanMs limit d) then requeued_row now r else r) (outbox_events d)"
proof (rule map_cong [OF refl])
  fix r assume r: "r \<in> set (outbox_events d)"
  have "ob_id r \<in> set (map ob_id (stale_rows now lock olderThanMs limit d)) \<longleftrightarrow> r \<in> set (stale_rows now lock olderThanMs limit d)"
    using stale_rows_sub [of now lock olderThanMs limit d] assms r by (auto simp: distinct_map inj_on_def)
  then show "(if ob_id r \<in> set (map ob_id (stale_rows now lock olderThanMs limit d)) then requeued_row now r else r) =
      (if r \<in> set (stale_rows now lock olderThanMs limit d) then requeued_row now r else r)" by simp
qed

text \<open>The tables after a reconciliation are those before it, or those with the stale rows requeued.\<close>

lemma reconcile_effect:
  obtains (same) "snd (fst (reconcileStalePublishedEvents olderThanMs limit e d)) = d"
  | (requeued) "snd (fst (reconcileStalePublishedEvents olderThanMs limit e d)) =
      d\<lparr>outbox_events := map (\<lambda>r. if ob_id r \<in> set (map ob_id (stale_rows (pg_now e) (locked e) olderThanMs limit d))
        then requeued_row (pg_now e) r else r) (outbox_events d)\<rparr>"
proof -
  have eq: "snd (fst (reconcileStalePublishedEvents olderThanMs limit e d)) = snd (db_transaction (reconcile_statement olderThanMs limit) e d)"
    by (simp add: reconcileStalePublishedEvents_def split: prod.split sum.split)
  show thesis
    by (rule reconcile.effect_cases [of olderThanMs limit e d])
      (use that eq in \<open>auto simp: reconcile_calm Let_def\<close>)
qed

text \<open>The publications that may have been lost, as the statement means them.\<close>

definition lost_publications :: "time \<Rightarrow> (uuid \<Rightarrow> bool) \<Rightarrow> int \<Rightarrow> db \<Rightarrow> OutboxEventEntity set" where
  "lost_publications now lock olderThanMs d =
     {r. r \<in> set (outbox_events d) \<and> ob_type r = PROCESS_WEBHOOK_OUTBOX_TYPE \<and> ob_aggregateType r = WEBHOOK_OUTBOX_AGGREGATE_TYPE \<and>
         ob_status r = OB_Published \<and> ob_deadAt r = None \<and> \<not> lock (ob_id r) \<and>
         (\<exists>t. ob_publishedAt r = Some t \<and> t + olderThanMs < now) \<and>
         (\<exists>w. w \<in> set (webhook_events d) \<and> we_id w = ob_aggregateId r \<and> we_status w \<in> {WE_Received, WE_Queued} \<and> \<not> lock (we_id w))}"

lemma lost_publications_iff:
  "lost_publications now lock olderThanMs d = {r \<in> set (outbox_events d). is_stale now lock olderThanMs d r}"
  unfolding lost_publications_def is_stale_def by (auto simp: list_ex_iff split: option.splits)

lemma card_stale_rows:
  assumes "distinct (map ob_id (outbox_events d))"
  shows "card (lost_publications now lock olderThanMs d) = length (filter (is_stale now lock olderThanMs d) (outbox_events d))"
    and "card (set (stale_rows now lock olderThanMs limit d)) = length (stale_rows now lock olderThanMs limit d)"
    and "length (stale_rows now lock olderThanMs limit d) = min limit (card (lost_publications now lock olderThanMs d))"
proof -
  have dist: "distinct (filter (is_stale now lock olderThanMs d) (outbox_events d))" using assms by (simp add: distinct_map)
  from distinct_card [OF this]
  show card: "card (lost_publications now lock olderThanMs d) = length (filter (is_stale now lock olderThanMs d) (outbox_events d))"
    by (simp add: lost_publications_iff)
  have "distinct (stale_rows now lock olderThanMs limit d)" using dist by (simp add: stale_rows_def)
  then show "card (set (stale_rows now lock olderThanMs limit d)) = length (stale_rows now lock olderThanMs limit d)"
    by (rule distinct_card)
  show "length (stale_rows now lock olderThanMs limit d) = min limit (card (lost_publications now lock olderThanMs d))"
    unfolding card by (simp add: stale_rows_def min.commute)
qed

lemma requeued_job: "toJobData (requeued_row now r) = toJobData r" "ob_id (requeued_row now r) = ob_id r"
proof -
  have payload: "ob_payload (requeued_row now r) = ob_payload r" by (simp add: requeued_row_def)
  show "toJobData (requeued_row now r) = toJobData r" unfolding toJobData_def payload ..
  show "ob_id (requeued_row now r) = ob_id r" by (simp add: requeued_row_def)
qed

lemma requeued_eligible:
  "is_stale now lock olderThanMs d r \<Longrightarrow> eligible now (requeued_row now r)"
  by (simp add: is_stale_def eligible_def requeued_row_def)

section \<open>The runner\<close>

text \<open>
  The runner with the number of dispatches and of reconciliations that were started and have not settled.
\<close>

inductive runner_step :: "OutboxDispatcherRunnerService \<times> nat \<times> nat \<Rightarrow> OutboxDispatcherRunnerService \<times> nat \<times> nat \<Rightarrow> bool" where
  tick: "dispatchOnce now r = (started, r') \<Longrightarrow> runner_step (r, n, m) (r', if started then Suc n else n, m)"
| settled: "runner_step (r, Suc n, m) (dispatch_settled now result r, n, m)"
| reconcile_tick: "reconcileOnce r = (started, r') \<Longrightarrow> runner_step (r, n, m) (r', n, if started then Suc m else m)"
| reconcile_done: "runner_step (r, n, Suc m) (reconcile_settled result r, n, m)"
| boot: "runner_step (r, n, m) (runner_bootstrap js_number enabled interval r, n, m)"
| shutdown: "runner_step (r, n, m) (runner_shutdown r, n, m)"

lemma settled_sel [simp]:
  "or_inFlightDispatch (dispatch_settled now result r) = False"
  "or_inFlightReconcile (dispatch_settled now result r) = or_inFlightReconcile r"
  "or_inFlightReconcile (reconcile_settled res r) = False"
  "or_inFlightDispatch (reconcile_settled res r) = or_inFlightDispatch r"
  "or_inFlightDispatch (runner_bootstrap js_number enabled interval r) = or_inFlightDispatch r"
  "or_inFlightReconcile (runner_bootstrap js_number enabled interval r) = or_inFlightReconcile r"
  "or_inFlightDispatch (runner_shutdown r) = or_inFlightDispatch r"
  "or_inFlightReconcile (runner_shutdown r) = or_inFlightReconcile r"
  by (simp_all add: dispatch_settled_def reconcile_settled_def runner_bootstrap_def runner_shutdown_def Let_def split: sum.split)

lemma runner_in_flight:
  assumes "runner_step\<^sup>*\<^sup>* (new_runner, 0, 0) (r, n, m)"
  shows "n = (if or_inFlightDispatch r then 1 else 0) \<and> m = (if or_inFlightReconcile r then 1 else 0)"
  using assms
proof (induction "(r, n, m)" arbitrary: r n m rule: rtranclp_induct)
  case base
  then show ?case by (simp add: new_runner_def)
next
  case (step y)
  obtain r0 n0 m0 where y: "y = (r0, n0, m0)" by (cases y)
  with step(3) have IH: "n0 = (if or_inFlightDispatch r0 then 1 else 0)" "m0 = (if or_inFlightReconcile r0 then 1 else 0)" by auto
  from step(2) y IH show ?case
    by cases (auto simp: dispatchOnce_def reconcileOnce_def split: if_splits)
qed

lemma cooldown_bounds: "1000 \<le> calculateCooldownMs r \<and> calculateCooldownMs r \<le> 30000"
proof -
  have "(1000 :: int) * 1 \<le> 1000 * 2 ^ (or_consecutiveFailures r - 1)" by (rule mult_left_mono) simp_all
  then show ?thesis by (simp add: calculateCooldownMs_def RUNNER_BACKOFF_BASE_MS_def RUNNER_BACKOFF_MAX_MS_def)
qed

lemma backoff_lower: "5000 \<le> calculateOutboxBackoffMs attempts"
proof -
  have "(5000 :: int) * 1 \<le> 5000 * 2 ^ nat (max 0 (attempts - 1))" by (rule mult_left_mono) simp_all
  then show ?thesis by (simp add: calculateOutboxBackoffMs_def OUTBOX_RETRY_BASE_DELAY_MS_def OUTBOX_RETRY_MAX_DELAY_MS_def)
qed

lemma backoff_double:
  assumes "1 \<le> attempts"
  shows "calculateOutboxBackoffMs (attempts + 1) = min (2 * calculateOutboxBackoffMs attempts) 300000"
proof -
  have e: "nat (max 0 (attempts + 1 - 1)) = Suc (nat (max 0 (attempts - 1)))" using assms by (simp add: nat_eq_iff max_def)
  define p :: int where "p = 2 ^ nat (max 0 (attempts - 1))"
  have "calculateOutboxBackoffMs (attempts + 1) = min (5000 * (2 * p)) 300000"
    unfolding calculateOutboxBackoffMs_def e OUTBOX_RETRY_BASE_DELAY_MS_def OUTBOX_RETRY_MAX_DELAY_MS_def p_def by simp
  moreover have "calculateOutboxBackoffMs attempts = min (5000 * p) 300000"
    unfolding calculateOutboxBackoffMs_def OUTBOX_RETRY_BASE_DELAY_MS_def OUTBOX_RETRY_MAX_DELAY_MS_def p_def by simp
  ultimately show ?thesis by (auto simp: min_def)
qed

section \<open>Properties\<close>

text \<open>
  C18: No event is lost between the outbox and the queue: whatever fails during a batch, and whether or not it commits, a row is marked
  \<open>PUBLISHED\<close> only when the queue holds its job; every other change of a row is a recorded
  failure with a next attempt, or the death of a row whose payload names no event; events change only
  from \<open>RECEIVED\<close> to \<open>QUEUED\<close>, for a published row; all other tables are untouched; and only jobs of eligible rows are added.
\<close>

theorem dispatch_never_loses:
  assumes "distinct (map ob_id (outbox_events d))" and "dispatchBatch b limit e (d, w) = (r, d', w')"
  defines "selected \<equiv> eligible_rows (pg_now e) (locked e) limit d"
  shows "(\<exists>new. bk_jobs (dw_broker w') = bk_jobs (dw_broker w) @ new \<and> set new \<subseteq> jobs_for selected) \<and>
    batch_effect e selected (set (bk_jobs (dw_broker w'))) d d'"
  using dispatch_effect [OF assms(1,2)] dispatch_jobs [of e limit d b w] assms(2) unfolding selected_def by auto

text \<open>
  While PostgreSQL and Redis answer, a batch publishes every row it selects: it returns that count, adds their jobs
  in order, marks each of them \<open>PUBLISHED\<close> and keeps the other rows.
\<close>

theorem dispatch_publishes_selected:
  fixes limit :: nat
  assumes "redis_up b" and "holder_ready (bk_holder (dw_broker w))" and "distinct (map ob_id (outbox_events d))"
    and "\<forall>r\<in>set (outbox_events d). deliverable e r"
  defines "selected \<equiv> eligible_rows (pg_now e) (locked e) limit d"
  shows "\<exists>d' w'. dispatchBatch b limit (calm e) (d, w) =
      (Inr \<lparr>br_selected = length selected, br_published = length selected, br_failed = 0\<rparr>, d', w') \<and>
    bk_jobs (dw_broker w') = bk_jobs (dw_broker w) @ map job_of selected \<and>
    (\<forall>r\<in>set selected. \<exists>t. published_row t (pg_now e) r \<in> set (outbox_events d')) \<and>
    (\<forall>r\<in>set (outbox_events d). r \<notin> set selected \<longrightarrow> r \<in> set (outbox_events d'))"
  using dispatch_up [OF assms(1-4), of limit] unfolding selected_def by blast

text \<open>
  Retry delays stay within bounds: the delay after a failed publication doubles from 5 s up to 5 min and never shrinks.
\<close>

theorem retry_delay_bounds:
  "calculateOutboxBackoffMs 1 = 5000 \<and> 5000 \<le> calculateOutboxBackoffMs attempts \<and> calculateOutboxBackoffMs attempts \<le> 300000 \<and>
   (1 \<le> attempts \<longrightarrow> calculateOutboxBackoffMs (attempts + 1) = min (2 * calculateOutboxBackoffMs attempts) 300000)"
proof -
  have "calculateOutboxBackoffMs attempts \<le> 300000" "calculateOutboxBackoffMs 1 = 5000"
    by (simp_all add: calculateOutboxBackoffMs_def OUTBOX_RETRY_BASE_DELAY_MS_def OUTBOX_RETRY_MAX_DELAY_MS_def)
  then show ?thesis using backoff_lower backoff_double by simp
qed

theorem retry_delay_bounds_witness: "calculateOutboxBackoffMs 8 = 300000 \<and> calculateOutboxBackoffMs 7 = 300000"
proof -
  have "calculateOutboxBackoffMs 7 = 300000"
    by (simp add: calculateOutboxBackoffMs_def OUTBOX_RETRY_BASE_DELAY_MS_def OUTBOX_RETRY_MAX_DELAY_MS_def)
  then show ?thesis using retry_delay_bounds [of 7] by simp
qed

text \<open>
  C19: A reconciliation hands back exactly the publications that may be lost: a run either changes nothing or requeues rows that were published
  longer ago than the threshold, whose event is still \<open>RECEIVED\<close> or \<open>QUEUED\<close> and that nobody has locked; each requeued row keeps its job
  and is at once eligible for dispatch again; and when no statement fails, as many of them are requeued as the limit allows.
\<close>

theorem reconcile_requeues_stale:
  assumes "distinct (map ob_id (outbox_events d))" and "reconcileStalePublishedEvents olderThanMs limit e d = ((r, d'), lines)"
  shows "(d' = d \<or> (\<exists>S\<subseteq>lost_publications (pg_now e) (locked e) olderThanMs d.
        d' = d\<lparr>outbox_events := map (\<lambda>x. if x \<in> S then requeued_row (pg_now e) x else x) (outbox_events d)\<rparr>)) \<and>
    (\<forall>x\<in>lost_publications (pg_now e) (locked e) olderThanMs d. eligible (pg_now e) (requeued_row (pg_now e) x) \<and>
       ob_id (requeued_row (pg_now e) x) = ob_id x \<and> toJobData (requeued_row (pg_now e) x) = toJobData x) \<and>
    (e = calm e \<longrightarrow> (\<exists>S\<subseteq>lost_publications (pg_now e) (locked e) olderThanMs d.
       card S = min limit (card (lost_publications (pg_now e) (locked e) olderThanMs d)) \<and> r = Inr (card S) \<and>
       d' = d\<lparr>outbox_events := map (\<lambda>x. if x \<in> S then requeued_row (pg_now e) x else x) (outbox_events d)\<rparr>))"
proof -
  let ?S = "set (stale_rows (pg_now e) (locked e) olderThanMs limit d)"
  have sub: "?S \<subseteq> lost_publications (pg_now e) (locked e) olderThanMs d"
    using stale_rows_sub [of "pg_now e" "locked e" olderThanMs limit d] by (simp add: lost_publications_iff)
  have d': "d' = snd (fst (reconcileStalePublishedEvents olderThanMs limit e d))" using assms(2) by simp
  let ?d = "d\<lparr>outbox_events := map (\<lambda>x. if x \<in> ?S then requeued_row (pg_now e) x else x) (outbox_events d)\<rparr>"
  have changed: "d' = d \<or> d' = ?d"
    unfolding d' by (rule reconcile_effect [of olderThanMs limit e d]) (simp_all only: reconcile_calm_rows [OF assms(1)] simp_thms)
  have calm: "r = Inr (length (stale_rows (pg_now e) (locked e) olderThanMs limit d)) \<and> d' = ?d" if "e = calm e"
    using that assms(2) reconcile_calm [of olderThanMs limit e d] reconcile_calm_rows [OF assms(1)]
    by (auto simp: reconcileStalePublishedEvents_def Let_def)
  show ?thesis
  proof (intro conjI ballI impI)
    show "d' = d \<or> (\<exists>S\<subseteq>lost_publications (pg_now e) (locked e) olderThanMs d.
        d' = d\<lparr>outbox_events := map (\<lambda>x. if x \<in> S then requeued_row (pg_now e) x else x) (outbox_events d)\<rparr>)"
      using changed by (elim disj_forward) (auto intro!: exI [of _ ?S] sub)
  next
    assume "e = calm e"
    with calm sub card_stale_rows(2,3) [OF assms(1), of "pg_now e" "locked e" olderThanMs limit]
    show "\<exists>S\<subseteq>lost_publications (pg_now e) (locked e) olderThanMs d.
       card S = min limit (card (lost_publications (pg_now e) (locked e) olderThanMs d)) \<and> r = Inr (card S) \<and>
       d' = d\<lparr>outbox_events := map (\<lambda>x. if x \<in> S then requeued_row (pg_now e) x else x) (outbox_events d)\<rparr>"
      by (intro exI [of _ ?S]) simp
  next
    fix x assume "x \<in> lost_publications (pg_now e) (locked e) olderThanMs d"
    then show "eligible (pg_now e) (requeued_row (pg_now e) x)" by (auto simp: lost_publications_iff intro: requeued_eligible)
  qed (simp_all add: requeued_job)
qed

text \<open>
  C20: The runner never overlaps two dispatches or two reconciliations, whatever order its timers and
  callbacks come in; after a failed batch it waits at least one second and at most thirty before it may start the next one.
\<close>

theorem runner_never_overlaps:
  assumes "runner_step\<^sup>*\<^sup>* (new_runner, 0, 0) (r, n, m)"
  shows "n \<le> 1 \<and> m \<le> 1 \<and> (fst (dispatchOnce now r) \<longrightarrow> n = 0) \<and> (fst (reconcileOnce r) \<longrightarrow> m = 0) \<and>
    (\<forall>t err. 1000 \<le> or_cooldownUntilMs (dispatch_settled t (Inl err) r) - t \<and>
       or_cooldownUntilMs (dispatch_settled t (Inl err) r) - t \<le> 30000 \<and>
       (fst (dispatchOnce now (dispatch_settled t (Inl err) r)) \<longleftrightarrow> or_cooldownUntilMs (dispatch_settled t (Inl err) r) \<le> now))"
  using runner_in_flight [OF assms] cooldown_bounds
  by (auto simp: dispatchOnce_def reconcileOnce_def dispatch_settled_def Let_def)

section \<open>Sample runs\<close>

definition new_world :: dispatch_world where
  "new_world = \<lparr>dw_broker = new_broker, dw_logs = []\<rparr>"

definition sample_pending :: OutboxEventEntity where
  "sample_pending = outbox_row (js ''o1'') 0 None (js ''w1'')"

definition sample_queue_db :: db where
  "sample_queue_db = empty_db\<lparr>outbox_events := [sample_pending],
     webhook_events := [webhook_row (js ''w1'') 0 0 (js ''p1'') (js ''n1'') (toPayload sample_webhook_dto) (js ''h'')]\<rparr>"

lemma sample_pending_eligible: "eligible_rows 1700000000000 (\<lambda>_. False) 50 sample_queue_db = [sample_pending]"
  by (simp add: eligible_rows_def sample_queue_db_def eligible_def sample_pending_def outbox_row_def)

lemma sample_pending_job: "toJobData sample_pending = Inr \<lparr>jd_webhookEventId = js ''w1'', jd_correlationId = None\<rparr>"
  by (simp add: toJobData_def sample_pending_def outbox_row_def outbox_payload_def)

lemma sample_env_locked: "locked (sample_env n) = (\<lambda>_. False)"
  by (simp add: sample_env_def)

lemma sample_queue_ids: "distinct (map ob_id (outbox_events sample_queue_db))"
  by (simp add: sample_queue_db_def)

lemma sample_queue_deliverable: "\<forall>r\<in>set (outbox_events sample_queue_db). deliverable (sample_env 1) r"
  using sample_pending_job by (simp add: sample_queue_db_def deliverable_def)

lemma sample_world_ready: "holder_ready (bk_holder (dw_broker new_world))"
  using sample_bullmq_up(2) by (simp add: new_world_def)

theorem dispatch_publishes_selected_witness:
  "\<exists>d' w'. dispatchBatch sample_bullmq 50 (sample_env 1) (sample_queue_db, new_world) =
     (Inr \<lparr>br_selected = 1, br_published = 1, br_failed = 0\<rparr>, d', w') \<and>
     bk_jobs (dw_broker w') = [\<lparr>jd_webhookEventId = js ''w1'', jd_correlationId = None\<rparr>]"
  using dispatch_publishes_selected [OF sample_bullmq_up(1) sample_world_ready sample_queue_ids sample_queue_deliverable, of 50]
  by (auto simp: sample_env_locked sample_pending_eligible job_of_def sample_pending_job new_world_def new_broker_def)

text \<open>The same batch while Redis refuses every command: the row is kept for a later attempt.\<close>

definition redis_down :: bullmq where
  "redis_down = \<lparr>build_error = (\<lambda>_. None), error_events = (\<lambda>_. []), add_result = (\<lambda>_. Not_Added (js_error ''ECONNREFUSED'')),
     queue_clock = int\<rparr>"

theorem dispatch_never_loses_witness:
  "\<exists>r d' w'. dispatchBatch redis_down 50 (sample_env 1) (sample_queue_db, new_world) = (r, d', w') \<and>
     batch_effect (sample_env 1) [sample_pending] (set (bk_jobs (dw_broker w'))) sample_queue_db d'"
proof -
  obtain r d' w' where run: "dispatchBatch redis_down 50 (sample_env 1) (sample_queue_db, new_world) = (r, d', w')"
    by (metis prod_cases3)
  from dispatch_never_loses [OF sample_queue_ids run] run show ?thesis
    by (simp add: sample_env_locked sample_pending_eligible)
qed

definition sample_published_db :: db where
  "sample_published_db = sample_queue_db\<lparr>outbox_events := [published_row 0 0 sample_pending]\<rparr>"

theorem reconcile_requeues_stale_witness:
  "\<exists>d' lines. reconcileStalePublishedEvents DEFAULT_STALE_PUBLISHED_AFTER_MS DEFAULT_OUTBOX_RECONCILE_BATCH_SIZE (sample_env 1)
     sample_published_db = ((Inr 1, d'), lines)"
proof -
  obtain r d' ls where run: "reconcileStalePublishedEvents DEFAULT_STALE_PUBLISHED_AFTER_MS DEFAULT_OUTBOX_RECONCILE_BATCH_SIZE
      (sample_env 1) sample_published_db = ((r, d'), ls)" by (metis prod.exhaust)
  have dist: "distinct (map ob_id (outbox_events sample_published_db))" by (simp add: sample_published_db_def)
  have "lost_publications 1700000000000 (\<lambda>_. False) 600000 sample_published_db = {published_row 0 0 sample_pending}"
    by (auto simp: lost_publications_iff is_stale_def sample_published_db_def sample_queue_db_def published_row_def sample_pending_def
        outbox_row_def webhook_row_def)
  then have "card (lost_publications (pg_now (sample_env 1)) (locked (sample_env 1)) DEFAULT_STALE_PUBLISHED_AFTER_MS sample_published_db) = 1"
    by (simp add: DEFAULT_STALE_PUBLISHED_AFTER_MS_def sample_env_locked)
  with conjunct2 [OF conjunct2 [OF reconcile_requeues_stale [OF dist run]]] have "r = Inr 1"
    by (auto simp: DEFAULT_STALE_PUBLISHED_AFTER_MS_def DEFAULT_OUTBOX_RECONCILE_BATCH_SIZE_def sample_env_locked)
  with run show ?thesis by blast
qed

theorem runner_never_overlaps_witness:
  "\<exists>r n m. runner_step\<^sup>*\<^sup>* (new_runner, 0, 0) (r, n, m) \<and> or_inFlightDispatch r \<and> n \<le> 1 \<and> \<not> fst (dispatchOnce 5000 r)"
proof -
  have "dispatchOnce 1000 new_runner = (True, new_runner\<lparr>or_inFlightDispatch := True\<rparr>)"
    by (simp add: dispatchOnce_def new_runner_def)
  from runner_step.tick [OF this, of 0 0] have run: "runner_step\<^sup>*\<^sup>* (new_runner, 0, 0) (new_runner\<lparr>or_inFlightDispatch := True\<rparr>, 1, 0)"
    by simp
  from runner_never_overlaps [OF run, of 5000] run show ?thesis
    by (intro exI [of _ "new_runner\<lparr>or_inFlightDispatch := True\<rparr>"] exI [of _ 1] exI [of _ 0]) simp
qed

end
