(* ===== verification/Configuration.thy ===== *)
theory Configuration
  imports Observability
begin

text \<open>
  The configuration of both processes: the schema of the environment (\<open>src/config/env.validation.ts\<close>,
  \<open>src/database/database-url.validation.ts\<close>) and the options built from it
  (\<open>src/config/throttler-options.ts\<close>, \<open>src/processing/redis-options.ts\<close>, \<open>src/database/typeorm-options.ts\<close>,
  \<open>isSwaggerEnabled\<close> of \<open>src/main.ts\<close>).

  A schema is data: one rule per key.  Joi, which reads it, is not code of the repository: it is the argument
  \<open>validate\<close>, and \<open>documented_joi\<close> states what its documentation says of an accepted environment.  A
  configuration is the function \<open>ConfigService.get\<close>; an absent key gives \<open>undefined\<close>.  \<open>js_number\<close> is
  \<open>Number\<close> on values that are no numbers, where the result is an integer.
\<close>

section \<open>The schema\<close>

datatype joi_type =
    Joi_valid "jsstr list"
  | Joi_pattern "jsstr \<Rightarrow> bool"
  | Joi_min nat
  | Joi_port
  | Joi_positive_integer
  | Joi_boolean

datatype joi_presence = Joi_required | Joi_default uval | Joi_optional

type_synonym joi_schema = "(jsstr \<times> joi_type \<times> joi_presence) list"

type_synonym config = "jsstr \<Rightarrow> uval"

text \<open>\<open>/^postgres(ql)?:\/\/.+/\<close> and \<open>/^rediss?:\/\/.+/\<close>: the dot matches no line terminator.\<close>

definition line_terminator :: "code_unit \<Rightarrow> bool" where
  "line_terminator c \<longleftrightarrow> c = 0x0A \<or> c = 0x0D \<or> c = 0x2028 \<or> c = 0x2029"

definition url_with_scheme :: "jsstr \<Rightarrow> jsstr \<Rightarrow> bool" where
  "url_with_scheme scheme s \<longleftrightarrow>
     take (length scheme) s = scheme \<and>
     (case drop (length scheme) s of [] \<Rightarrow> False | c # cs \<Rightarrow> \<not> line_terminator c)"

definition database_url_pattern :: "jsstr \<Rightarrow> bool" where
  "database_url_pattern s \<longleftrightarrow> url_with_scheme (js ''postgres://'') s \<or> url_with_scheme (js ''postgresql://'') s"

definition redis_url_pattern :: "jsstr \<Rightarrow> bool" where
  "redis_url_pattern s \<longleftrightarrow> url_with_scheme (js ''redis://'') s \<or> url_with_scheme (js ''rediss://'') s"

definition envValidationSchema :: joi_schema where
  "envValidationSchema =
     [(js ''NODE_ENV'', Joi_valid (map js [''development'', ''test'', ''production'']),
         Joi_default (U_String (js ''development''))),
      (js ''PORT'', Joi_port, Joi_default (U_Number 3000)),
      (js ''DATABASE_URL'', Joi_pattern database_url_pattern, Joi_required),
      (js ''REDIS_URL'', Joi_pattern redis_url_pattern, Joi_required),
      (js ''WEBHOOK_SECRET'', Joi_min 16, Joi_required),
      (js ''WEBHOOK_TIMESTAMP_TOLERANCE_SECONDS'', Joi_positive_integer, Joi_default (U_Number 300)),
      (js ''OUTBOX_DISPATCH_ENABLED'', Joi_boolean, Joi_default (U_Bool True)),
      (js ''OUTBOX_DISPATCH_INTERVAL_MS'', Joi_positive_integer, Joi_default (U_Number 1000)),
      (js ''OUTBOX_MAX_ATTEMPTS'', Joi_positive_integer, Joi_default (U_Number 10)),
      (js ''RATE_LIMIT_ENABLED'', Joi_boolean, Joi_default (U_Bool True)),
      (js ''RATE_LIMIT_TTL_SECONDS'', Joi_positive_integer, Joi_default (U_Number 60)),
      (js ''RATE_LIMIT_LIMIT'', Joi_positive_integer, Joi_default (U_Number 100)),
      (js ''SWAGGER_ENABLED'', Joi_boolean, Joi_default (U_Bool False)),
      (js ''LOG_FORMAT'', Joi_valid (map js [''json'', ''text'']), Joi_optional)]"

text \<open>What Joi documents of the values it lets through: a string is not empty, a number is converted.\<close>

fun joi_value :: "joi_type \<Rightarrow> uval \<Rightarrow> bool" where
  "joi_value (Joi_valid xs) v \<longleftrightarrow> (case v of U_String s \<Rightarrow> s \<in> set xs | _ \<Rightarrow> False)"
| "joi_value (Joi_pattern matches) v \<longleftrightarrow> (case v of U_String s \<Rightarrow> s \<noteq> [] \<and> matches s | _ \<Rightarrow> False)"
| "joi_value (Joi_min n) v \<longleftrightarrow> (case v of U_String s \<Rightarrow> s \<noteq> [] \<and> n \<le> length s | _ \<Rightarrow> False)"
| "joi_value Joi_port v \<longleftrightarrow> (case v of U_Number n \<Rightarrow> 0 \<le> n \<and> n \<le> 65535 | _ \<Rightarrow> False)"
| "joi_value Joi_positive_integer v \<longleftrightarrow> (case v of U_Number n \<Rightarrow> 0 < n | _ \<Rightarrow> False)"
| "joi_value Joi_boolean v \<longleftrightarrow> (case v of U_Bool b \<Rightarrow> True | _ \<Rightarrow> False)"

definition documented_joi :: "(joi_schema \<Rightarrow> config \<Rightarrow> jsstr list + config) \<Rightarrow> bool" where
  "documented_joi validate \<longleftrightarrow>
     (\<forall>schema environment cfg. validate schema environment = Inr cfg \<longrightarrow>
        (\<forall>(k, t, p)\<in>set schema. if environment k = U_Undefined
           then (case p of Joi_required \<Rightarrow> False | Joi_default v \<Rightarrow> cfg k = v | Joi_optional \<Rightarrow> cfg k = U_Undefined)
           else joi_value t (cfg k)))"

section \<open>The database\<close>

definition databaseEnvSchema :: joi_schema where
  "databaseEnvSchema = [(js ''DATABASE_URL'', Joi_pattern database_url_pattern, Joi_required)]"

definition getValidatedDatabaseUrl :: "(joi_schema \<Rightarrow> config \<Rightarrow> jsstr list + config) \<Rightarrow> config \<Rightarrow> jsstr + uval" where
  "getValidatedDatabaseUrl validate environment =
     (case validate databaseEnvSchema environment of
        Inl messages \<Rightarrow> Inl (js ''Invalid database configuration: '' @ join (js ''; '') messages)
      | Inr cfg \<Rightarrow> Inr (cfg (js ''DATABASE_URL'')))"

record PoolOptions =
  po_max :: nat
  po_connectionTimeoutMillis :: nat
  po_idleTimeoutMillis :: nat

record DataSourceOptions =
  do_type :: jsstr
  do_url :: jsstr
  do_entities :: "jsstr list"
  do_migrations :: "jsstr list"
  do_installExtensions :: bool
  do_synchronize :: bool
  do_migrationsRun :: bool
  do_extra :: "PoolOptions option"

definition DATABASE_ENTITIES :: "jsstr list" where
  "DATABASE_ENTITIES =
     map js [''PaymentIntentEntity'', ''IdempotencyRecordEntity'', ''WebhookEventEntity'', ''OutboxEventEntity'',
             ''WebhookProcessingAttemptEntity'']"

definition createPostgresDataSourceOptions :: "jsstr \<Rightarrow> jsstr list \<Rightarrow> jsstr list \<Rightarrow> DataSourceOptions" where
  "createPostgresDataSourceOptions databaseUrl entities migrations =
     \<lparr>do_type = js ''postgres'', do_url = databaseUrl, do_entities = entities, do_migrations = migrations,
      do_installExtensions = False, do_synchronize = False, do_migrationsRun = False, do_extra = None\<rparr>"

definition createTypeOrmModuleOptions :: "jsstr \<Rightarrow> DataSourceOptions" where
  "createTypeOrmModuleOptions databaseUrl =
     (createPostgresDataSourceOptions databaseUrl DATABASE_ENTITIES [])
       \<lparr>do_extra := Some \<lparr>po_max = 10, po_connectionTimeoutMillis = 5000, po_idleTimeoutMillis = 30000\<rparr>\<rparr>"

section \<open>Redis\<close>

text \<open>
  An option that is left out is \<open>None\<close>.  \<open>ro_maxRetriesPerRequest\<close> is \<open>Some None\<close> for \<open>null\<close>;
  \<open>ro_retryStrategy\<close> is the delay before a reconnection, \<open>Some None\<close> for the strategy that gives \<open>null\<close>.
\<close>

record RedisOptions =
  ro_url :: jsstr
  ro_connectTimeout :: "nat option"
  ro_commandTimeout :: "nat option"
  ro_maxRetriesPerRequest :: "nat option option"
  ro_enableOfflineQueue :: "bool option"
  ro_lazyConnect :: "bool option"
  ro_retryStrategy :: "nat option option"

definition QUEUE_REDIS_COMMAND_TIMEOUT_MS :: nat where
  "QUEUE_REDIS_COMMAND_TIMEOUT_MS = 5000"

definition createQueueRedisConnectionOptions :: "jsstr \<Rightarrow> RedisOptions" where
  "createQueueRedisConnectionOptions redisUrl =
     \<lparr>ro_url = redisUrl, ro_connectTimeout = Some 2000, ro_commandTimeout = Some QUEUE_REDIS_COMMAND_TIMEOUT_MS,
      ro_maxRetriesPerRequest = Some (Some 1), ro_enableOfflineQueue = None, ro_lazyConnect = None, ro_retryStrategy = None\<rparr>"

definition createWorkerRedisConnectionOptions :: "jsstr \<Rightarrow> RedisOptions" where
  "createWorkerRedisConnectionOptions redisUrl =
     \<lparr>ro_url = redisUrl, ro_connectTimeout = Some 2000, ro_commandTimeout = None,
      ro_maxRetriesPerRequest = Some None, ro_enableOfflineQueue = None, ro_lazyConnect = None, ro_retryStrategy = None\<rparr>"

definition createHealthRedisConnectionOptions :: "jsstr \<Rightarrow> RedisOptions" where
  "createHealthRedisConnectionOptions redisUrl =
     \<lparr>ro_url = redisUrl, ro_connectTimeout = Some 1000, ro_commandTimeout = Some 1000,
      ro_maxRetriesPerRequest = Some (Some 1), ro_enableOfflineQueue = Some False, ro_lazyConnect = Some True,
      ro_retryStrategy = Some None\<rparr>"

section \<open>Rate limit and documentation\<close>

definition isRateLimitEnabled :: "config \<Rightarrow> bool" where
  "isRateLimitEnabled cfg \<longleftrightarrow>
     (let v = cfg (js ''RATE_LIMIT_ENABLED'') in v \<noteq> U_Bool False \<and> v \<noteq> U_String (js ''false''))"

definition number_or :: "(uval \<Rightarrow> int option) \<Rightarrow> int \<Rightarrow> uval \<Rightarrow> int option" where
  "number_or js_number n v =
     (case v of U_Undefined \<Rightarrow> Some n | U_Null \<Rightarrow> Some n | U_Number m \<Rightarrow> Some m | _ \<Rightarrow> js_number v)"

definition DEFAULT_RATE_LIMIT_TTL_SECONDS :: int where
  "DEFAULT_RATE_LIMIT_TTL_SECONDS = 60"

definition DEFAULT_RATE_LIMIT_LIMIT :: int where
  "DEFAULT_RATE_LIMIT_LIMIT = 100"

record ThrottlerModuleOptions =
  to_skipIf :: bool
  to_ttl :: "int option"
  to_limit :: "int option"

definition createThrottlerOptions :: "(uval \<Rightarrow> int option) \<Rightarrow> config \<Rightarrow> ThrottlerModuleOptions" where
  "createThrottlerOptions js_number cfg =
     (let enabled = isRateLimitEnabled cfg;
          ttlSeconds = number_or js_number DEFAULT_RATE_LIMIT_TTL_SECONDS (cfg (js ''RATE_LIMIT_TTL_SECONDS''));
          limit = number_or js_number DEFAULT_RATE_LIMIT_LIMIT (cfg (js ''RATE_LIMIT_LIMIT''))
      in \<lparr>to_skipIf = \<not> enabled, to_ttl = map_option (\<lambda>n. n * 1000) ttlSeconds, to_limit = limit\<rparr>)"

definition isSwaggerEnabled :: "jsstr option \<Rightarrow> jsstr option \<Rightarrow> bool" where
  "isSwaggerEnabled NODE_ENV SWAGGER_ENABLED \<longleftrightarrow>
     (if NODE_ENV \<noteq> Some (js ''production'') then True else SWAGGER_ENABLED = Some (js ''true''))"

section \<open>Facts\<close>

text \<open>The value an accepted environment has under a key of the schema.\<close>

lemma joi_accepts:
  assumes "documented_joi validate" and "validate schema environment = Inr cfg" and "(k, t, p) \<in> set schema"
  obtains (given) "joi_value t (cfg k)" | (default) v where "p = Joi_default v" "cfg k = v"
  | (absent) "p = Joi_optional" "cfg k = U_Undefined"
proof -
  from assms have "if environment k = U_Undefined
    then (case p of Joi_required \<Rightarrow> False | Joi_default v \<Rightarrow> cfg k = v | Joi_optional \<Rightarrow> cfg k = U_Undefined)
    else joi_value t (cfg k)"
    unfolding documented_joi_def by blast
  then show thesis using that by (cases p) (auto split: if_splits)
qed

lemma joi_typed:
  assumes "documented_joi validate" and "validate schema environment = Inr cfg" and "(k, t, p) \<in> set schema"
    and "p \<noteq> Joi_optional" and "\<And>v. p = Joi_default v \<Longrightarrow> joi_value t v"
  shows "joi_value t (cfg k)"
  using assms by (cases rule: joi_accepts [OF assms(1-3)]) auto

end
