(* ===== verification/Worker.thy ===== *)
theory Worker
  imports Processor Queue_Holder Configuration
begin

text \<open>
  The worker of the queue, \<open>src/processing/webhook-events-worker.service.ts\<close>: how it is built, what it does with a
  job, with a job that failed, and with the errors and reconnections of its connection.  Taking jobs from the queue and retrying
  them is BullMQ's part.
\<close>

record Job =
  jb_id :: "jsstr option"
  jb_name :: jsstr
  jb_data :: ProcessWebhookEventJobData
  jb_attemptsMade :: nat
  jb_optsAttempts :: "nat option"

text \<open>The BullMQ worker: the queue it serves, its connection, and how long finished jobs are kept (seconds, number).\<close>

record WorkerOptions =
  wo_queue :: jsstr
  wo_connection :: RedisOptions
  wo_concurrency :: nat
  wo_removeOnComplete :: "nat \<times> nat"
  wo_removeOnFail :: "nat \<times> nat"

record WebhookEventsWorkerService =
  wk_worker :: "WorkerOptions option"
  wk_errorThrottle :: LogThrottle
  wk_degraded :: bool

definition WORKER_ERROR_LOG_INTERVAL_MS :: int where
  "WORKER_ERROR_LOG_INTERVAL_MS = 30000"

definition new_worker :: WebhookEventsWorkerService where
  "new_worker = \<lparr>wk_worker = None, wk_errorThrottle = new_throttle WORKER_ERROR_LOG_INTERVAL_MS, wk_degraded = False\<rparr>"

text \<open>The worker is built when the application starts; \<open>REDIS_URL\<close> is the result of \<open>getOrThrow\<close>.\<close>

definition worker_bootstrap :: "uval + jsstr \<Rightarrow> WebhookEventsWorkerService \<Rightarrow> uval + WebhookEventsWorkerService" where
  "worker_bootstrap REDIS_URL s =
     (case REDIS_URL of
        Inl err \<Rightarrow> Inl err
      | Inr redisUrl \<Rightarrow>
          Inr (s\<lparr>wk_worker := Some
            \<lparr>wo_queue = WEBHOOK_EVENTS_QUEUE_NAME, wo_connection = createWorkerRedisConnectionOptions redisUrl,
             wo_concurrency = 1, wo_removeOnComplete = (3600, 1000), wo_removeOnFail = (7 * 24 * 3600, 5000)\<rparr>\<rparr>))"

text \<open>Whether the shutdown awaits the end of a worker.\<close>

definition worker_shutdown :: "WebhookEventsWorkerService \<Rightarrow> bool" where
  "worker_shutdown s \<longleftrightarrow> wk_worker s \<noteq> None"

definition hasExhaustedAttempts :: "Job \<Rightarrow> bool" where
  "hasExhaustedAttempts job \<longleftrightarrow>
     (case jb_optsAttempts job of None \<Rightarrow> 1 | Some n \<Rightarrow> n) \<le> jb_attemptsMade job"

definition job_id_field :: "jsstr option \<Rightarrow> jsstr \<times> uval" where
  "job_id_field jobId = (js ''jobId'', case jobId of None \<Rightarrow> U_Undefined | Some i \<Rightarrow> U_String i)"

fun result_status :: "ProcessingResult \<Rightarrow> jsstr" where
  "result_status PR_processed = js ''PROCESSED''"
| "result_status PR_already_processed = js ''ALREADY_PROCESSED''"
| "result_status (PR_failed reason) = js ''FAILED''"
| "result_status (PR_already_failed reason) = js ''ALREADY_FAILED''"

definition result_line :: "Job \<Rightarrow> ProcessingResult \<Rightarrow> log_event" where
  "result_line job result =
     (case result of
        PR_failed reason \<Rightarrow>
          (Log_Warn, js ''worker_job_failed'',
           [job_id_field (jb_id job), (js ''webhookEventId'', U_String (jd_webhookEventId (jb_data job))),
            (js ''status'', U_String (js ''FAILED'')), (js ''errorCode'', U_String (reason_text reason))])
      | _ \<Rightarrow>
          (Log_Info, js ''worker_job_processed'',
           [job_id_field (jb_id job), (js ''webhookEventId'', U_String (jd_webhookEventId (jb_data job))),
            (js ''status'', U_String (result_status result)),
            (js ''errorCode'', case result of PR_already_failed (Some reason) \<Rightarrow> U_String reason | _ \<Rightarrow> U_Undefined)]))"

definition processJob :: "Job \<Rightarrow> env \<Rightarrow> db \<Rightarrow> ((uval + unit) \<times> db) \<times> log_event list" where
  "processJob job e d =
     (if jb_name job \<noteq> PROCESS_WEBHOOK_EVENT_JOB_NAME then ((Inl (js_error ''UNSUPPORTED_JOB_TYPE''), d), [])
      else (case processWebhookEvent (jd_webhookEventId (jb_data job)) (jb_id job) e d of
              (Inl err, d') \<Rightarrow> ((Inl err, d'), [])
            | (Inr result, d') \<Rightarrow> ((Inr (), d'), [result_line job result])))"

text \<open>\<open>process\<close>: the log lines are written under the correlation identifier of the job.\<close>

definition process_job ::
  "Job \<Rightarrow> env \<Rightarrow> db \<Rightarrow> ((uval + unit) \<times> db) \<times> (jsstr option \<times> log_event) list" where
  "process_job job e d =
     (case processJob job e d of
        (r, logLines) \<Rightarrow> (r, map (Pair (normalizeCorrelationId (jd_correlationId (jb_data job)))) logLines))"

text \<open>The handler of BullMQ's \<open>failed\<close> event, which may come without its job.\<close>

definition job_failed_line :: "string \<Rightarrow> Job option \<Rightarrow> uval \<Rightarrow> log_event" where
  "job_failed_line event job error =
     (Log_Warn, js event,
      [job_id_field (Option.bind job jb_id),
       (js ''webhookEventId'', case job of None \<Rightarrow> U_Undefined | Some j \<Rightarrow> U_String (jd_webhookEventId (jb_data j))),
       (js ''correlationId'',
        case normalizeCorrelationId (Option.bind job (\<lambda>j. jd_correlationId (jb_data j))) of
          None \<Rightarrow> U_Undefined | Some c \<Rightarrow> U_String c),
       (js ''status'', U_String (js ''FAILED'')),
       (js ''errorCode'', U_String (toSafeErrorCode error (js ''WORKER_JOB_FAILED'')))]
      @ describeError error)"

definition on_job_failed :: "Job option \<Rightarrow> uval \<Rightarrow> log_event list" where
  "on_job_failed job error =
     job_failed_line ''worker_job_failed'' job error
     # (case job of
          None \<Rightarrow> []
        | Some j \<Rightarrow> if hasExhaustedAttempts j then [job_failed_line ''worker_job_exhausted'' job error] else [])"

definition handleWorkerError ::
  "int \<Rightarrow> uval \<Rightarrow> WebhookEventsWorkerService \<Rightarrow> WebhookEventsWorkerService \<times> log_event list" where
  "handleWorkerError now error w =
     (let errorCode = toSafeErrorCode error (js ''WORKER_ERROR'');
          w1 = w\<lparr>wk_degraded := True\<rparr>
      in case shouldEmit now errorCode (wk_errorThrottle w1) of
           (None, t) \<Rightarrow> (w1\<lparr>wk_errorThrottle := t\<rparr>, [])
         | (Some suppressedCount, t) \<Rightarrow>
             (w1\<lparr>wk_errorThrottle := t\<rparr>,
              [(Log_Error, js ''worker_error'',
                [(js ''status'', U_String (js ''FAILED'')), (js ''errorCode'', U_String errorCode),
                 (js ''suppressedCount'', U_Number (int suppressedCount))])]))"

definition handleWorkerReady :: "WebhookEventsWorkerService \<Rightarrow> WebhookEventsWorkerService \<times> log_event list" where
  "handleWorkerReady w =
     (if \<not> wk_degraded w then (w, [])
      else (case throttle_reset (wk_errorThrottle w) of
              (suppressedCount, t) \<Rightarrow>
                (w\<lparr>wk_errorThrottle := t, wk_degraded := False\<rparr>,
                 [(Log_Info, js ''worker_redis_recovered'',
                   [(js ''status'', U_String (js ''READY'')), (js ''suppressedCount'', U_Number (int suppressedCount))])])))"

lemma processJob_db:
  "snd (fst (processJob job e d)) =
     (if jb_name job \<noteq> PROCESS_WEBHOOK_EVENT_JOB_NAME then d
      else snd (processWebhookEvent (jd_webhookEventId (jb_data job)) (jb_id job) e d))"
  by (simp add: processJob_def split: prod.split sum.split)

end
