(* ===== verification/System.thy ===== *)
theory System
  imports Payment_Intents Webhook_Acceptance Processor Outbox Worker
begin

text \<open>
  The components together: the endpoints, the dispatcher, the reconciler and the worker share the
  database, and the dispatcher and the worker share the queue.  \<open>system_step\<close> is one operation of one
  of them, in any order and with any failures; the invariants hold in every state that is
  reached from the empty database.
\<close>

section \<open>Steps\<close>

text \<open>What does not change while the system runs: the libraries, the configuration and the conversions of PostgreSQL.\<close>

record platform =
  pf_sha256 :: "bytes \<Rightarrow> bytes"
  pf_hmac :: "bytes \<Rightarrow> bytes \<Rightarrow> bytes"
  pf_validator :: validator_library
  pf_config :: webhook_config
  pf_uuid :: "jsstr \<Rightarrow> uuid option"
  pf_numeric :: "jsstr \<Rightarrow> jsstr option"

definition sound_platform :: "platform \<Rightarrow> bool" where
  "sound_platform pl \<longleftrightarrow>
     documented_validator (pf_validator pl) \<and> numeric_column (pf_numeric pl) \<and> uuid_column (pf_uuid pl)"

text \<open>
  An environment of the platform: its conversions are those of the platform, and the generated
  identifiers are in canonical form.
\<close>

definition runs_on :: "platform \<Rightarrow> env \<Rightarrow> bool" where
  "runs_on pl e \<longleftrightarrow>
     pg_uuid e = pf_uuid pl \<and> pg_numeric e = pf_numeric pl \<and> (\<forall>n. pf_uuid pl (new_uuid e n) = Some (new_uuid e n))"

type_synonym system_state = "db \<times> dispatch_world"

definition initial_state :: system_state where
  "initial_state = (empty_db, new_world)"

abbreviation queued_jobs :: "dispatch_world \<Rightarrow> ProcessWebhookEventJobData set" where
  "queued_jobs w \<equiv> set (bk_jobs (dw_broker w))"

text \<open>
  \<open>create\<close> is a request that passed the validation pipe; a job is processed while the queue holds
  it, any number of times; \<open>broker\<close> is anything BullMQ and the queue holder do by themselves, which may
  lose jobs but not invent them.
\<close>

inductive system_step :: "platform \<Rightarrow> system_state \<Rightarrow> system_state \<Rightarrow> bool" for pl where
  create: "runs_on pl e \<Longrightarrow> accepts (pf_validator pl) CreatePaymentIntentDto_rules body \<Longrightarrow>
    map_of body (js ''amount'') = Some (JStr (pd_amount dto)) \<Longrightarrow>
    create_payment_intent_endpoint (pf_sha256 pl) key dto e d = (r, d') \<Longrightarrow> system_step pl (d, q) (d', q)"
| accept: "runs_on pl e \<Longrightarrow> requestBodyGuardMiddleware body = None \<Longrightarrow>
    accept_webhook_endpoint (pf_sha256 pl) (pf_hmac pl) (pf_validator pl) (pf_config pl) correlationId now headers rawBody body e d
      = (r, d') \<Longrightarrow> system_step pl (d, q) (d', q)"
| dispatch: "runs_on pl e \<Longrightarrow> dispatchBatch b limit e (d, q) = (r, d', q') \<Longrightarrow> system_step pl (d, q) (d', q')"
| reconcile: "runs_on pl e \<Longrightarrow> reconcileStalePublishedEvents olderThanMs limit e d = ((r, d'), lines) \<Longrightarrow>
    system_step pl (d, q) (d', q)"
| work: "runs_on pl e \<Longrightarrow> jb_data job \<in> queued_jobs q \<Longrightarrow> process_job job e d = ((r, d'), lines) \<Longrightarrow>
    system_step pl (d, q) (d', q)"
| broker: "queued_jobs q' \<subseteq> queued_jobs q \<Longrightarrow> system_step pl (d, q) (d, q')"

section \<open>The invariant\<close>

text \<open>A processed event and the confirmed payment intent it belongs to.\<close>

definition backs :: "WebhookEventEntity \<Rightarrow> PaymentIntentEntity \<Rightarrow> bool" where
  "backs w p \<longleftrightarrow>
     we_status w = WE_Processed \<and> pi_status p = PI_Confirmed \<and> we_paymentIntentId w = Some (pi_id p) \<and>
     we_txHash w \<noteq> None \<and> pi_confirmedTxHash p = we_txHash w \<and>
     (\<exists>amount. json_get (js ''amount'') (we_payload w) = Some (JStr amount) \<and>
        amount_units amount = amount_units (pi_amount p)) \<and>
     json_get (js ''asset'') (we_payload w) = Some (JStr (pi_asset p))"

definition intent_ok :: "WebhookEventEntity list \<Rightarrow> PaymentIntentEntity \<Rightarrow> bool" where
  "intent_ok events p \<longleftrightarrow>
     pi_fits p \<and> decimal (pi_amount p) \<and> length (fractional_part (pi_amount p)) \<le> 18 \<and> 0 < amount_units (pi_amount p) \<and>
     (pi_status p = PI_Created \<and> pi_confirmedTxHash p = None \<or> (\<exists>w\<in>set events. backs w p))"

text \<open>What acceptance stored of an event and no later step changes.\<close>

definition stored_payload :: "WebhookEventEntity \<Rightarrow> BlockchainWebhookPayload \<Rightarrow> bool" where
  "stored_payload w payload \<longleftrightarrow>
     we_payload w = payload_json payload \<and> we_txHash w = wp_txHash payload \<and>
     map_option normalizeTxHash (wp_txHash payload) = wp_txHash payload \<and>
     isValidPaymentAmount (JStr (wp_amount payload))"

definition event_ok :: "platform \<Rightarrow> PaymentIntentEntity list \<Rightarrow> WebhookEventEntity \<Rightarrow> bool" where
  "event_ok pl intents w \<longleftrightarrow>
     we_fits w \<and> pf_uuid pl (we_id w) = Some (we_id w) \<and> (\<exists>payload. stored_payload w payload) \<and>
     we_status w \<in> {WE_Received, WE_Queued, WE_Processed, WE_Failed} \<and>
     (we_failureReason w \<noteq> None \<longleftrightarrow> we_status w = WE_Failed) \<and>
     (we_processedAt w \<noteq> None \<longleftrightarrow> we_status w \<in> {WE_Processed, WE_Failed}) \<and>
     (we_status w = WE_Processed \<longrightarrow> (\<exists>p\<in>set intents. backs w p))"

definition outbox_ok :: "OutboxEventEntity \<Rightarrow> bool" where
  "outbox_ok r \<longleftrightarrow>
     ob_type r = PROCESS_WEBHOOK_OUTBOX_TYPE \<and> ob_aggregateType r = WEBHOOK_OUTBOX_AGGREGATE_TYPE \<and>
     (\<exists>correlationId. ob_payload r = outbox_payload (ob_aggregateId r) correlationId) \<and>
     ob_deadAt r = None \<and> 0 \<le> ob_attempts r \<and> (ob_status r = OB_Published \<longrightarrow> ob_publishedAt r \<noteq> None)"

definition attempt_ok :: "WebhookEventEntity list \<Rightarrow> WebhookProcessingAttemptEntity \<Rightarrow> bool" where
  "attempt_ok events a \<longleftrightarrow>
     (\<exists>w\<in>set events. we_id w = wa_webhookEventId a \<and>
        (wa_status a = WA_Succeeded \<and> we_status w = WE_Processed \<or> wa_status a = WA_Failed \<and> we_status w = WE_Failed))"

definition settled_ok :: "WebhookProcessingAttemptEntity list \<Rightarrow> WebhookEventEntity \<Rightarrow> bool" where
  "settled_ok attempts w \<longleftrightarrow>
     (we_status w = WE_Processed \<longrightarrow> (\<exists>a\<in>set attempts. wa_webhookEventId a = we_id w \<and> wa_status a = WA_Succeeded)) \<and>
     (we_status w = WE_Failed \<longrightarrow> (\<exists>a\<in>set attempts. wa_webhookEventId a = we_id w \<and> wa_status a = WA_Failed))"

definition tables_unique :: "db \<Rightarrow> bool" where
  "tables_unique d \<longleftrightarrow>
     payment_rows.unique_rows (payment_intents d) \<and> idempotency_rows.unique_rows (idempotency_records d) \<and>
     webhook_rows.unique_rows (webhook_events d) \<and> outbox_rows.unique_rows (outbox_events d)"

definition system_ok :: "platform \<Rightarrow> system_state \<Rightarrow> bool" where
  "system_ok pl s \<longleftrightarrow>
     (let d = fst s in
        tables_unique d \<and>
        (\<forall>p\<in>set (payment_intents d). intent_ok (webhook_events d) p) \<and>
        (\<forall>w\<in>set (webhook_events d). event_ok pl (payment_intents d) w) \<and>
        (\<forall>r\<in>set (outbox_events d). outbox_ok r) \<and>
        (\<forall>a\<in>set (webhook_processing_attempts d). attempt_ok (webhook_events d) a) \<and>
        (\<forall>w\<in>set (webhook_events d). settled_ok (webhook_processing_attempts d) w) \<and>
        map ob_aggregateId (outbox_events d) = map we_id (webhook_events d) \<and>
        map ir_resourceId (idempotency_records d) = map (\<lambda>p. Some (pi_id p)) (payment_intents d) \<and>
        (\<forall>j\<in>queued_jobs (snd s). jd_webhookEventId j \<in> we_id ` set (webhook_events d)))"

lemma system_okI:
  assumes "tables_unique d"
    and "\<And>p. p \<in> set (payment_intents d) \<Longrightarrow> intent_ok (webhook_events d) p"
    and "\<And>w. w \<in> set (webhook_events d) \<Longrightarrow> event_ok pl (payment_intents d) w"
    and "\<And>r. r \<in> set (outbox_events d) \<Longrightarrow> outbox_ok r"
    and "\<And>a. a \<in> set (webhook_processing_attempts d) \<Longrightarrow> attempt_ok (webhook_events d) a"
    and "\<And>w. w \<in> set (webhook_events d) \<Longrightarrow> settled_ok (webhook_processing_attempts d) w"
    and "map ob_aggregateId (outbox_events d) = map we_id (webhook_events d)"
    and "map ir_resourceId (idempotency_records d) = map (\<lambda>p. Some (pi_id p)) (payment_intents d)"
    and "\<And>j. j \<in> queued_jobs q \<Longrightarrow> jd_webhookEventId j \<in> we_id ` set (webhook_events d)"
  shows "system_ok pl (d, q)"
  using assms by (simp add: system_ok_def)

lemma system_okD:
  assumes "system_ok pl (d, q)"
  shows "tables_unique d"
    and "\<And>p. p \<in> set (payment_intents d) \<Longrightarrow> intent_ok (webhook_events d) p"
    and "\<And>w. w \<in> set (webhook_events d) \<Longrightarrow> event_ok pl (payment_intents d) w"
    and "\<And>r. r \<in> set (outbox_events d) \<Longrightarrow> outbox_ok r"
    and "\<And>a. a \<in> set (webhook_processing_attempts d) \<Longrightarrow> attempt_ok (webhook_events d) a"
    and "\<And>w. w \<in> set (webhook_events d) \<Longrightarrow> settled_ok (webhook_processing_attempts d) w"
    and "map ob_aggregateId (outbox_events d) = map we_id (webhook_events d)"
    and "map ir_resourceId (idempotency_records d) = map (\<lambda>p. Some (pi_id p)) (payment_intents d)"
    and "\<And>j. j \<in> queued_jobs q \<Longrightarrow> jd_webhookEventId j \<in> we_id ` set (webhook_events d)"
  using assms by (simp_all add: system_ok_def Let_def)

lemma initial_ok: "system_ok pl initial_state"
  unfolding initial_state_def
  by (rule system_okI)
    (simp_all add: tables_unique_def payment_rows.unique_Nil idempotency_rows.unique_Nil webhook_rows.unique_Nil
      outbox_rows.unique_Nil new_world_def new_broker_def)

text \<open>Settled rows support the rows that refer to them, as long as they stay.\<close>

lemma intent_ok_mono:
  "(\<And>w. w \<in> set events \<Longrightarrow> we_status w = WE_Processed \<Longrightarrow> w \<in> set events') \<Longrightarrow>
   intent_ok events p \<Longrightarrow> intent_ok events' p"
  unfolding intent_ok_def backs_def by blast

lemma event_ok_mono:
  "(\<And>p. p \<in> set intents \<Longrightarrow> pi_status p = PI_Confirmed \<Longrightarrow> p \<in> set intents') \<Longrightarrow>
   event_ok pl intents w \<Longrightarrow> event_ok pl intents' w"
  unfolding event_ok_def backs_def by blast

lemma attempt_ok_mono:
  "(\<And>w. w \<in> set events \<Longrightarrow> we_status w \<in> {WE_Processed, WE_Failed} \<Longrightarrow> w \<in> set events') \<Longrightarrow>
   attempt_ok events a \<Longrightarrow> attempt_ok events' a"
  unfolding attempt_ok_def by blast

lemma settled_ok_mono: "set attempts \<subseteq> set attempts' \<Longrightarrow> settled_ok attempts w \<Longrightarrow> settled_ok attempts' w"
  unfolding settled_ok_def by blast

section \<open>Creating a payment intent\<close>

lemma endpoint_effect:
  assumes "create_payment_intent_endpoint sha256 k dto e d = (r, d')"
  obtains (same) "d' = d"
  | (created) key amount where "find_idempotency_record key d = None" "pg_numeric e (pd_amount dto) = Some amount"
      "pi_fits (intent_row (new_uuid e 1) (pg_now e) dto)" "new_uuid e 0 \<notin> ir_id ` set (idempotency_records d)"
      "new_uuid e 1 \<notin> pi_id ` set (payment_intents d)" "d' = created_db key (payment_digest sha256 dto) dto e amount d"
proof (cases "validateIdempotencyKey k")
  case (Inl err)
  with assms that(1) show thesis by (simp add: create_payment_intent_endpoint_def)
next
  case (Inr key)
  then have k: "k = Some key" "valid_key key" by (simp_all add: valid_key_iff)
  let ?body = "create_payment_intent_body key (payment_digest sha256 dto) dto"
  have d': "d' = snd (db_transaction ?body e d)"
    using assms unfolding k(1) endpoint_run [OF k(2)] by (auto split: prod.splits sum.splits)
  show thesis
  proof (rule create.effect_cases [of key "payment_digest sha256 dto" dto e d])
    fix res assume "db_transaction ?body (calm e) d = (Inr res, snd (db_transaction ?body e d))"
    from create_transaction_success [OF this] that show thesis unfolding d' [symmetric] by auto
  qed (use that(1) d' in simp)
qed

lemma created_tables_unique:
  assumes "tables_unique d" and "find_idempotency_record key d = None"
    and "new_uuid e 0 \<notin> ir_id ` set (idempotency_records d)" and "new_uuid e 1 \<notin> pi_id ` set (payment_intents d)"
  shows "tables_unique (created_db key h dto e amount d)"
proof -
  have "payment_rows.unique_rows (payment_intents d @ [(intent_row (new_uuid e 1) (pg_now e) dto)\<lparr>pi_amount := amount\<rparr>])"
    using assms(1,4) by (intro payment_rows.unique_append) (auto simp: tables_unique_def intent_row_def pi_conflicts_def list_ex_iff image_iff)
  moreover have "idempotency_rows.unique_rows (idempotency_records d @
      [record_row (new_uuid e 0) key h (pg_now e) (clock e 0) (intent_row (new_uuid e 1) (pg_now e) dto)])"
    using assms(1-3) by (intro idempotency_rows.unique_append)
      (auto simp: tables_unique_def record_row_def ir_conflicts_def list_ex_iff image_iff find_idempotency_record_def find_None_iff)
  ultimately show ?thesis using assms(1) by (simp add: tables_unique_def created_db_def Let_def)
qed

lemma create_ok:
  assumes ok: "system_ok pl (d, q)" and "sound_platform pl" and "runs_on pl e"
    and "accepts (pf_validator pl) CreatePaymentIntentDto_rules body"
    and "map_of body (js ''amount'') = Some (JStr (pd_amount dto))"
    and run: "create_payment_intent_endpoint (pf_sha256 pl) k dto e d = (r, d')"
  shows "system_ok pl (d', q)"
  using run
proof (cases rule: endpoint_effect)
  case same
  with ok show ?thesis by simp
next
  case (created key amount)
  have valid: "isValidPaymentAmount (JStr (pd_amount dto))"
    using assms(4,5) by (simp add: accepts_def CreatePaymentIntentDto_rules_def rule_holds_def always_def)
  with assms(2,3) created(2) have "decimal amount" "length (fractional_part amount) \<le> 18"
    "amount_units amount = amount_units (pd_amount dto)"
    by (auto simp: sound_platform_def numeric_column_def runs_on_def)
  moreover have "0 < amount_units (pd_amount dto)" using valid by (rule valid_amount_facts)
  moreover have "pi_fits ((intent_row (new_uuid e 1) (pg_now e) dto)\<lparr>pi_amount := amount\<rparr>)"
    using created(3) by (simp add: pi_fits_def)
  ultimately have new: "intent_ok (webhook_events d) ((intent_row (new_uuid e 1) (pg_now e) dto)\<lparr>pi_amount := amount\<rparr>)"
    by (simp add: intent_ok_def intent_row_def)
  show ?thesis
    unfolding created(6)
  proof (rule system_okI)
    show "tables_unique (created_db key (payment_digest (pf_sha256 pl) dto) dto e amount d)"
      by (rule created_tables_unique) (use system_okD(1) [OF ok] created in simp_all)
  qed (use system_okD [OF ok] new in \<open>auto simp: created_db_def Let_def record_row_def intent_row_def intro: event_ok_mono\<close>)
qed

section \<open>Accepting a webhook\<close>

lemma accept_effect:
  assumes "accept_webhook_endpoint sha256 hmac lib cfg correlationId now headers rawBody body e d = (r, d')"
  obtains (same) "d' = d"
  | (accepted) nonce dto pid where "validatePayload lib body = Inr dto" "pg_uuid e (wd_paymentIntentId dto) = Some pid"
      "find_webhook_by_event (wd_eventId dto) d = None" "find_webhook_by_nonce nonce d = None"
      "new_uuid e 0 \<notin> we_id ` set (webhook_events d)" "new_uuid e 1 \<notin> ob_id ` set (outbox_events d)"
      "we_fits (webhook_row (new_uuid e 0) (clock e 0) (pg_now e) pid nonce (toPayload dto) (payload_hash sha256 (toPayload dto)))"
      "d' = accepted_db correlationId nonce (toPayload dto) (payload_hash sha256 (toPayload dto)) e pid d"
proof (cases rawBody)
  case None
  with assms that(1) show thesis by (simp add: accept_webhook_endpoint_def)
next
  case (Some raw)
  let ?rq = "\<lparr>rq_headers = headers, rq_rawBody = raw, rq_body = body\<rparr>"
  have d': "d' = snd (fst (acceptBlockchainWebhook sha256 hmac lib cfg correlationId now ?rq e d))"
    using assms Some by (auto simp: accept_webhook_endpoint_def split: prod.splits sum.splits)
  show thesis
  proof (rule accept_cases [of hmac lib cfg now ?rq sha256 correlationId e d])
    fix hs payload r1 d1
    assume c: "check_request hmac lib cfg now ?rq = Inr (hs, payload)"
      and tx: "accept_tx sha256 correlationId hs payload e d = (r1, d1)"
      and run: "fst (acceptBlockchainWebhook sha256 hmac lib cfg correlationId now ?rq e d) =
        (map_sum id (\<lambda>a. \<lparr>ar_eventId = ac_eventId a, ar_status = ac_status a\<rparr>) r1, d1)"
    from check_request_success [OF c] obtain dto where dto: "validatePayload lib body = Inr dto" "payload = toPayload dto" by auto
    from tx run d' have d1: "d' = snd (accept_tx sha256 correlationId hs payload e d)" by simp
    show thesis
    proof (rule accept.effect_cases [of sha256 correlationId "vh_nonce hs" payload "payload_hash sha256 payload" e d])
      fix res assume "accept_tx sha256 correlationId hs payload (calm e) d = (Inr res, snd (accept_tx sha256 correlationId hs payload e d))"
      from accept_transaction_success [OF this] show thesis
        using that dto unfolding d1 [symmetric] by (auto simp: toPayload_def)
    qed (use that(1) d1 in simp)
  qed (use that(1) d' in simp)
qed

lemma webhook_dto_amount: "webhook_dto es = Some dto \<Longrightarrow> map_of es (js ''amount'') = Some (JStr (wd_amount dto))"
  unfolding webhook_dto_def by (auto split: option.splits json.splits)

lemma accepted_payload:
  assumes "documented_validator lib" and "requestBodyGuardMiddleware body = None" and "validatePayload lib body = Inr dto"
  shows "isValidPaymentAmount (JStr (wd_amount dto))"
proof -
  from validate_payload_success [OF assms(3)] assms(1,2) obtain es where
    "accepts lib BlockchainWebhookDto_rules es" "webhook_dto es = Some dto"
    unfolding documented_validator_def by metis
  then show ?thesis
    using webhook_dto_amount [of es dto] by (simp add: accepts_def BlockchainWebhookDto_rules_def rule_holds_def always_def)
qed

lemma accepted_tables_unique:
  assumes "tables_unique d" and "find_webhook_by_event (wp_eventId payload) d = None" and "find_webhook_by_nonce nonce d = None"
    and "new_uuid e 0 \<notin> we_id ` set (webhook_events d)" and "new_uuid e 1 \<notin> ob_id ` set (outbox_events d)"
  shows "tables_unique (accepted_db correlationId nonce payload h e pid d)"
proof -
  have "webhook_rows.unique_rows (webhook_events d @ [webhook_row (new_uuid e 0) (clock e 0) (pg_now e) pid nonce payload h])"
    using assms(1-4) by (intro webhook_rows.unique_append)
      (auto simp: tables_unique_def webhook_row_def we_conflicts_def list_ex_iff image_iff find_webhook_by_event_def
        find_webhook_by_nonce_def find_None_iff)
  moreover have "outbox_rows.unique_rows (outbox_events d @ [outbox_row (new_uuid e 1) (pg_now e) correlationId (new_uuid e 0)])"
    using assms(1,5) by (intro outbox_rows.unique_append) (auto simp: tables_unique_def outbox_row_def list_ex_iff image_iff)
  ultimately show ?thesis using assms(1) by (simp add: tables_unique_def accepted_db_def)
qed

lemma accept_ok:
  assumes ok: "system_ok pl (d, q)" and "sound_platform pl" and "runs_on pl e" and "requestBodyGuardMiddleware body = None"
    and run: "accept_webhook_endpoint (pf_sha256 pl) (pf_hmac pl) (pf_validator pl) (pf_config pl) correlationId now headers
      rawBody body e d = (r, d')"
  shows "system_ok pl (d', q)"
  using run
proof (cases rule: accept_effect)
  case same
  with ok show ?thesis by simp
next
  case (accepted nonce dto pid)
  let ?h = "payload_hash (pf_sha256 pl) (toPayload dto)"
  let ?w = "webhook_row (new_uuid e 0) (clock e 0) (pg_now e) pid nonce (toPayload dto) ?h"
  have "isValidPaymentAmount (JStr (wd_amount dto))"
    using assms(2,4) accepted(1) by (intro accepted_payload) (auto simp: sound_platform_def)
  then have "stored_payload ?w (toPayload dto)"
    by (simp add: stored_payload_def webhook_row_def toPayload_def option.map_comp comp_def normalizeTxHash_idem)
  then have w: "event_ok pl intents ?w" "settled_ok attempts ?w" for intents attempts
    using accepted(7) assms(3) by (auto simp: event_ok_def settled_ok_def webhook_row_def runs_on_def)
  show ?thesis
    unfolding accepted(8)
  proof (rule system_okI)
    show "tables_unique (accepted_db correlationId nonce (toPayload dto) ?h e pid d)"
      by (rule accepted_tables_unique) (use system_okD(1) [OF ok] accepted in simp_all)
    show "intent_ok (webhook_events (accepted_db correlationId nonce (toPayload dto) ?h e pid d)) p"
      if "p \<in> set (payment_intents (accepted_db correlationId nonce (toPayload dto) ?h e pid d))" for p
      by (rule intent_ok_mono [OF _ system_okD(2) [OF ok]]) (use that in \<open>simp_all add: accepted_db_def\<close>)
    show "attempt_ok (webhook_events (accepted_db correlationId nonce (toPayload dto) ?h e pid d)) a"
      if "a \<in> set (webhook_processing_attempts (accepted_db correlationId nonce (toPayload dto) ?h e pid d))" for a
      by (rule attempt_ok_mono [OF _ system_okD(5) [OF ok]]) (use that in \<open>simp_all add: accepted_db_def\<close>)
    show "map ob_aggregateId (outbox_events (accepted_db correlationId nonce (toPayload dto) ?h e pid d)) =
        map we_id (webhook_events (accepted_db correlationId nonce (toPayload dto) ?h e pid d))"
      using system_okD(7) [OF ok] by (simp add: accepted_db_def outbox_row_def webhook_row_def)
  qed (use system_okD [OF ok] w in \<open>auto simp: accepted_db_def outbox_ok_def outbox_row_def\<close>)
qed

section \<open>Dispatching and reconciling\<close>

text \<open>Columns that a dispatch and a processing run keep of every event.\<close>

definition event_columns :: "WebhookEventEntity \<Rightarrow> uuid \<times> jsstr \<times> jsstr \<times> jsstr option" where
  "event_columns w = (we_id w, we_provider w, we_externalEventId w, we_nonce w)"

lemma event_columns_ids: "map event_columns rows' = map event_columns rows \<Longrightarrow> map we_id rows' = map we_id rows"
  by (drule arg_cong [of _ _ "map fst"]) (simp add: comp_def event_columns_def)

lemma webhook_unique_columns:
  assumes same: "map event_columns rows' = map event_columns rows" and unique: "webhook_rows.unique_rows rows"
  shows "webhook_rows.unique_rows rows'"
proof -
  have find: "\<exists>a0\<in>set rows. event_columns a0 = event_columns a" if "a \<in> set rows'" for a
  proof -
    from that have "event_columns a \<in> set (map event_columns rows')" by simp
    then show ?thesis unfolding same by auto
  qed
  have "\<not> we_conflicts a b" if ab: "a \<in> set rows'" "b \<in> set rows'" "we_id a \<noteq> we_id b" for a b
  proof -
    obtain a0 b0 where "a0 \<in> set rows" "event_columns a0 = event_columns a" "b0 \<in> set rows" "event_columns b0 = event_columns b"
      using find [OF ab(1)] find [OF ab(2)] by blast
    moreover from this unique ab(3) have "\<not> we_conflicts a0 b0"
      unfolding webhook_rows.unique_rows_def by (simp add: event_columns_def)
    ultimately show ?thesis by (simp add: we_conflicts_def event_columns_def)
  qed
  moreover have "distinct (map we_id rows')"
    using unique event_columns_ids [OF same] by (simp add: webhook_rows.unique_rows_def)
  ultimately show ?thesis unfolding webhook_rows.unique_rows_def by blast
qed

lemma outbox_job:
  "outbox_ok r \<Longrightarrow> \<exists>c. toJobData r = Inr \<lparr>jd_webhookEventId = ob_aggregateId r, jd_correlationId = c\<rparr>"
  unfolding outbox_ok_def toJobData_def outbox_payload_def by auto

lemma row_change_ok:
  assumes "outbox_ok r" and "row_change e J r r'"
  shows "outbox_ok r' \<and> ob_aggregateId r' = ob_aggregateId r"
  using assms outbox_job [OF assms(1)]
  by (auto simp: row_change_def outbox_ok_def published_row_def failed_row_def dead_row_def)

lemma event_change_ok:
  assumes "event_ok pl intents w" and "event_change e rs w w'"
  shows "event_ok pl intents w' \<and> event_columns w' = event_columns w"
  using assms by (auto simp: event_ok_def event_change_def we_fits_def stored_payload_def event_columns_def)

lemma list_all2_map_same:
  "list_all2 P xs ys \<Longrightarrow> (\<And>x y. x \<in> set xs \<Longrightarrow> P x y \<Longrightarrow> f y = f x) \<Longrightarrow> map f ys = map f xs"
  by (induction xs ys rule: list_all2_induct) auto

lemma list_all2_setD2: "list_all2 P xs ys \<Longrightarrow> y \<in> set ys \<Longrightarrow> \<exists>x\<in>set xs. P x y"
  by (induction xs ys rule: list_all2_induct) auto

lemma list_all2_setD1: "list_all2 P xs ys \<Longrightarrow> x \<in> set xs \<Longrightarrow> \<exists>y\<in>set ys. P x y"
  by (induction xs ys rule: list_all2_induct) auto

lemma batch_ok:
  assumes ok: "system_ok pl (d, q)" and eff: "batch_effect e rs J d d'"
    and jobs: "queued_jobs q' \<subseteq> queued_jobs q \<union> jobs_for rs" and rs: "set rs \<subseteq> set (outbox_events d)"
  shows "system_ok pl (d', q')"
proof -
  note keep = eff [unfolded batch_effect_def]
  from keep have out: "list_all2 (\<lambda>r r'. r' = r \<or> r \<in> set rs \<and> row_change e J r r') (outbox_events d) (outbox_events d')"
    and ev: "list_all2 (\<lambda>w w'. w' = w \<or> event_change e rs w w') (webhook_events d) (webhook_events d')" by blast+
  have columns: "map event_columns (webhook_events d') = map event_columns (webhook_events d)"
    by (rule list_all2_map_same [OF ev]) (use system_okD(3) [OF ok] event_change_ok in blast)
  have ob_ids: "map ob_id (outbox_events d') = map ob_id (outbox_events d)"
    by (rule list_all2_map_same [OF out]) (use row_change_id in blast)
  have aggregates: "map ob_aggregateId (outbox_events d') = map ob_aggregateId (outbox_events d)"
    by (rule list_all2_map_same [OF out]) (use system_okD(4) [OF ok] row_change_ok in blast)
  have final: "w \<in> set (webhook_events d')" if "w \<in> set (webhook_events d)" "we_status w \<noteq> WE_Received" for w
    using list_all2_setD1 [OF ev that(1)] that(2) by (auto simp: event_change_def)
  note ids = event_columns_ids [OF columns]
  show ?thesis
  proof (rule system_okI)
    show "tables_unique d'"
      using system_okD(1) [OF ok] keep webhook_unique_columns [OF columns] ob_ids
      by (simp add: tables_unique_def outbox_rows.unique_rows_def)
    show "intent_ok (webhook_events d') p" if "p \<in> set (payment_intents d')" for p
      by (rule intent_ok_mono [OF final system_okD(2) [OF ok]]) (use that keep in simp_all)
    show "event_ok pl (payment_intents d') w" if "w \<in> set (webhook_events d')" for w
      using list_all2_setD2 [OF ev that] system_okD(3) [OF ok] event_change_ok keep by (metis (no_types, lifting))
    show "outbox_ok r" if "r \<in> set (outbox_events d')" for r
      using list_all2_setD2 [OF out that] system_okD(4) [OF ok] row_change_ok by blast
    show "attempt_ok (webhook_events d') a" if "a \<in> set (webhook_processing_attempts d')" for a
      by (rule attempt_ok_mono [OF final system_okD(5) [OF ok]]) (use that keep in auto)
    show "settled_ok (webhook_processing_attempts d') w" if "w \<in> set (webhook_events d')" for w
      using list_all2_setD2 [OF ev that] system_okD(6) [OF ok] keep
      by (auto simp: event_change_def settled_ok_def)
    show "map ob_aggregateId (outbox_events d') = map we_id (webhook_events d')"
      using system_okD(7) [OF ok] aggregates ids by simp
    show "map ir_resourceId (idempotency_records d') = map (\<lambda>p. Some (pi_id p)) (payment_intents d')"
      using system_okD(8) [OF ok] keep by simp
    show "jd_webhookEventId j \<in> we_id ` set (webhook_events d')" if queued: "j \<in> queued_jobs q'" for j
    proof -
      have image: "we_id ` set (webhook_events d') = we_id ` set (webhook_events d)" using ids by (metis list.set_map)
      consider "j \<in> queued_jobs q" | r where "r \<in> set rs" "toJobData r = Inr j"
        using queued jobs by (auto simp: jobs_for_def)
      then show ?thesis
      proof cases
        case 1
        then show ?thesis using system_okD(9) [OF ok] image by simp
      next
        case 2
        then have "r \<in> set (outbox_events d)" using rs by blast
        with 2 outbox_job [OF system_okD(4) [OF ok this]] have "jd_webhookEventId j = ob_aggregateId r" by auto
        then show ?thesis using \<open>r \<in> set (outbox_events d)\<close> system_okD(7) [OF ok] image by (metis image_eqI list.set_map)
      qed
    qed
  qed
qed

lemma dispatch_ok:
  assumes ok: "system_ok pl (d, q)" and run: "dispatchBatch b limit e (d, q) = (r, d', q')"
  shows "system_ok pl (d', q')"
proof (rule batch_ok [OF ok dispatch_effect [OF _ run]])
  show "distinct (map ob_id (outbox_events d))"
    using system_okD(1) [OF ok] by (simp add: tables_unique_def outbox_rows.unique_rows_def)
  show "queued_jobs q' \<subseteq> queued_jobs q \<union> jobs_for (eligible_rows (pg_now e) (locked e) limit d)"
    using dispatch_jobs [of e limit d b q] run by auto
  show "set (eligible_rows (pg_now e) (locked e) limit d) \<subseteq> set (outbox_events d)" using eligible_rows_sub by blast
qed

lemma reconcile_ok:
  assumes ok: "system_ok pl (d, q)" and run: "reconcileStalePublishedEvents olderThanMs limit e d = ((r, d'), l)"
  shows "system_ok pl (d', q)"
proof (cases rule: reconcile_effect [of olderThanMs limit e d])
  case same
  with ok run show ?thesis by simp
next
  case requeued
  then have d': "d' = d\<lparr>outbox_events := map (\<lambda>r. if ob_id r \<in> set (map ob_id (stale_rows (pg_now e) (locked e) olderThanMs limit d))
        then requeued_row (pg_now e) r else r) (outbox_events d)\<rparr>" using run by simp
  have ids: "map ob_id (outbox_events d') = map ob_id (outbox_events d)"
    "map ob_aggregateId (outbox_events d') = map ob_aggregateId (outbox_events d)"
    unfolding d' by (simp_all add: requeued_row_def)
  have others: "payment_intents d' = payment_intents d" "idempotency_records d' = idempotency_records d"
    "webhook_events d' = webhook_events d" "webhook_processing_attempts d' = webhook_processing_attempts d"
    unfolding d' by simp_all
  show ?thesis
  proof (rule system_okI)
    show "tables_unique d'"
      using system_okD(1) [OF ok] ids(1) others unfolding tables_unique_def outbox_rows.unique_rows_def by metis
    show "outbox_ok x" if "x \<in> set (outbox_events d')" for x
      using that system_okD(4) [OF ok] unfolding d' by (auto simp: outbox_ok_def requeued_row_def split: if_splits)
    show "map ob_aggregateId (outbox_events d') = map we_id (webhook_events d')"
      using system_okD(7) [OF ok] ids(2) others by simp
  qed (use system_okD [OF ok] others in simp_all)
qed

section \<open>Processing a job\<close>

lemma decide_acknowledge:
  assumes "decide w intents = Inr Acknowledge"
  obtains i p raw amount where "we_paymentIntentId w = Some i" "row_find pi_id i intents = Some p"
    "json_get (js ''txHash'') (we_payload w) = Some (JStr raw)" "pi_status p = PI_Confirmed"
    "map_option normalizeTxHash (pi_confirmedTxHash p) = Some (normalizeTxHash raw)"
    "json_get (js ''amount'') (we_payload w) = Some (JStr amount)" "normalizeAmount amount = normalizeAmount (pi_amount p)"
    "json_get (js ''asset'') (we_payload w) = Some (JStr (pi_asset p))"
proof -
  from assms obtain i raw p where 1: "we_paymentIntentId w = Some i" "row_find pi_id i intents = Some p"
    "json_get (js ''txHash'') (we_payload w) = Some (JStr raw)"
    "decide_intent w intents (normalizeTxHash raw) p = Inr Acknowledge"
    by (auto simp: decide_def bind_eq_Some_conv split: if_splits option.splits json.splits)
  from 1(4) have 2: "validatePayloadMatchesPaymentIntent (we_payload w) p = Inr None" "pi_status p = PI_Confirmed"
    "map_option normalizeTxHash (pi_confirmedTxHash p) = Some (normalizeTxHash raw)"
    by (auto simp: decide_intent_def split: sum.splits option.splits if_splits)
  from 2(1) obtain amount where "json_get (js ''amount'') (we_payload w) = Some (JStr amount)"
    "normalizeAmount amount = normalizeAmount (pi_amount p)"
    "json_get (js ''asset'') (we_payload w) = Some (JStr (pi_asset p))"
    by (auto simp: validatePayloadMatchesPaymentIntent_def split: option.splits json.splits if_splits)
  with 1 2 that show thesis by metis
qed

text \<open>The fields that the rules read of a stored payload.\<close>

lemma stored_fields:
  assumes "stored_payload w payload"
  shows "json_get (js ''amount'') (we_payload w) = Some (JStr (wp_amount payload))" and "decimal (wp_amount payload)"
    and "json_get (js ''txHash'') (we_payload w) = Some (JStr raw) \<Longrightarrow> we_txHash w = Some raw \<and> normalizeTxHash raw = raw"
  using assms valid_amount_facts(1) [of "wp_amount payload"]
  by (auto simp: stored_payload_def payload_json_def split: option.splits)

lemma amounts_agree:
  assumes "stored_payload w payload" and "json_get (js ''amount'') (we_payload w) = Some (JStr amount)"
    and "normalizeAmount amount = normalizeAmount (pi_amount p)" and "intent_ok events p"
  shows "amount_units amount = amount_units (pi_amount p)"
proof -
  have "amount = wp_amount payload" using stored_fields(1) [OF assms(1)] assms(2) by simp
  with stored_fields(2) [OF assms(1)] assms(3,4) show ?thesis
    using normalizeAmount_eq_iff [of amount "pi_amount p"] by (simp add: intent_ok_def)
qed

text \<open>On the rows of a consistent database the rules always decide.\<close>

lemma decide_total:
  assumes "event_ok pl intents w" and "\<And>p. p \<in> set intents \<Longrightarrow> intent_ok events p"
  shows "\<exists>dec. decide w intents = Inr dec"
proof -
  obtain payload where s: "stored_payload w payload" using assms(1) by (auto simp: event_ok_def)
  have "\<exists>r. validatePayloadMatchesPaymentIntent (we_payload w) p = Inr r" if "p \<in> set intents" for p
    using assms(2) [OF that] normalizeAmount_defined [OF stored_fields(2) [OF s]] normalizeAmount_defined [of "pi_amount p"]
    by (auto simp: validatePayloadMatchesPaymentIntent_def stored_fields(1) [OF s] intent_ok_def)
  then have "\<exists>dec. decide_intent w intents h p = Inr dec" if "p \<in> set intents" for p h
    using that by (fastforce simp: decide_intent_def split: option.split)
  then show ?thesis
    by (auto simp: decide_def bind_eq_Some_conv dest!: row_find_SomeD split: option.split json.split)
qed

lemma row_update_const_map:
  assumes "distinct (map key rows)" and "r \<in> set rows" and "f r' = f r"
  shows "map f (row_update key (key r) (\<lambda>_. r') rows) = map f rows"
proof -
  have "f (if key x = key r then r' else x) = f x" if "x \<in> set rows" for x
    using assms that by (auto simp: distinct_map dest: inj_onD)
  then show ?thesis by (simp add: row_update_def)
qed

lemma settled_columns: "event_columns (settled_event t now dec w) = event_columns w"
  "we_id (settled_event t now dec w) = we_id w"
  by (simp_all add: event_columns_def settled_event_def)

text \<open>The intents and events of a decision.\<close>

lemma confirm_backs:
  assumes ok: "system_ok pl (d, q)" and w: "w \<in> set (webhook_events d)"
    and dec: "decide w (payment_intents d) = Inr (Confirm p h)"
  shows "p \<in> set (payment_intents d) \<and> backs (settled_event t now (Confirm p h) w) (confirmed_intent now p h) \<and>
    pi_fits (confirmed_intent now p h)"
proof -
  obtain payload where s: "stored_payload w payload" using system_okD(3) [OF ok w] by (auto simp: event_ok_def)
  from dec obtain i raw amount where
    c: "we_paymentIntentId w = Some i" "row_find pi_id i (payment_intents d) = Some p"
      "json_get (js ''txHash'') (we_payload w) = Some (JStr raw)" "h = normalizeTxHash raw"
      "json_get (js ''amount'') (we_payload w) = Some (JStr amount)" "normalizeAmount amount = normalizeAmount (pi_amount p)"
      "json_get (js ''asset'') (we_payload w) = Some (JStr (pi_asset p))"
    by (rule decide_confirm)
  from row_find_SomeD [OF c(2)] have p: "p \<in> set (payment_intents d)" "pi_id p = i" by simp_all
  note hash = stored_fields(3) [OF s c(3)]
  have "backs (settled_event t now (Confirm p h) w) (confirmed_intent now p h)"
    using c p hash amounts_agree [OF s c(5,6) system_okD(2) [OF ok p(1)]]
    by (simp add: backs_def settled_event_def confirmed_intent_def)
  moreover have "pi_fits (confirmed_intent now p h)"
    using hash c(4) system_okD(2) [OF ok p(1)] system_okD(3) [OF ok w]
    by (simp add: pi_fits_def confirmed_intent_def intent_ok_def event_ok_def we_fits_def)
  ultimately show ?thesis using p(1) by blast
qed

lemma decision_backs:
  assumes ok: "system_ok pl (d, q)" and w: "w \<in> set (webhook_events d)" and dec: "decide w (payment_intents d) = Inr dec"
    and "decision_status dec = WE_Processed"
  shows "\<exists>p\<in>set (decision_intents now dec (payment_intents d)). backs (settled_event t now dec w) p"
proof -
  obtain payload where s: "stored_payload w payload" using system_okD(3) [OF ok w] by (auto simp: event_ok_def)
  show ?thesis
  proof (cases dec)
    case (Confirm p h)
    note b = confirm_backs [OF ok w dec [unfolded Confirm], of t now]
    then have "confirmed_intent now p h \<in> set (decision_intents now dec (payment_intents d))"
      by (auto simp: Confirm in_row_update intro!: bexI [of _ p])
    with b show ?thesis unfolding Confirm by blast
  next
    case Acknowledge
    from dec [unfolded Acknowledge] obtain i p raw amount where
      c: "we_paymentIntentId w = Some i" "row_find pi_id i (payment_intents d) = Some p"
        "json_get (js ''txHash'') (we_payload w) = Some (JStr raw)" "pi_status p = PI_Confirmed"
        "map_option normalizeTxHash (pi_confirmedTxHash p) = Some (normalizeTxHash raw)"
        "json_get (js ''amount'') (we_payload w) = Some (JStr amount)" "normalizeAmount amount = normalizeAmount (pi_amount p)"
        "json_get (js ''asset'') (we_payload w) = Some (JStr (pi_asset p))"
      by (rule decide_acknowledge)
    from row_find_SomeD [OF c(2)] have p: "p \<in> set (payment_intents d)" "pi_id p = i" by simp_all
    from system_okD(2) [OF ok p(1)] c(4) obtain v where v: "v \<in> set (webhook_events d)" "backs v p"
      by (auto simp: intent_ok_def)
    obtain payload' where "stored_payload v payload'" using system_okD(3) [OF ok v(1)] by (auto simp: event_ok_def)
    with v(2) have "map_option normalizeTxHash (pi_confirmedTxHash p) = pi_confirmedTxHash p"
      by (auto simp: backs_def stored_payload_def)
    with c(5) stored_fields(3) [OF s c(3)] have "pi_confirmedTxHash p = we_txHash w" "we_txHash w \<noteq> None" by simp_all
    then have "backs (settled_event t now dec w) p"
      using c p amounts_agree [OF s c(6,7) system_okD(2) [OF ok p(1)]]
      by (simp add: backs_def settled_event_def Acknowledge)
    then show ?thesis using p Acknowledge by auto
  qed (use assms(4) in simp)
qed

lemma decision_unique:
  assumes ok: "system_ok pl (d, q)" and dec: "decide w (payment_intents d) = Inr dec"
  shows "payment_rows.unique_rows (decision_intents now dec (payment_intents d)) \<and>
    map pi_id (decision_intents now dec (payment_intents d)) = map pi_id (payment_intents d)"
proof -
  have unique: "payment_rows.unique_rows (payment_intents d)" using system_okD(1) [OF ok] by (simp add: tables_unique_def)
  show ?thesis
  proof (cases dec)
    case (Confirm p h)
    from dec [unfolded Confirm] have "\<forall>q\<in>set (payment_intents d). pi_confirmedTxHash q = Some h \<longrightarrow> pi_id q = pi_id p"
      by (rule decide_confirm)
    then show ?thesis unfolding Confirm
      by (auto simp: confirmed_intent_def pi_conflicts_def intro!: payment_rows.unique_update [OF unique] row_update_keys)
  qed (use unique in simp_all)
qed

text \<open>The rows of a decided event: what is new and what is kept.\<close>

lemma decided_rows:
  assumes ok: "system_ok pl (d, q)" and w: "w \<in> set (webhook_events d)" and "we_status w \<notin> {WE_Processed, WE_Failed}"
    and dec: "decide w (payment_intents d) = Inr dec"
  shows "map event_columns (webhook_events (decided_db jobId e w dec d)) = map event_columns (webhook_events d)"
    and "\<And>x. x \<in> set (webhook_events d) \<Longrightarrow> we_status x \<in> {WE_Processed, WE_Failed} \<Longrightarrow>
      x \<in> set (webhook_events (decided_db jobId e w dec d))"
    and "settled_event (clock e 1) (pg_now e) dec w \<in> set (webhook_events (decided_db jobId e w dec d))"
    and "\<And>x. x \<in> set (webhook_events (decided_db jobId e w dec d)) \<Longrightarrow>
      x = settled_event (clock e 1) (pg_now e) dec w \<or> x \<in> set (webhook_events d)"
    and "\<And>p. p \<in> set (payment_intents d) \<Longrightarrow> pi_status p = PI_Confirmed \<Longrightarrow>
      p \<in> set (payment_intents (decided_db jobId e w dec d))"
proof -
  let ?w = "settled_event (clock e 1) (pg_now e) dec w"
  have events: "webhook_events (decided_db jobId e w dec d) = row_update we_id (we_id w) (\<lambda>_. ?w) (webhook_events d)"
    and intents: "payment_intents (decided_db jobId e w dec d) = decision_intents (pg_now e) dec (payment_intents d)"
    by (simp_all add: decided_db_def)
  have ids: "distinct (map we_id (webhook_events d))" and unique: "payment_rows.unique_rows (payment_intents d)"
    using system_okD(1) [OF ok] by (simp_all add: tables_unique_def webhook_rows.unique_rows_def)
  show "map event_columns (webhook_events (decided_db jobId e w dec d)) = map event_columns (webhook_events d)"
    unfolding events using ids w by (rule row_update_const_map) (rule settled_columns)
  show "x \<in> set (webhook_events (decided_db jobId e w dec d))"
    if "x \<in> set (webhook_events d)" "we_status x \<in> {WE_Processed, WE_Failed}" for x
    unfolding events using that w assms(3) ids by (intro row_update_other) (auto simp: distinct_map dest: inj_onD)
  show "?w \<in> set (webhook_events (decided_db jobId e w dec d))"
    unfolding events using w by (auto simp: in_row_update intro!: bexI [of _ w])
  show "x = ?w \<or> x \<in> set (webhook_events d)" if "x \<in> set (webhook_events (decided_db jobId e w dec d))" for x
    using that unfolding events by (auto simp: in_row_update)
  show "p \<in> set (payment_intents (decided_db jobId e w dec d))" if "p \<in> set (payment_intents d)" "pi_status p = PI_Confirmed" for p
    unfolding intents by (rule decision_intents_kept [OF dec unique that(1)]) (simp add: that(2))
qed

lemma decision_kinds:
  "decision_status dec = WE_Processed \<and> decision_reason dec = None \<and> decision_attempt dec = WA_Succeeded \<or>
   decision_status dec = WE_Failed \<and> decision_reason dec \<noteq> None \<and> decision_attempt dec = WA_Failed"
  by (cases dec) simp_all

lemma decided_event_ok:
  assumes ok: "system_ok pl (d, q)" and w: "w \<in> set (webhook_events d)" and "we_status w \<notin> {WE_Processed, WE_Failed}"
    and dec: "decide w (payment_intents d) = Inr dec" and x: "x \<in> set (webhook_events (decided_db jobId e w dec d))"
  shows "event_ok pl (payment_intents (decided_db jobId e w dec d)) x \<and>
    settled_ok (webhook_processing_attempts (decided_db jobId e w dec d)) x"
proof (cases "x \<in> set (webhook_events d)")
  case True
  have "event_ok pl (payment_intents (decided_db jobId e w dec d)) x"
    by (rule event_ok_mono [OF decided_rows(5) [OF assms(1-4)] system_okD(3) [OF ok True]])
  moreover have "settled_ok (webhook_processing_attempts (decided_db jobId e w dec d)) x"
    by (rule settled_ok_mono [OF _ system_okD(6) [OF ok True]]) (auto simp: decided_db_def)
  ultimately show ?thesis ..
next
  case False
  let ?w = "settled_event (clock e 1) (pg_now e) dec w"
  from False decided_rows(4) [OF assms] have x: "x = ?w" by blast
  have "\<exists>p\<in>set (payment_intents (decided_db jobId e w dec d)). backs ?w p" if "decision_status dec = WE_Processed"
    using decision_backs [OF ok w dec that] by (simp add: decided_db_def)
  then show ?thesis
    unfolding x using system_okD(3) [OF ok w] decision_kinds [of dec]
    by (auto simp: event_ok_def settled_event_def we_fits_def stored_payload_def settled_ok_def decided_db_def attempt_row_def)
qed

lemma decided_intent_ok:
  assumes ok: "system_ok pl (d, q)" and w: "w \<in> set (webhook_events d)" and "we_status w \<notin> {WE_Processed, WE_Failed}"
    and dec: "decide w (payment_intents d) = Inr dec" and p: "p \<in> set (payment_intents (decided_db jobId e w dec d))"
  shows "intent_ok (webhook_events (decided_db jobId e w dec d)) p"
proof (cases "p \<in> set (payment_intents d)")
  case True
  show ?thesis by (rule intent_ok_mono [OF decided_rows(2) [OF assms(1-4)] system_okD(2) [OF ok True]]) auto
next
  case False
  with p obtain p0 h where c: "dec = Confirm p0 h" "p = confirmed_intent (pg_now e) p0 h"
    by (cases dec) (auto simp: decided_db_def in_row_update split: if_splits)
  from confirm_backs [OF ok w dec [unfolded c(1)], of "clock e 1" "pg_now e"] system_okD(2) [OF ok, of p0] decided_rows(3) [OF assms(1-4)]
  show ?thesis unfolding c by (auto simp: intent_ok_def confirmed_intent_def)
qed

lemma decided_attempt_ok:
  assumes ok: "system_ok pl (d, q)" and w: "w \<in> set (webhook_events d)" and "we_status w \<notin> {WE_Processed, WE_Failed}"
    and dec: "decide w (payment_intents d) = Inr dec" and a: "a \<in> set (webhook_processing_attempts (decided_db jobId e w dec d))"
  shows "attempt_ok (webhook_events (decided_db jobId e w dec d)) a"
proof (cases "a \<in> set (webhook_processing_attempts d)")
  case True
  show ?thesis by (rule attempt_ok_mono [OF decided_rows(2) [OF assms(1-4)] system_okD(5) [OF ok True]])
next
  case False
  let ?w = "settled_event (clock e 1) (pg_now e) dec w"
  from False a have "wa_webhookEventId a = we_id ?w" "wa_status a = decision_attempt dec" "we_status ?w = decision_status dec"
    by (simp_all add: decided_db_def attempt_row_def settled_event_def)
  with decided_rows(3) [OF assms(1-4), of e jobId] decision_kinds [of dec] show ?thesis
    unfolding attempt_ok_def by (intro bexI [of _ ?w]) auto
qed

lemma decided_ok:
  assumes ok: "system_ok pl (d, q)" and w: "w \<in> set (webhook_events d)" and "we_status w \<notin> {WE_Processed, WE_Failed}"
    and dec: "decide w (payment_intents d) = Inr dec"
  shows "system_ok pl (decided_db jobId e w dec d, q)"
proof -
  let ?d = "decided_db jobId e w dec d"
  have rest: "outbox_events ?d = outbox_events d" "idempotency_records ?d = idempotency_records d"
    "payment_intents ?d = decision_intents (pg_now e) dec (payment_intents d)" by (simp_all add: decided_db_def)
  note columns = decided_rows(1) [OF assms, of jobId e]
  show ?thesis
  proof (rule system_okI)
    show "tables_unique ?d"
      using system_okD(1) [OF ok] webhook_unique_columns [OF columns] decision_unique [OF ok dec] rest
      by (simp add: tables_unique_def)
    show "map ob_aggregateId (outbox_events ?d) = map we_id (webhook_events ?d)"
      using system_okD(7) [OF ok] rest event_columns_ids [OF columns] by simp
    have "map Some (map pi_id (payment_intents ?d)) = map Some (map pi_id (payment_intents d))"
      using decision_unique [OF ok dec] by (simp only: rest)
    then show "map ir_resourceId (idempotency_records ?d) = map (\<lambda>p. Some (pi_id p)) (payment_intents ?d)"
      using system_okD(8) [OF ok] rest by (simp add: comp_def)
    show "jd_webhookEventId j \<in> we_id ` set (webhook_events ?d)" if "j \<in> queued_jobs q" for j
      using system_okD(9) [OF ok that] event_columns_ids [OF columns] by (metis list.set_map)
  qed (use system_okD(4) [OF ok] rest(1) decided_event_ok [OF assms] decided_intent_ok [OF assms] decided_attempt_ok [OF assms] in simp_all)
qed

lemma attempted_ok:
  assumes ok: "system_ok pl (d, q)" and w: "w \<in> set (webhook_events d)" and "we_status w \<in> {WE_Processed, WE_Failed}"
  shows "system_ok pl (attempted_db jobId e w d, q)"
proof (rule system_okI)
  show "attempt_ok (webhook_events (attempted_db jobId e w d)) a"
    if "a \<in> set (webhook_processing_attempts (attempted_db jobId e w d))" for a
    using that system_okD(5) [OF ok] w assms(3)
    by (auto simp: attempted_db_def attempt_row_def) (auto simp: attempt_ok_def)
  show "settled_ok (webhook_processing_attempts (attempted_db jobId e w d)) x"
    if "x \<in> set (webhook_events (attempted_db jobId e w d))" for x
    by (rule settled_ok_mono [OF _ system_okD(6) [OF ok]]) (use that in \<open>auto simp: attempted_db_def\<close>)
qed (use system_okD [OF ok] in \<open>simp_all add: attempted_db_def tables_unique_def\<close>)

lemma work_ok:
  assumes ok: "system_ok pl (d, q)" and run: "process_job job e d = ((r, d'), l)"
  shows "system_ok pl (d', q)"
proof -
  have d': "d' = snd (fst (processJob job e d))" using run by (auto simp: process_job_def split: prod.splits)
  have unique: "payment_rows.unique_rows (payment_intents d)" using system_okD(1) [OF ok] by (simp add: tables_unique_def)
  show ?thesis
  proof (cases "jb_name job = PROCESS_WEBHOOK_EVENT_JOB_NAME")
    case True
    with d' have d': "d' = snd (processWebhookEvent (jd_webhookEventId (jb_data job)) (jb_id job) e d)" by (simp add: processJob_db)
    show ?thesis
      by (rule process_effect [OF unique, of "jd_webhookEventId (jb_data job)" "jb_id job" e])
        (use ok d' decided_ok [OF ok] attempted_ok [OF ok] row_find_SomeD in \<open>metis+\<close>)
  qed (use ok d' in \<open>simp add: processJob_db\<close>)
qed

section \<open>Reachable states\<close>

lemma step_ok:
  assumes "sound_platform pl" and "system_step pl s s'" and "system_ok pl s"
  shows "system_ok pl s'"
  using assms(2,3)
proof cases
  case (broker q' q d)
  with assms(3) show ?thesis by (simp add: system_ok_def Let_def subset_eq)
qed (use assms create_ok accept_ok dispatch_ok reconcile_ok work_ok in metis)+

lemma reachable_ok:
  assumes "sound_platform pl" and "(system_step pl)\<^sup>*\<^sup>* initial_state s"
  shows "system_ok pl s"
  using assms(2) by induction (use assms(1) initial_ok step_ok in blast)+

section \<open>Rows move forward\<close>

fun status_rank :: "WebhookEventStatus \<Rightarrow> nat" where
  "status_rank WE_Received = 0"
| "status_rank WE_Queued = 1"
| "status_rank WE_Processing = 2"
| "status_rank _ = 3"

definition event_advances :: "WebhookEventEntity \<Rightarrow> WebhookEventEntity \<Rightarrow> bool" where
  "event_advances w w' \<longleftrightarrow>
     w' = w \<or>
     status_rank (we_status w) < status_rank (we_status w') \<and>
     w' = w\<lparr>we_status := we_status w', we_failureReason := we_failureReason w', we_processedAt := we_processedAt w',
            we_updatedAt := we_updatedAt w'\<rparr>"

definition intent_advances :: "PaymentIntentEntity \<Rightarrow> PaymentIntentEntity \<Rightarrow> bool" where
  "intent_advances p p' \<longleftrightarrow>
     p' = p \<or>
     pi_status p = PI_Created \<and> (\<exists>h now. p' = confirmed_intent now p h)"

definition rows_advance :: "db \<Rightarrow> db \<Rightarrow> bool" where
  "rows_advance d d' \<longleftrightarrow>
     (\<forall>w\<in>set (webhook_events d). \<exists>w'\<in>set (webhook_events d'). event_advances w w') \<and>
     (\<forall>p\<in>set (payment_intents d). \<exists>p'\<in>set (payment_intents d'). intent_advances p p') \<and>
     set (idempotency_records d) \<subseteq> set (idempotency_records d') \<and>
     set (webhook_processing_attempts d) \<subseteq> set (webhook_processing_attempts d')"

lemma event_advances_refl [simp]: "event_advances w w"
  by (simp add: event_advances_def)

lemma intent_advances_refl [simp]: "intent_advances p p"
  by (simp add: intent_advances_def)

lemma event_advances_trans:
  assumes "event_advances a b" and "event_advances b c"
  shows "event_advances a c"
proof (cases "b = a \<or> c = b")
  case False
  then have *: "status_rank (we_status a) < status_rank (we_status b)" "status_rank (we_status b) < status_rank (we_status c)"
    "b = a\<lparr>we_status := we_status b, we_failureReason := we_failureReason b, we_processedAt := we_processedAt b,
            we_updatedAt := we_updatedAt b\<rparr>"
    "c = b\<lparr>we_status := we_status c, we_failureReason := we_failureReason c, we_processedAt := we_processedAt c,
            we_updatedAt := we_updatedAt c\<rparr>"
    using assms unfolding event_advances_def by blast+
  from *(4) have "c = a\<lparr>we_status := we_status c, we_failureReason := we_failureReason c, we_processedAt := we_processedAt c,
            we_updatedAt := we_updatedAt c\<rparr>" by (subst (asm) *(3)) simp
  with *(1,2) show ?thesis by (simp add: event_advances_def)
qed (use assms in auto)

lemma intent_advances_trans: "intent_advances a b \<Longrightarrow> intent_advances b c \<Longrightarrow> intent_advances a c"
  unfolding intent_advances_def by (auto simp: confirmed_intent_def)

lemma rows_advance_grow:
  assumes "set (webhook_events d) \<subseteq> set (webhook_events d')" and "set (payment_intents d) \<subseteq> set (payment_intents d')"
    and "set (idempotency_records d) \<subseteq> set (idempotency_records d')"
    and "set (webhook_processing_attempts d) \<subseteq> set (webhook_processing_attempts d')"
  shows "rows_advance d d'"
  unfolding rows_advance_def using assms by (meson event_advances_refl intent_advances_refl subsetD)

lemma rows_advance_refl: "rows_advance d d"
  by (simp add: rows_advance_grow)

lemma rows_advance_trans: "rows_advance a b \<Longrightarrow> rows_advance b c \<Longrightarrow> rows_advance a c"
  unfolding rows_advance_def by (meson event_advances_trans intent_advances_trans subset_trans)

lemma batch_advances: "batch_effect e rs J d d' \<Longrightarrow> rows_advance d d'"
proof -
  assume eff: "batch_effect e rs J d d'"
  then have ev: "list_all2 (\<lambda>w w'. w' = w \<or> event_change e rs w w') (webhook_events d) (webhook_events d')"
    and same: "payment_intents d' = payment_intents d" "idempotency_records d' = idempotency_records d"
      "webhook_processing_attempts d' = webhook_processing_attempts d"
    by (simp_all add: batch_effect_def)
  have change: "event_advances w w'" if "w' = w \<or> event_change e rs w w'" for w w'
    using that by (auto simp: event_advances_def event_change_def)
  have "\<exists>w'\<in>set (webhook_events d'). event_advances w w'" if "w \<in> set (webhook_events d)" for w
    using list_all2_setD1 [OF ev that] change by blast
  then show ?thesis unfolding rows_advance_def same using intent_advances_refl by blast
qed

lemma settled_advances:
  assumes "event_ok pl intents w" and "we_status w \<notin> {WE_Processed, WE_Failed}"
  shows "event_advances w (settled_event t now dec w)"
proof -
  have "we_status w \<in> {WE_Received, WE_Queued}" using assms by (simp add: event_ok_def)
  then have "status_rank (we_status w) < 3" by auto
  moreover have "status_rank (decision_status dec) = 3" by (cases dec) simp_all
  ultimately show ?thesis by (simp add: event_advances_def settled_event_def)
qed

lemma row_update_advances:
  assumes "distinct (map key rows)" and "r \<in> set rows" and "P r r'" and "\<And>x. P x x" and "x \<in> set rows"
  shows "\<exists>x'\<in>set (row_update key (key r) (\<lambda>_. r') rows). P x x'"
proof (cases "key x = key r")
  case True
  then have "x = r" using assms(1,2,5) by (auto simp: distinct_map dest: inj_onD)
  moreover have "r' \<in> set (row_update key (key r) (\<lambda>_. r') rows)"
    using assms(2) by (auto simp: in_row_update intro!: bexI [of _ r])
  ultimately show ?thesis using assms(3) by blast
next
  case False
  from row_update_other [of x rows key "key r", OF assms(5) this] assms(4) show ?thesis by blast
qed

lemma intent_status: "intent_ok events p \<Longrightarrow> pi_status p = PI_Created \<or> pi_status p = PI_Confirmed"
  by (auto simp: intent_ok_def backs_def)

lemma decision_advances:
  assumes ok: "system_ok pl (d, q)" and dec: "decide w (payment_intents d) = Inr dec" and x: "x \<in> set (payment_intents d)"
  shows "\<exists>x'\<in>set (decision_intents now dec (payment_intents d)). intent_advances x x'"
proof (cases dec)
  case (Confirm p h)
  from dec [unfolded Confirm] obtain i where found: "row_find pi_id i (payment_intents d) = Some p"
    and status: "pi_status p \<in> {PI_Created, PI_Processing}"
    by (rule decide_confirm)
  have p: "p \<in> set (payment_intents d)" using row_find_SomeD [OF found] by simp
  have "distinct (map pi_id (payment_intents d))"
    using system_okD(1) [OF ok] by (simp add: tables_unique_def payment_rows.unique_rows_def)
  moreover have "pi_status p = PI_Created" using intent_status [OF system_okD(2) [OF ok p]] status by auto
  then have "intent_advances p (confirmed_intent now p h)" unfolding intent_advances_def by blast
  ultimately show ?thesis
    unfolding Confirm decision_intents.simps(1) by (rule row_update_advances [where P = intent_advances, OF _ p _ intent_advances_refl x])
next
  case Acknowledge
  with x show ?thesis by (intro bexI [of _ x]) simp_all
next
  case (Reject reason)
  with x show ?thesis by (intro bexI [of _ x]) simp_all
qed

lemma decided_advances:
  assumes ok: "system_ok pl (d, q)" and w: "w \<in> set (webhook_events d)" and "we_status w \<notin> {WE_Processed, WE_Failed}"
    and dec: "decide w (payment_intents d) = Inr dec"
  shows "rows_advance d (decided_db jobId e w dec d)"
proof -
  let ?w = "settled_event (clock e 1) (pg_now e) dec w"
  have "distinct (map we_id (webhook_events d))"
    using system_okD(1) [OF ok] by (simp add: tables_unique_def webhook_rows.unique_rows_def)
  note events = row_update_advances [where P = event_advances, OF this w
      settled_advances [OF system_okD(3) [OF ok w] assms(3)] event_advances_refl]
  then show ?thesis
    unfolding rows_advance_def using decision_advances [OF ok dec] by (simp add: decided_db_def subset_insertI)
qed

lemma attempted_advances: "rows_advance d (attempted_db jobId e w d)"
  by (rule rows_advance_grow) (auto simp: attempted_db_def)

lemma step_advances:
  assumes ok: "system_ok pl (d, q)" and "system_step pl (d, q) (d', q')"
  shows "rows_advance d d'"
  using assms(2)
proof cases
  case (create e body dto key r)
  from create(5) show ?thesis
    by (cases rule: endpoint_effect) (auto simp: created_db_def Let_def intro!: rows_advance_grow)
next
  case (accept e body correlationId now headers rawBody r)
  from accept(4) show ?thesis
    by (cases rule: accept_effect) (auto simp: accepted_db_def intro!: rows_advance_grow)
next
  case (dispatch e b limit r)
  have "distinct (map ob_id (outbox_events d))"
    using system_okD(1) [OF ok] by (simp add: tables_unique_def outbox_rows.unique_rows_def)
  from batch_advances [OF dispatch_effect [OF this dispatch(2)]] show ?thesis .
next
  case (reconcile e olderThanMs limit r l)
  then have "d' = snd (fst (reconcileStalePublishedEvents olderThanMs limit e d))" by simp
  then show ?thesis
    by (cases rule: reconcile_effect [of olderThanMs limit e d]) (auto intro!: rows_advance_grow)
next
  case (work e job r l)
  have unique: "payment_rows.unique_rows (payment_intents d)" using system_okD(1) [OF ok] by (simp add: tables_unique_def)
  from work have "d' = snd (fst (processJob job e d))" by (auto simp: process_job_def split: prod.splits)
  then have d': "d' = d \<or> d' = snd (processWebhookEvent (jd_webhookEventId (jb_data job)) (jb_id job) e d)"
    by (auto simp: processJob_db)
  have "rows_advance d (snd (processWebhookEvent (jd_webhookEventId (jb_data job)) (jb_id job) e d))"
    using unique
  proof (cases rule: process_effect [where i = "jd_webhookEventId (jb_data job)" and jobId = "jb_id job" and e = e])
    case same
    then show ?thesis by (simp only: rows_advance_refl)
  next
    case (attempted u w)
    from attempted(4) show ?thesis by (simp only: attempted_advances)
  next
    case (decided u w dec)
    from decided(5) decided_advances [OF ok conjunct1 [OF row_find_SomeD [OF decided(2)]] decided(3,4)] show ?thesis
      by (simp only:)
  qed
  with d' show ?thesis using rows_advance_refl by metis
qed (simp add: rows_advance_refl)

lemma steps_advance:
  assumes "sound_platform pl" and "(system_step pl)\<^sup>*\<^sup>* s s'" and "system_ok pl s"
  shows "rows_advance (fst s) (fst s') \<and> system_ok pl s'"
  using assms(2)
proof induction
  case (step s1 s2)
  then show ?case
    using step_advances [of pl "fst s1" "snd s1" "fst s2" "snd s2"] step_ok [OF assms(1)] rows_advance_trans by auto
qed (use assms(3) rows_advance_refl in simp)

end
