(* ===== verification/Recovery.thy ===== *)
theory Recovery
  imports System
begin

text \<open>
  Recovery: repeated reconciliations and dispatches drain the outbox, and processing a job settles its event.
  Both loops take bounded batches; what they share is a locale.
\<close>

section \<open>Draining the outbox\<close>

text \<open>
  A round of a bounded batch takes \<open>limit\<close> of the pending items, or all of them; enough rounds
  leave none pending.
\<close>

locale draining =
  fixes round :: "'e \<Rightarrow> 's \<Rightarrow> 's" and pending :: "'s \<Rightarrow> 'k set" and limit :: nat
    and good :: "'s \<Rightarrow> bool" and fits :: "'e \<Rightarrow> bool"
  assumes finite_pending: "finite (pending s)"
    and good_round: "good s \<Longrightarrow> fits e \<Longrightarrow> good (round e s)"
    and shrinks: "good s \<Longrightarrow> fits e \<Longrightarrow> card (pending (round e s)) \<le> card (pending s) - limit"
begin

lemma rounds:
  assumes "good s" and "\<forall>e\<in>set es. fits e"
  shows "good (fold round es s) \<and> card (pending (fold round es s)) \<le> card (pending s) - length es * limit"
  using assms
proof (induction es arbitrary: s)
  case (Cons e es)
  have "fits e" "good (round e s)" using Cons.prems good_round by simp_all
  with Cons.IH [of "round e s"] shrinks [OF Cons.prems(1) \<open>fits e\<close>] Cons.prems(2) show ?case by (simp, linarith)
qed simp

lemma drained:
  assumes "good s" and "\<forall>e\<in>set es. fits e" and "card (pending s) \<le> length es * limit"
  shows "good (fold round es s) \<and> pending (fold round es s) = {}"
  using rounds [OF assms(1,2)] assms(3) finite_pending by simp

end

subsection \<open>The reconciler\<close>

definition reconcile_round :: "int \<Rightarrow> nat \<Rightarrow> env \<Rightarrow> db \<Rightarrow> db" where
  "reconcile_round olderThanMs limit e d = snd (fst (reconcileStalePublishedEvents olderThanMs limit (calm e) d))"

definition open_ids :: "db \<Rightarrow> uuid set" where
  "open_ids d = we_id ` {w \<in> set (webhook_events d). we_status w \<in> {WE_Received, WE_Queued}}"

definition stuck :: "db \<Rightarrow> uuid set" where
  "stuck d = ob_id ` {r \<in> set (outbox_events d). ob_status r = OB_Published \<and> ob_aggregateId r \<in> open_ids d}"

definition due_by :: "time \<Rightarrow> OutboxEventEntity \<Rightarrow> bool" where
  "due_by now r \<longleftrightarrow> (\<forall>t. ob_nextAttemptAt r = Some t \<longrightarrow> t \<le> now)"

definition reconcile_good :: "platform \<Rightarrow> dispatch_world \<Rightarrow> time \<Rightarrow> time \<Rightarrow> db \<Rightarrow> bool" where
  "reconcile_good pl q before now d \<longleftrightarrow>
     system_ok pl (d, q) \<and>
     (\<forall>r\<in>set (outbox_events d). due_by now r \<and> (\<forall>t. ob_publishedAt r = Some t \<longrightarrow> t < before))"

definition reconcile_fits :: "int \<Rightarrow> time \<Rightarrow> time \<Rightarrow> env \<Rightarrow> bool" where
  "reconcile_fits olderThanMs before now e \<longleftrightarrow>
     locked e = (\<lambda>_. False) \<and> before \<le> pg_now e - olderThanMs \<and> pg_now e \<le> now"

lemma reconcile_round_eq:
  "reconcile_round olderThanMs limit e d =
     d\<lparr>outbox_events := map (\<lambda>r. if ob_id r \<in> set (map ob_id (stale_rows (pg_now e) (locked e) olderThanMs limit d))
       then requeued_row (pg_now e) r else r) (outbox_events d)\<rparr>"
  unfolding reconcile_round_def reconcileStalePublishedEvents_def by (simp add: reconcile_calm Let_def)

lemma stale_iff_stuck:
  assumes "reconcile_good pl q before now d" and "reconcile_fits olderThanMs before now e" and "r \<in> set (outbox_events d)"
  shows "is_stale (pg_now e) (locked e) olderThanMs d r \<longleftrightarrow> ob_status r = OB_Published \<and> ob_aggregateId r \<in> open_ids d"
proof -
  have "outbox_ok r" using assms(1,3) system_okD(4) by (auto simp: reconcile_good_def)
  then have r: "ob_type r = PROCESS_WEBHOOK_OUTBOX_TYPE" "ob_aggregateType r = WEBHOOK_OUTBOX_AGGREGATE_TYPE" "ob_deadAt r = None"
    "ob_status r = OB_Published \<Longrightarrow> ob_publishedAt r \<noteq> None" by (simp_all add: outbox_ok_def)
  have "\<And>t. ob_publishedAt r = Some t \<Longrightarrow> t < pg_now e - olderThanMs" and l: "locked e = (\<lambda>_. False)"
    using assms by (auto simp: reconcile_good_def reconcile_fits_def)
  then show ?thesis using r unfolding is_stale_def open_ids_def l by (auto simp: list_ex_iff image_iff split: option.splits)
qed

lemma card_remove_first:
  assumes "distinct (map f xs)" and "ys = take n (sort_key g (filter P xs))"
  shows "card (f ` {x \<in> set xs. P x \<and> f x \<notin> f ` set ys}) = card (f ` {x \<in> set xs. P x}) - n"
proof -
  let ?s = "sort_key g (filter P xs)"
  have d: "distinct (map f ?s)" using assms(1) by (intro distinct_sort_map distinct_map_filter)
  then have dy: "distinct (map f ys)" unfolding assms(2) by (metis distinct_take take_map)
  have sub: "set ys \<subseteq> {x \<in> set xs. P x}" unfolding assms(2) by (auto dest: in_set_takeD)
  have eq: "f ` {x \<in> set xs. P x \<and> f x \<notin> f ` set ys} = f ` {x \<in> set xs. P x} - f ` set ys" by auto
  have "card (f ` set ys) = min n (length (filter P xs))"
    using dy distinct_card [of "map f ys"] unfolding assms(2) by simp
  moreover have "card (f ` {x \<in> set xs. P x}) = length (filter P xs)"
    using d distinct_card [of "map f ?s"] by simp
  ultimately show ?thesis
    unfolding eq using card_Diff_subset [of "f ` set ys" "f ` {x \<in> set xs. P x}"] sub by (simp add: image_mono)
qed

lemma reconcile_round_good:
  assumes "reconcile_good pl q before now d" and "reconcile_fits olderThanMs before now e"
  shows "reconcile_good pl q before now (reconcile_round olderThanMs limit e d)"
proof -
  have "system_ok pl (reconcile_round olderThanMs limit e d, q)"
    using assms(1) unfolding reconcile_round_def reconcile_good_def by (metis prod.collapse reconcile_ok)
  moreover have "due_by now r \<and> (\<forall>t. ob_publishedAt r = Some t \<longrightarrow> t < before)"
    if "r \<in> set (outbox_events (reconcile_round olderThanMs limit e d))" for r
    using that assms unfolding reconcile_round_eq reconcile_good_def reconcile_fits_def
    by (auto simp: requeued_row_def due_by_def split: if_splits)
  ultimately show ?thesis by (simp add: reconcile_good_def)
qed

lemma reconcile_round_stuck:
  assumes "reconcile_good pl q before now d" and "reconcile_fits olderThanMs before now e"
  shows "stuck (reconcile_round olderThanMs limit e d) =
    ob_id ` {r \<in> set (outbox_events d). (ob_status r = OB_Published \<and> ob_aggregateId r \<in> open_ids d) \<and>
      ob_id r \<notin> ob_id ` set (stale_rows (pg_now e) (locked e) olderThanMs limit d)}"
proof -
  have "open_ids (reconcile_round olderThanMs limit e d) = open_ids d" by (simp add: open_ids_def reconcile_round_eq)
  then show ?thesis unfolding stuck_def by (auto simp: reconcile_round_eq requeued_row_def image_iff split: if_splits)
qed

interpretation reconcile_rounds: draining "reconcile_round olderThanMs limit" stuck limit
    "reconcile_good pl q before now" "reconcile_fits olderThanMs before now"
  for olderThanMs limit pl q before now
proof unfold_locales
  fix d e
  assume g: "reconcile_good pl q before now d" "reconcile_fits olderThanMs before now e"
  let ?P = "\<lambda>r. ob_status r = OB_Published \<and> ob_aggregateId r \<in> open_ids d"
  show "reconcile_good pl q before now (reconcile_round olderThanMs limit e d)" using g by (rule reconcile_round_good)
  have ids: "distinct (map ob_id (outbox_events d))"
    using g(1) system_okD(1) [of pl d q] by (simp add: reconcile_good_def tables_unique_def outbox_rows.unique_rows_def)
  have "filter (is_stale (pg_now e) (locked e) olderThanMs d) (outbox_events d) = filter ?P (outbox_events d)"
    using stale_iff_stuck [OF g] by (auto intro: filter_cong)
  then have "stale_rows (pg_now e) (locked e) olderThanMs limit d =
      take limit (sort_key (\<lambda>r. case ob_publishedAt r of None \<Rightarrow> 0 | Some t \<Rightarrow> t) (filter ?P (outbox_events d)))"
    by (simp add: stale_rows_def)
  from card_remove_first [OF ids this] show "card (stuck (reconcile_round olderThanMs limit e d)) \<le> card (stuck d) - limit"
    unfolding reconcile_round_stuck [OF g] unfolding stuck_def by simp
qed (simp add: stuck_def)

subsection \<open>The dispatcher\<close>

definition dispatch_round :: "bullmq \<Rightarrow> nat \<Rightarrow> env \<Rightarrow> system_state \<Rightarrow> system_state" where
  "dispatch_round b limit e s = snd (dispatchBatch b limit (calm e) s)"

definition unpublished :: "system_state \<Rightarrow> uuid set" where
  "unpublished s = ob_id ` {r \<in> set (outbox_events (fst s)). ob_status r \<noteq> OB_Published}"

text \<open>The event \<open>i\<close> has an unpublished row, or its job is in the queue.\<close>

definition on_its_way :: "uuid \<Rightarrow> system_state \<Rightarrow> bool" where
  "on_its_way i s \<longleftrightarrow>
     (\<exists>r\<in>set (outbox_events (fst s)). ob_aggregateId r = i \<and> ob_status r \<noteq> OB_Published) \<or>
     (\<exists>j\<in>queued_jobs (snd s). jd_webhookEventId j = i)"

definition dispatch_good :: "platform \<Rightarrow> bullmq \<Rightarrow> time \<Rightarrow> uuid \<Rightarrow> system_state \<Rightarrow> bool" where
  "dispatch_good pl b now i s \<longleftrightarrow>
     redis_up b \<and> system_ok pl s \<and> holder_ready (bk_holder (dw_broker (snd s))) \<and> on_its_way i s \<and>
     (\<forall>r\<in>set (outbox_events (fst s)). due_by now r)"

definition dispatch_fits :: "platform \<Rightarrow> time \<Rightarrow> env \<Rightarrow> bool" where
  "dispatch_fits pl now e \<longleftrightarrow> runs_on pl e \<and> locked e = (\<lambda>_. False) \<and> now \<le> pg_now e"

lemma due_eligible:
  "outbox_ok r \<Longrightarrow> due_by now r \<Longrightarrow> now \<le> now' \<Longrightarrow> eligible now' r \<longleftrightarrow> ob_status r \<noteq> OB_Published"
  by (cases "ob_status r") (auto simp: eligible_def outbox_ok_def due_by_def split: option.split)

lemma outbox_deliverable:
  assumes "system_ok pl (d, q)" and "runs_on pl e" and "r \<in> set (outbox_events d)"
  shows "deliverable e r \<and> jd_webhookEventId (job_of r) = ob_aggregateId r"
proof -
  obtain c where j: "toJobData r = Inr \<lparr>jd_webhookEventId = ob_aggregateId r, jd_correlationId = c\<rparr>"
    using outbox_job [OF system_okD(4) [OF assms(1,3)]] by blast
  have "ob_aggregateId r \<in> set (map we_id (webhook_events d))"
    using assms(3) unfolding system_okD(7) [OF assms(1), symmetric] by simp
  then have "pf_uuid pl (ob_aggregateId r) = Some (ob_aggregateId r)"
    using system_okD(3) [OF assms(1)] by (auto simp: event_ok_def)
  then show ?thesis using j assms(2) by (simp add: deliverable_def job_of_def runs_on_def)
qed

lemma dispatch_round_up:
  assumes g: "dispatch_good pl b now i (d, q)" and f: "dispatch_fits pl now e"
  obtains d' q' where "dispatch_round b limit e (d, q) = (d', q')" "system_ok pl (d', q')"
    "holder_ready (bk_holder (dw_broker q'))"
    "bk_jobs (dw_broker q') = bk_jobs (dw_broker q) @ map job_of (eligible_rows (pg_now e) (locked e) limit d)"
    "batch_effect e (eligible_rows (pg_now e) (locked e) limit d) (queued_jobs q') d d'"
    "\<forall>r\<in>set (eligible_rows (pg_now e) (locked e) limit d). \<exists>t. published_row t (pg_now e) r \<in> set (outbox_events d')"
    "\<forall>r\<in>set (outbox_events d). r \<notin> set (eligible_rows (pg_now e) (locked e) limit d) \<longrightarrow> r \<in> set (outbox_events d')"
proof -
  have ok: "system_ok pl (d, q)" "redis_up b" "holder_ready (bk_holder (dw_broker q))" using g by (simp_all add: dispatch_good_def)
  have ids: "distinct (map ob_id (outbox_events d))"
    using system_okD(1) [OF ok(1)] by (simp add: tables_unique_def outbox_rows.unique_rows_def)
  have "\<forall>r\<in>set (outbox_events d). deliverable e r" using outbox_deliverable [OF ok(1)] f by (simp add: dispatch_fits_def)
  from dispatch_up [OF ok(2,3) ids this, of limit] obtain res d' q' where
    run: "dispatchBatch b limit (calm e) (d, q) = (Inr res, d', q')" and
    rest: "holder_ready (bk_holder (dw_broker q'))"
    "bk_jobs (dw_broker q') = bk_jobs (dw_broker q) @ map job_of (eligible_rows (pg_now e) (locked e) limit d)"
    "\<forall>r\<in>set (eligible_rows (pg_now e) (locked e) limit d). \<exists>t. published_row t (pg_now e) r \<in> set (outbox_events d')"
    "\<forall>r\<in>set (outbox_events d). r \<notin> set (eligible_rows (pg_now e) (locked e) limit d) \<longrightarrow> r \<in> set (outbox_events d')"
    by blast
  show thesis
    by (rule that [of d' q'])
      (use run rest dispatch_ok [OF ok(1) run] dispatch_calm_effect [OF run ids] in \<open>simp_all add: dispatch_round_def\<close>)
qed

lemma dispatch_round_rows:
  assumes g: "dispatch_good pl b now i (d, q)" and f: "dispatch_fits pl now e"
    and run: "dispatch_round b limit e (d, q) = (d', q')" and r': "r' \<in> set (outbox_events d')"
  defines "selected \<equiv> eligible_rows (pg_now e) (locked e) limit d"
  shows "(\<exists>r\<in>set selected. \<exists>t. r' = published_row t (pg_now e) r) \<or> r' \<in> set (outbox_events d) \<and> r' \<notin> set selected"
  using g f
proof (rule dispatch_round_up [where limit = limit])
  fix d1 q1
  assume d1: "dispatch_round b limit e (d, q) = (d1, q1)" and ok: "system_ok pl (d1, q1)"
    and eff: "batch_effect e (eligible_rows (pg_now e) (locked e) limit d) (queued_jobs q1) d d1"
    and pub: "\<forall>r\<in>set (eligible_rows (pg_now e) (locked e) limit d). \<exists>t. published_row t (pg_now e) r \<in> set (outbox_events d1)"
    and keep: "\<forall>r\<in>set (outbox_events d). r \<notin> set (eligible_rows (pg_now e) (locked e) limit d) \<longrightarrow> r \<in> set (outbox_events d1)"
  have eq: "d1 = d'" using d1 run by simp
  have ids: "distinct (map ob_id (outbox_events d'))"
    using system_okD(1) [OF ok] by (simp add: eq tables_unique_def outbox_rows.unique_rows_def)
  have "list_all2 (\<lambda>r r'. ob_id r = ob_id r') (outbox_events d) (outbox_events d')"
    using eff unfolding eq batch_effect_def by (auto elim!: list_all2_mono dest!: row_change_id)
  from list_all2_setD2 [OF this r'] obtain r where r: "r \<in> set (outbox_events d)" "ob_id r = ob_id r'" by blast
  have same: "x = r'" if "x \<in> set (outbox_events d')" "ob_id x = ob_id r" for x
    using that r' r(2) ids by (auto simp: distinct_map dest: inj_onD)
  show ?thesis
  proof (cases "r \<in> set selected")
    case True
    with pub obtain t where "published_row t (pg_now e) r \<in> set (outbox_events d')" unfolding eq selected_def by blast
    then have "r' = published_row t (pg_now e) r" using same [of "published_row t (pg_now e) r"] by (simp add: published_row_def)
    with True show ?thesis by blast
  next
    case False
    with keep r have "r = r'" unfolding eq selected_def by (intro same) simp_all
    with r(1) False show ?thesis by simp
  qed
qed

lemma dispatch_selected:
  assumes "dispatch_good pl b now i (d, q)" and "dispatch_fits pl now e"
  shows "eligible_rows (pg_now e) (locked e) limit d =
    take limit (sort_key ob_createdAt (filter (\<lambda>r. ob_status r \<noteq> OB_Published) (outbox_events d)))"
proof -
  have "filter (eligible (pg_now e)) (outbox_events d) = filter (\<lambda>r. ob_status r \<noteq> OB_Published) (outbox_events d)"
  proof (rule filter_cong [OF refl])
    fix r assume "r \<in> set (outbox_events d)"
    with assms system_okD(4) [of pl d q] show "eligible (pg_now e) r \<longleftrightarrow> ob_status r \<noteq> OB_Published"
      by (intro due_eligible [where now = now]) (simp_all add: dispatch_good_def dispatch_fits_def)
  qed
  moreover have "locked e = (\<lambda>_. False)" using assms(2) by (simp add: dispatch_fits_def)
  ultimately show ?thesis by (simp add: eligible_rows_def)
qed

lemma dispatch_round_good:
  assumes g: "dispatch_good pl b now i (d, q)" and f: "dispatch_fits pl now e"
  shows "dispatch_good pl b now i (dispatch_round b limit e (d, q))"
  using g f
proof (rule dispatch_round_up [where limit = limit])
  let ?sel = "eligible_rows (pg_now e) (locked e) limit d"
  fix d' q'
  assume run: "dispatch_round b limit e (d, q) = (d', q')" and ok: "system_ok pl (d', q')"
    and ready: "holder_ready (bk_holder (dw_broker q'))" and jobs: "bk_jobs (dw_broker q') = bk_jobs (dw_broker q) @ map job_of ?sel"
    and keep: "\<forall>r\<in>set (outbox_events d). r \<notin> set ?sel \<longrightarrow> r \<in> set (outbox_events d')"
  have dok: "system_ok pl (d, q)" using g by (simp add: dispatch_good_def)
  have "due_by now r" if "r \<in> set (outbox_events d')" for r
    using dispatch_round_rows [OF g f run that] g by (auto simp: dispatch_good_def due_by_def published_row_def)
  moreover have "on_its_way i (d', q')"
    using g unfolding dispatch_good_def on_its_way_def fst_conv snd_conv
  proof (elim conjE disjE bexE)
    fix r assume r: "r \<in> set (outbox_events d)" "ob_aggregateId r = i" "ob_status r \<noteq> OB_Published"
    show "(\<exists>r\<in>set (outbox_events d'). ob_aggregateId r = i \<and> ob_status r \<noteq> OB_Published) \<or>
        (\<exists>j\<in>queued_jobs q'. jd_webhookEventId j = i)"
    proof (cases "r \<in> set ?sel")
      case True
      moreover have "jd_webhookEventId (job_of r) = i" using outbox_deliverable [OF dok _ r(1), of e] f r(2) by (simp add: dispatch_fits_def)
      ultimately show ?thesis using jobs by auto
    next
      case False
      with keep r show ?thesis by blast
    qed
  next
    fix j assume "j \<in> queued_jobs q" "jd_webhookEventId j = i"
    with jobs show "(\<exists>r\<in>set (outbox_events d'). ob_aggregateId r = i \<and> ob_status r \<noteq> OB_Published) \<or>
        (\<exists>j\<in>queued_jobs q'. jd_webhookEventId j = i)" by auto
  qed
  ultimately show ?thesis using g ok ready unfolding run by (simp add: dispatch_good_def)
qed

lemma dispatch_round_unpublished:
  assumes g: "dispatch_good pl b now i (d, q)" and f: "dispatch_fits pl now e"
  shows "unpublished (dispatch_round b limit e (d, q)) \<subseteq>
    ob_id ` {r \<in> set (outbox_events d). ob_status r \<noteq> OB_Published \<and>
      ob_id r \<notin> ob_id ` set (eligible_rows (pg_now e) (locked e) limit d)}"
proof
  obtain d' q' where run: "dispatch_round b limit e (d, q) = (d', q')" by (cases "dispatch_round b limit e (d, q)")
  have dok: "system_ok pl (d, q)" using g by (simp add: dispatch_good_def)
  have ids: "distinct (map ob_id (outbox_events d))"
    using system_okD(1) [OF dok] by (simp add: tables_unique_def outbox_rows.unique_rows_def)
  fix k assume "k \<in> unpublished (dispatch_round b limit e (d, q))"
  then obtain r where r: "r \<in> set (outbox_events d')" "ob_status r \<noteq> OB_Published" "k = ob_id r"
    unfolding run unpublished_def by auto
  from dispatch_round_rows [OF g f run r(1)] r(2)
  have "r \<in> set (outbox_events d)" "r \<notin> set (eligible_rows (pg_now e) (locked e) limit d)"
    by (auto simp: published_row_def)
  moreover from this have "ob_id r \<notin> ob_id ` set (eligible_rows (pg_now e) (locked e) limit d)"
    using eligible_rows_sub [of "pg_now e" "locked e" limit d] ids by (auto simp: distinct_map dest!: inj_onD)
  ultimately show "k \<in> ob_id ` {r \<in> set (outbox_events d). ob_status r \<noteq> OB_Published \<and>
      ob_id r \<notin> ob_id ` set (eligible_rows (pg_now e) (locked e) limit d)}" using r by blast
qed

interpretation dispatch_rounds: draining "dispatch_round b limit" unpublished limit "dispatch_good pl b now i" "dispatch_fits pl now"
  for b limit pl now i
proof unfold_locales
  fix s e
  assume g: "dispatch_good pl b now i s" and f: "dispatch_fits pl now e"
  obtain d q where s: "s = (d, q)" by (cases s)
  note g = g [unfolded s]
  show "dispatch_good pl b now i (dispatch_round b limit e s)" unfolding s by (rule dispatch_round_good [OF g f])
  have ids: "distinct (map ob_id (outbox_events d))"
    using g system_okD(1) [of pl d q] by (simp add: dispatch_good_def tables_unique_def outbox_rows.unique_rows_def)
  have "card (unpublished (dispatch_round b limit e s)) \<le>
      card (ob_id ` {r \<in> set (outbox_events d). ob_status r \<noteq> OB_Published \<and>
        ob_id r \<notin> ob_id ` set (eligible_rows (pg_now e) (locked e) limit d)})"
    unfolding s by (rule card_mono [OF _ dispatch_round_unpublished [OF g f]]) simp
  also have "\<dots> = card (unpublished s) - limit"
    unfolding card_remove_first [OF ids dispatch_selected [OF g f]] by (simp add: unpublished_def s)
  finally show "card (unpublished (dispatch_round b limit e s)) \<le> card (unpublished s) - limit" .
qed (simp add: unpublished_def)

section \<open>Settling an event\<close>

lemma reconcile_rounds_events:
  "webhook_events (fold (reconcile_round olderThanMs limit) es d) = webhook_events d"
  by (induction es arbitrary: d) (simp_all add: reconcile_round_eq)

lemma one_row_per_event:
  assumes "system_ok pl (d, q)" and "w \<in> set (webhook_events d)"
  shows "\<exists>r\<in>set (outbox_events d). ob_aggregateId r = we_id w"
proof -
  have "we_id w \<in> set (map ob_aggregateId (outbox_events d))" using assms(2) unfolding system_okD(7) [OF assms(1)] by simp
  then show ?thesis by auto
qed

lemma recovery_job:
  assumes ok: "system_ok pl (d, q)" and w: "w \<in> set (webhook_events d)" "we_status w \<in> {WE_Received, WE_Queued}"
    and up: "redis_up b" "holder_ready (bk_holder (dw_broker q))"
    and es: "\<forall>e\<in>set es. reconcile_fits olderThanMs before now e" and es': "\<forall>e\<in>set es'. dispatch_fits pl now e"
    and rows: "\<forall>r\<in>set (outbox_events d). due_by now r \<and> (\<forall>t. ob_publishedAt r = Some t \<longrightarrow> t < before)"
    and n: "length (outbox_events d) \<le> length es * n" "length (outbox_events d) \<le> length es' * n'"
  defines "s \<equiv> fold (dispatch_round b n') es' (fold (reconcile_round olderThanMs n) es d, q)"
  shows "system_ok pl s \<and> (\<exists>j\<in>queued_jobs (snd s). jd_webhookEventId j = we_id w)"
proof -
  let ?d = "fold (reconcile_round olderThanMs n) es d"
  have len: "length (outbox_events ?d) = length (outbox_events d)"
    by (induction es arbitrary: d) (simp_all add: reconcile_round_eq)
  have card_le: "card (ob_id ` {r \<in> set xs. P r}) \<le> length xs" for P and xs :: "OutboxEventEntity list"
    by (rule order_trans [OF card_image_le]) (auto intro: order_trans [OF card_mono card_length])
  have "reconcile_good pl q before now d" using ok rows by (simp add: reconcile_good_def)
  moreover have "card (stuck d) \<le> length es * n" unfolding stuck_def by (rule order_trans [OF card_le n(1)])
  ultimately have g: "reconcile_good pl q before now ?d" and empty: "stuck ?d = {}"
    using reconcile_rounds.drained [OF _ es] by blast+
  then have dok: "system_ok pl (?d, q)" by (simp add: reconcile_good_def)
  obtain r where r: "r \<in> set (outbox_events ?d)" "ob_aggregateId r = we_id w"
    using one_row_per_event [OF dok, of w] w(1) by (auto simp: reconcile_rounds_events)
  have "we_id w \<in> open_ids ?d" using w by (auto simp: open_ids_def reconcile_rounds_events)
  with r empty have "ob_status r \<noteq> OB_Published" by (auto simp: stuck_def)
  with r have "on_its_way (we_id w) (?d, q)" by (auto simp: on_its_way_def)
  then have "dispatch_good pl b now (we_id w) (?d, q)" using g up by (simp add: dispatch_good_def reconcile_good_def)
  moreover have "card (unpublished (?d, q)) \<le> length es' * n'"
    unfolding unpublished_def fst_conv by (rule order_trans [OF card_le]) (simp add: len n(2))
  ultimately have "dispatch_good pl b now (we_id w) s" and "unpublished s = {}"
    unfolding s_def using dispatch_rounds.drained [OF _ es'] by blast+
  then show ?thesis by (auto simp: dispatch_good_def on_its_way_def unpublished_def)
qed

lemma job_settles:
  assumes ok: "system_ok pl (d, q)" and on: "runs_on pl e" and i: "i \<in> we_id ` set (webhook_events d)"
    and "clock e 0 \<le> clock e 1" and "clock e 0 \<le> clock e 2"
    and "new_uuid e 0 \<notin> wa_id ` set (webhook_processing_attempts d)" and "varchar_null 255 jobId"
  shows "\<exists>res d'. processWebhookEvent i jobId (calm e) d = (Inr res, d') \<and>
    (\<exists>w'\<in>set (webhook_events d'). we_id w' = i \<and> we_status w' \<in> {WE_Processed, WE_Failed})"
proof -
  obtain w where w: "w \<in> set (webhook_events d)" "we_id w = i" using i by blast
  have unique: "payment_rows.unique_rows (payment_intents d)" "webhook_rows.unique_rows (webhook_events d)"
    using system_okD(1) [OF ok] by (simp_all add: tables_unique_def)
  have found: "row_find we_id i (webhook_events d) = Some w" using webhook_rows.find_unique [OF unique(2)] w by simp
  have u: "pg_uuid e i = Some i" using system_okD(3) [OF ok w(1)] w(2) on by (simp add: event_ok_def runs_on_def)
  obtain dec where dec: "decide w (payment_intents d) = Inr dec"
    using decide_total [OF system_okD(3) [OF ok w(1)]] system_okD(2) [OF ok] by blast
  obtain payload where s: "stored_payload w payload" using system_okD(3) [OF ok w(1)] by (auto simp: event_ok_def)
  have fits: "we_fits w" "\<And>p. p \<in> set (payment_intents d) \<Longrightarrow> pi_fits p"
    using system_okD(3) [OF ok w(1)] system_okD(2) [OF ok] by (simp_all add: event_ok_def intent_ok_def)
  have "varchar 255 (normalizeTxHash raw)" if "json_get (js ''txHash'') (we_payload w) = Some (JStr raw)" for raw
    using stored_fields(3) [OF s that] fits(1) by (simp add: we_fits_def)
  from process_returns [OF u found fits(1) assms(7,4,5,6) unique(1) dec fits(2) this] obtain res d'
    where run: "processWebhookEvent i jobId (calm e) d = (Inr res, d')" by (metis prod.collapse)
  from process_transaction_success [OF run unique(1)] u found dec
  consider "we_status w \<in> {WE_Processed, WE_Failed}" "webhook_events d' = webhook_events d"
    | "webhook_events d' = row_update we_id (we_id w) (\<lambda>_. settled_event (clock e 1) (pg_now e) dec w) (webhook_events d)"
    by (auto simp: attempted_db_def decided_db_def)
  then have "\<exists>w'\<in>set (webhook_events d'). we_id w' = i \<and> we_status w' \<in> {WE_Processed, WE_Failed}"
  proof cases
    case 1
    with w show ?thesis by auto
  next
    case 2
    have "settled_event (clock e 1) (pg_now e) dec w \<in> set (webhook_events d')"
      using w unfolding 2 by (auto simp: in_row_update intro!: bexI [of _ w])
    moreover have "we_status (settled_event (clock e 1) (pg_now e) dec w) \<in> {WE_Processed, WE_Failed}"
      by (cases dec) (simp_all add: settled_event_def)
    ultimately show ?thesis using w(2) settled_columns(2) by blast
  qed
  with run show ?thesis by blast
qed

end
