(* ===== verification/Migration.thy ===== *)
theory Migration
  imports Database Tx_Hash "HOL-Library.Product_Lexorder"
begin

text \<open>
  The data migration \<open>migrations/1790150000000-NormalizeConfirmedTxHashes.ts\<close>, one statement: the canonical
  form of every confirmed transaction hash goes to one payment intent.  \<open>canonical\<close> and
  \<open>holder\<close> are the two common table expressions; the UPDATE goes through the rows one by one and checks
  the unique index on \<open>confirmed_tx_hash\<close> for each of them.
\<close>

section \<open>The statement\<close>

record canonical_row =
  cn_id :: uuid
  cn_confirmed :: jsstr
  cn_updatedAt :: time
  cn_txHash :: jsstr

definition canonical_rows :: "PaymentIntentEntity list \<Rightarrow> canonical_row list" where
  "canonical_rows intents =
     concat (map (\<lambda>p. case pi_confirmedTxHash p of
         None \<Rightarrow> []
       | Some h \<Rightarrow> [\<lparr>cn_id = pi_id p, cn_confirmed = h, cn_updatedAt = pi_updatedAt p,
                     cn_txHash = CANONICAL_CONFIRMED_TX_HASH_SQL h\<rparr>]) intents)"

text \<open>\<open>SELECT DISTINCT ON\<close> keeps the first row of each group.\<close>

function distinct_on :: "('r \<Rightarrow> 'k) \<Rightarrow> 'r list \<Rightarrow> 'r list" where
  "distinct_on f [] = []"
| "distinct_on f (x # xs) = x # distinct_on f (filter (\<lambda>y. f y \<noteq> f x) xs)"
  by pat_completeness auto
termination
  by (relation "measure (\<lambda>(f, xs). length xs)") (auto simp: le_imp_less_Suc)

text \<open>\<open>true\<close> sorts before \<open>false\<close> in \<open>confirmed_tx_hash = tx_hash DESC\<close>.\<close>

definition holder_order :: "canonical_row \<Rightarrow> jsstr \<times> bool \<times> time \<times> uuid" where
  "holder_order c = (cn_txHash c, cn_confirmed c \<noteq> cn_txHash c, cn_updatedAt c, cn_id c)"

definition holders :: "PaymentIntentEntity list \<Rightarrow> canonical_row list" where
  "holders intents = distinct_on cn_txHash (sort_key holder_order (canonical_rows intents))"

definition holder_of :: "canonical_row list \<Rightarrow> PaymentIntentEntity \<Rightarrow> canonical_row option" where
  "holder_of hs p = find (\<lambda>h. cn_id h = pi_id p) hs"

fun update_intents ::
  "canonical_row list \<Rightarrow> PaymentIntentEntity list \<Rightarrow> PaymentIntentEntity list \<Rightarrow> uval + PaymentIntentEntity list" where
  "update_intents hs updated [] = Inr updated"
| "update_intents hs updated (p # ps) =
     (case holder_of hs p of
        None \<Rightarrow> update_intents hs (updated @ [p]) ps
      | Some h \<Rightarrow>
          if pi_confirmedTxHash p = None \<or> pi_confirmedTxHash p = Some (cn_txHash h) then update_intents hs (updated @ [p]) ps
          else
            (let row = p\<lparr>pi_confirmedTxHash := Some (cn_txHash h)\<rparr>
             in if list_ex (\<lambda>r. pi_conflicts row r) (updated @ ps) then Inl (pg_error ''23505'')
                else update_intents hs (updated @ [row]) ps))"

definition NormalizeConfirmedTxHashes_up :: "db \<Rightarrow> uval + db" where
  "NormalizeConfirmedTxHashes_up d =
     (case update_intents (holders (payment_intents d)) [] (payment_intents d) of
        Inl err \<Rightarrow> Inl err
      | Inr rows \<Rightarrow> Inr (d\<lparr>payment_intents := rows\<rparr>))"

section \<open>Selecting one row per group\<close>

lemma distinct_on_set: "set (distinct_on f xs) \<subseteq> set xs"
  by (induction f xs rule: distinct_on.induct) auto

lemma distinct_on_groups: "f ` set (distinct_on f xs) = f ` set xs"
  by (induction f xs rule: distinct_on.induct) (auto simp: image_iff)

lemma distinct_on_distinct: "distinct (map f (distinct_on f xs))"
proof (induction f xs rule: distinct_on.induct)
  case (2 f x xs)
  then show ?case using distinct_on_set [of f "filter (\<lambda>y. f y \<noteq> f x) xs"] by auto
qed simp

lemma distinct_on_first:
  assumes "sorted (map g xs)" and "x \<in> set (distinct_on f xs)" and "y \<in> set xs" and "f y = f x"
  shows "g x \<le> g y"
  using assms
proof (induction f xs rule: distinct_on.induct)
  case (2 f a xs)
  show ?case
  proof (cases "x = a")
    case True
    with 2 show ?thesis by auto
  next
    case False
    with 2(3) have x: "x \<in> set (distinct_on f (filter (\<lambda>y. f y \<noteq> f a) xs))" by simp
    then have "f x \<noteq> f a" using distinct_on_set [of f "filter (\<lambda>y. f y \<noteq> f a) xs"] by auto
    with 2 x show ?thesis by (auto simp: sorted_filter)
  qed
qed simp

section \<open>The holders\<close>

lemma in_canonical_rows:
  "c \<in> set (canonical_rows intents) \<longleftrightarrow>
     (\<exists>p\<in>set intents. \<exists>h. pi_confirmedTxHash p = Some h \<and>
        c = \<lparr>cn_id = pi_id p, cn_confirmed = h, cn_updatedAt = pi_updatedAt p, cn_txHash = normalizeTxHash h\<rparr>)"
proof -
  have "c \<in> set (canonical_rows intents) \<longleftrightarrow> (\<exists>p\<in>set intents. c \<in> set (case pi_confirmedTxHash p of
         None \<Rightarrow> []
       | Some h \<Rightarrow> [\<lparr>cn_id = pi_id p, cn_confirmed = h, cn_updatedAt = pi_updatedAt p, cn_txHash = normalizeTxHash h\<rparr>]))"
    by (simp add: canonical_rows_def canonical_sql_eq)
  also have "\<dots> \<longleftrightarrow> (\<exists>p\<in>set intents. \<exists>h. pi_confirmedTxHash p = Some h \<and>
        c = \<lparr>cn_id = pi_id p, cn_confirmed = h, cn_updatedAt = pi_updatedAt p, cn_txHash = normalizeTxHash h\<rparr>)"
    by (rule bex_cong [OF refl]) (auto split: option.splits)
  finally show ?thesis .
qed

lemma holdersD:
  assumes "c \<in> set (holders intents)"
  shows "\<exists>p\<in>set intents. pi_confirmedTxHash p = Some (cn_confirmed c) \<and> cn_id c = pi_id p \<and>
    cn_updatedAt c = pi_updatedAt p \<and> cn_txHash c = normalizeTxHash (cn_confirmed c)"
proof -
  have "c \<in> set (canonical_rows intents)"
    using assms distinct_on_set [of cn_txHash "sort_key holder_order (canonical_rows intents)"] by (auto simp: holders_def)
  then obtain p h where "p \<in> set intents" "pi_confirmedTxHash p = Some h"
    "c = \<lparr>cn_id = pi_id p, cn_confirmed = h, cn_updatedAt = pi_updatedAt p, cn_txHash = normalizeTxHash h\<rparr>"
    unfolding in_canonical_rows by blast
  then show ?thesis by (intro bexI [of _ p]) simp_all
qed

lemma holder_first:
  assumes "c \<in> set (holders intents)" and "p \<in> set intents" and "pi_confirmedTxHash p = Some h" and "normalizeTxHash h = cn_txHash c"
  shows "holder_order c \<le> (cn_txHash c, h \<noteq> cn_txHash c, pi_updatedAt p, pi_id p)"
proof -
  let ?c = "\<lparr>cn_id = pi_id p, cn_confirmed = h, cn_updatedAt = pi_updatedAt p, cn_txHash = normalizeTxHash h\<rparr>"
  have "?c \<in> set (sort_key holder_order (canonical_rows intents))"
    unfolding set_sort in_canonical_rows using assms(2,3) by blast
  moreover have "sorted (map holder_order (sort_key holder_order (canonical_rows intents)))" by simp
  ultimately have "holder_order c \<le> holder_order ?c"
    using assms(1,4) distinct_on_first [of holder_order "sort_key holder_order (canonical_rows intents)" c cn_txHash ?c]
    by (simp add: holders_def)
  then show ?thesis by (simp add: holder_order_def assms(4))
qed

text \<open>An intent that holds the canonical spelling is the holder of its hash.\<close>

lemma holder_keeps:
  assumes "c \<in> set (holders intents)" and "p \<in> set intents" and "pi_confirmedTxHash p = Some (cn_txHash c)"
  shows "cn_confirmed c = cn_txHash c"
proof -
  have "normalizeTxHash (cn_txHash c) = cn_txHash c" using holdersD [OF assms(1)] by auto
  from holder_first [OF assms this] show ?thesis unfolding holder_order_def less_eq_prod_def prod.sel by auto
qed

lemma holder_exists:
  assumes "p \<in> set intents" and "pi_confirmedTxHash p = Some h"
  shows "\<exists>c\<in>set (holders intents). cn_txHash c = normalizeTxHash h"
proof -
  let ?c = "\<lparr>cn_id = pi_id p, cn_confirmed = h, cn_updatedAt = pi_updatedAt p, cn_txHash = normalizeTxHash h\<rparr>"
  have "?c \<in> set (sort_key holder_order (canonical_rows intents))"
    unfolding set_sort in_canonical_rows using assms by blast
  then have "cn_txHash ?c \<in> cn_txHash ` set (sort_key holder_order (canonical_rows intents))" by (rule imageI)
  then have "normalizeTxHash h \<in> cn_txHash ` set (holders intents)"
    unfolding holders_def distinct_on_groups by (simp only: canonical_row.simps)
  then show ?thesis by (elim imageE) (rule bexI, rule sym)
qed

lemma holders_unique:
  assumes "c \<in> set (holders intents)" and "c' \<in> set (holders intents)" and "cn_txHash c = cn_txHash c'"
  shows "c = c'"
proof -
  have "inj_on cn_txHash (set (holders intents))"
    using distinct_on_distinct [of cn_txHash "sort_key holder_order (canonical_rows intents)"] unfolding holders_def distinct_map by blast
  then show ?thesis using assms by (blast dest: inj_onD)
qed

lemma holder_ofD:
  assumes "holder_of (holders intents) p = Some c" and "p \<in> set intents" and "distinct (map pi_id intents)"
  shows "c \<in> set (holders intents) \<and> cn_id c = pi_id p \<and> pi_confirmedTxHash p = Some (cn_confirmed c) \<and>
    cn_txHash c = normalizeTxHash (cn_confirmed c)"
proof -
  have c: "c \<in> set (holders intents)" "cn_id c = pi_id p" using assms(1) by (auto simp: holder_of_def find_Some_iff)
  from holdersD [OF c(1)] obtain p0 where "p0 \<in> set intents" "pi_confirmedTxHash p0 = Some (cn_confirmed c)" "cn_id c = pi_id p0"
    "cn_txHash c = normalizeTxHash (cn_confirmed c)" by blast
  moreover from this c assms(2,3) have "p0 = p" by (auto simp: distinct_map dest: inj_onD)
  ultimately show ?thesis using c by simp
qed

section \<open>The update\<close>

definition normalized_intent :: "PaymentIntentEntity list \<Rightarrow> PaymentIntentEntity \<Rightarrow> PaymentIntentEntity" where
  "normalized_intent intents p =
     (case holder_of (holders intents) p of None \<Rightarrow> p | Some c \<Rightarrow> p\<lparr>pi_confirmedTxHash := Some (cn_txHash c)\<rparr>)"

lemma normalized_id [simp]: "pi_id (normalized_intent intents p) = pi_id p"
  by (simp add: normalized_intent_def split: option.split)

text \<open>No other row takes or has the canonical form that a row is given.\<close>

lemma normalized_distinct:
  assumes unique: "payment_rows.unique_rows intents" and p: "p \<in> set intents" and q: "q \<in> set intents" "pi_id q \<noteq> pi_id p"
    and c: "holder_of (holders intents) p = Some c"
  shows "pi_confirmedTxHash (normalized_intent intents q) \<noteq> Some (cn_txHash c)"
    and "pi_confirmedTxHash p \<noteq> Some (cn_txHash c) \<Longrightarrow> pi_confirmedTxHash q \<noteq> Some (cn_txHash c)"
proof -
  have ids: "distinct (map pi_id intents)" using unique by (simp add: payment_rows.unique_rows_def)
  note pc = holder_ofD [OF c p ids]
  have noq: "pi_confirmedTxHash q \<noteq> Some (cn_txHash c)"
  proof
    assume h: "pi_confirmedTxHash q = Some (cn_txHash c)"
    from holder_keeps [OF conjunct1 [OF pc] q(1) h] pc have "pi_confirmedTxHash p = Some (cn_txHash c)" by simp
    then have "pi_conflicts p q" using h by (simp add: pi_conflicts_def)
    with payment_rows.conflict_unique [OF unique p q(1)] q(2) show False by blast
  qed
  show "pi_confirmedTxHash q \<noteq> Some (cn_txHash c)" by (rule noq)
  show "pi_confirmedTxHash (normalized_intent intents q) \<noteq> Some (cn_txHash c)"
  proof (cases "holder_of (holders intents) q")
    case None
    with noq show ?thesis by (simp add: normalized_intent_def)
  next
    case (Some c')
    note qc = holder_ofD [OF this q(1) ids]
    have "cn_txHash c' \<noteq> cn_txHash c"
    proof
      assume "cn_txHash c' = cn_txHash c"
      then have "c' = c" using holders_unique qc pc by blast
      with qc pc q(2) show False by simp
    qed
    with Some show ?thesis by (simp add: normalized_intent_def)
  qed
qed

lemma update_intents_normalizes:
  assumes "payment_rows.unique_rows intents" and "intents = before @ rest"
  shows "update_intents (holders intents) (map (normalized_intent intents) before) rest = Inr (map (normalized_intent intents) intents)"
  using assms(2)
proof (induction rest arbitrary: before)
  case (Cons p rest)
  let ?done = "map (normalized_intent intents) before"
  have ids: "distinct (map pi_id intents)" using assms(1) by (simp add: payment_rows.unique_rows_def)
  have step: "update_intents (holders intents) (?done @ [normalized_intent intents p]) rest = Inr (map (normalized_intent intents) intents)"
    using Cons.IH [of "before @ [p]"] Cons.prems by simp
  have p: "p \<in> set intents" and other: "\<And>q. q \<in> set (before @ rest) \<Longrightarrow> q \<in> set intents \<and> pi_id q \<noteq> pi_id p"
    using Cons.prems ids by (auto simp: image_iff)
  show ?case
  proof (cases "holder_of (holders intents) p")
    case None
    then have "normalized_intent intents p = p" by (simp add: normalized_intent_def)
    with step None show ?thesis by simp
  next
    case (Some c)
    note pc = holder_ofD [OF Some p ids]
    let ?row = "p\<lparr>pi_confirmedTxHash := Some (cn_txHash c)\<rparr>"
    have row: "normalized_intent intents p = ?row" using Some by (simp add: normalized_intent_def)
    show ?thesis
    proof (cases "pi_confirmedTxHash p = Some (cn_txHash c)")
      case True
      then have "?row = p" by simp
      with step row Some True show ?thesis by simp
    next
      case False
      have "\<not> pi_conflicts ?row r" if "r \<in> set (?done @ rest)" for r
        using that normalized_distinct [OF assms(1) p _ _ Some] other False by (auto simp: pi_conflicts_def)
      then have "\<not> list_ex (\<lambda>r. pi_conflicts ?row r) (?done @ rest)" by (auto simp: list_ex_iff)
      with step row Some False pc show ?thesis by (simp add: Let_def)
    qed
  qed
qed simp

lemma normalized_unique:
  assumes "payment_rows.unique_rows intents"
  shows "payment_rows.unique_rows (map (normalized_intent intents) intents)"
proof -
  have ids: "distinct (map pi_id intents)" using assms by (simp add: payment_rows.unique_rows_def)
  have "\<not> pi_conflicts (normalized_intent intents p) (normalized_intent intents q)"
    if pq: "p \<in> set intents" "q \<in> set intents" "pi_id p \<noteq> pi_id q" for p q
  proof (cases "holder_of (holders intents) p")
    case (Some c)
    with normalized_distinct(1) [OF assms pq(1,2) _ Some] pq(3) show ?thesis
      by (simp add: pi_conflicts_def) (simp add: normalized_intent_def)
  next
    case None
    show ?thesis
    proof (cases "holder_of (holders intents) q")
      case (Some c)
      with normalized_distinct(1) [OF assms pq(2,1) _ Some] pq(3) show ?thesis
        by (simp add: pi_conflicts_def) (simp add: normalized_intent_def)
    next
      case None': None
      have "\<not> pi_conflicts p q" using assms pq unfolding payment_rows.unique_rows_def by blast
      with None None' show ?thesis by (simp add: normalized_intent_def)
    qed
  qed
  then show ?thesis using ids by (auto simp: payment_rows.unique_rows_def comp_def)
qed

lemma up_normalizes:
  assumes "payment_rows.unique_rows (payment_intents d)"
  shows "NormalizeConfirmedTxHashes_up d = Inr (d\<lparr>payment_intents := map (normalized_intent (payment_intents d)) (payment_intents d)\<rparr>)"
  using update_intents_normalizes [OF assms, of "[]" "payment_intents d"] by (simp add: NormalizeConfirmedTxHashes_up_def)

lemma normalized_cases:
  assumes "payment_rows.unique_rows intents" and "p \<in> set intents"
  shows "normalized_intent intents p = p \<or>
    (\<exists>h. pi_confirmedTxHash p = Some h \<and> normalized_intent intents p = p\<lparr>pi_confirmedTxHash := Some (normalizeTxHash h)\<rparr>)"
proof (cases "holder_of (holders intents) p")
  case (Some c)
  have "distinct (map pi_id intents)" using assms(1) by (simp add: payment_rows.unique_rows_def)
  from holder_ofD [OF Some assms(2) this] Some show ?thesis by (simp add: normalized_intent_def)
qed (simp add: normalized_intent_def)

text \<open>The row the order puts first in its group gets the canonical form.\<close>

lemma first_normalized:
  assumes unique: "payment_rows.unique_rows intents" and p: "p \<in> set intents" "pi_confirmedTxHash p = Some h"
    and first: "\<And>q g. q \<in> set intents \<Longrightarrow> pi_confirmedTxHash q = Some g \<Longrightarrow> normalizeTxHash g = normalizeTxHash h \<Longrightarrow>
      (h \<noteq> normalizeTxHash h, pi_updatedAt p, pi_id p) \<le> (g \<noteq> normalizeTxHash h, pi_updatedAt q, pi_id q)"
  shows "normalized_intent intents p = p\<lparr>pi_confirmedTxHash := Some (normalizeTxHash h)\<rparr>"
proof -
  have ids: "distinct (map pi_id intents)" using unique by (simp add: payment_rows.unique_rows_def)
  obtain c where c: "c \<in> set (holders intents)" "cn_txHash c = normalizeTxHash h" using holder_exists [OF p] by blast
  obtain q where q: "q \<in> set intents" "pi_confirmedTxHash q = Some (cn_confirmed c)" "cn_id c = pi_id q"
    "cn_updatedAt c = pi_updatedAt q" "cn_txHash c = normalizeTxHash (cn_confirmed c)" using holdersD [OF c(1)] by blast
  have "(h \<noteq> normalizeTxHash h, pi_updatedAt p, pi_id p) \<le> (cn_confirmed c \<noteq> normalizeTxHash h, pi_updatedAt q, pi_id q)"
    using first [OF q(1,2)] q(5) c(2) by simp
  moreover have "(cn_confirmed c \<noteq> normalizeTxHash h, pi_updatedAt q, pi_id q) \<le> (h \<noteq> normalizeTxHash h, pi_updatedAt p, pi_id p)"
    using holder_first [OF c(1) p] c(2) q(3,4) unfolding holder_order_def less_eq_prod_def prod.sel by simp
  ultimately have "pi_id q = pi_id p" using order_antisym by blast
  then have "holder_of (holders intents) p \<noteq> None" using c(1) q(3) by (auto simp: holder_of_def find_None_iff)
  then obtain c' where c': "holder_of (holders intents) p = Some c'" by blast
  from holder_ofD [OF c' p(1) ids] p(2) c' show ?thesis by (simp add: normalized_intent_def)
qed

lemma canonical_form_held:
  assumes unique: "payment_rows.unique_rows intents" and p: "p \<in> set intents" "pi_confirmedTxHash p = Some h"
  shows "\<exists>q\<in>set intents. pi_confirmedTxHash (normalized_intent intents q) = Some (normalizeTxHash h)"
proof -
  have ids: "distinct (map pi_id intents)" using unique by (simp add: payment_rows.unique_rows_def)
  obtain c where c: "c \<in> set (holders intents)" "cn_txHash c = normalizeTxHash h" using holder_exists [OF p] by blast
  obtain q where q: "q \<in> set intents" "pi_confirmedTxHash q = Some (cn_confirmed c)" "cn_id c = pi_id q"
    "cn_txHash c = normalizeTxHash (cn_confirmed c)" using holdersD [OF c(1)] by blast
  from c(1) q(3) obtain c' where c': "holder_of (holders intents) q = Some c'"
    by (cases "holder_of (holders intents) q") (auto simp: holder_of_def find_None_iff)
  from holder_ofD [OF c' q(1) ids] q(2,4) c(2) c'
  have "pi_confirmedTxHash (normalized_intent intents q) = Some (normalizeTxHash h)" by (simp add: normalized_intent_def)
  with q(1) show ?thesis by blast
qed

lemma canonical_form_kept:
  assumes unique: "payment_rows.unique_rows intents" and r: "r \<in> set (map (normalized_intent intents) intents)" "pi_confirmedTxHash r = Some h"
  shows "\<exists>q\<in>set (map (normalized_intent intents) intents). pi_confirmedTxHash q = Some (normalizeTxHash h)"
proof -
  from r obtain p where p: "p \<in> set intents" "r = normalized_intent intents p" by auto
  from normalized_cases [OF unique p(1)] r(2) p(2) obtain g where g: "pi_confirmedTxHash p = Some g" "normalizeTxHash g = normalizeTxHash h"
    by auto
  from canonical_form_held [OF unique p(1) g(1)] g(2) show ?thesis unfolding set_map by simp
qed

lemma canonical_form_once:
  assumes "payment_rows.unique_rows rows" and "q \<in> set rows" and "q' \<in> set rows" and "pi_confirmedTxHash q = Some h"
    and "pi_confirmedTxHash q' = Some h"
  shows "q' = q"
  using payment_rows.conflict_unique [OF assms(1,3,2)] assms(4,5) by (simp add: pi_conflicts_def)

text \<open>Where every canonical form has its holder the statement finds nothing to do.\<close>

lemma normalized_stable:
  assumes unique: "payment_rows.unique_rows rows"
    and held: "\<And>p h. p \<in> set rows \<Longrightarrow> pi_confirmedTxHash p = Some h \<Longrightarrow> \<exists>q\<in>set rows. pi_confirmedTxHash q = Some (normalizeTxHash h)"
  shows "map (normalized_intent rows) rows = rows"
proof (rule map_idI)
  fix p assume p: "p \<in> set rows"
  have ids: "distinct (map pi_id rows)" using unique by (simp add: payment_rows.unique_rows_def)
  show "normalized_intent rows p = p"
  proof (cases "holder_of (holders rows) p")
    case (Some c)
    note pc = holder_ofD [OF Some p ids]
    then obtain q where "q \<in> set rows" "pi_confirmedTxHash q = Some (cn_txHash c)" using held [OF p] by auto
    from holder_keeps [OF conjunct1 [OF pc] this] pc Some show ?thesis by (simp add: normalized_intent_def)
  qed (simp add: normalized_intent_def)
qed

section \<open>Properties\<close>

text \<open>
  C36: On every table that satisfies its unique indexes the migration succeeds, keeps the indexes, and changes nothing but the
  spelling of confirmed hashes, to the canonical one; afterwards the canonical form of every confirmed hash is held by exactly
  one intent, namely by the one that had it already, or else by the one with the earliest update (the smaller identifier
  if there are several); running it again changes nothing.
\<close>

theorem migration_normalizes:
  assumes "payment_rows.unique_rows (payment_intents d)"
  shows "\<exists>f. NormalizeConfirmedTxHashes_up d = Inr (d\<lparr>payment_intents := map f (payment_intents d)\<rparr>) \<and>
    payment_rows.unique_rows (map f (payment_intents d)) \<and>
    (\<forall>p\<in>set (payment_intents d). f p = p \<or>
       (\<exists>h. pi_confirmedTxHash p = Some h \<and> f p = p\<lparr>pi_confirmedTxHash := Some (normalizeTxHash h)\<rparr>)) \<and>
    (\<forall>p\<in>set (payment_intents d). \<forall>h. pi_confirmedTxHash p = Some h \<longrightarrow>
       (\<exists>!q. q \<in> f ` set (payment_intents d) \<and> pi_confirmedTxHash q = Some (normalizeTxHash h)) \<and>
       ((\<forall>q\<in>set (payment_intents d). \<forall>g. pi_confirmedTxHash q = Some g \<and> normalizeTxHash g = normalizeTxHash h \<longrightarrow>
           (h \<noteq> normalizeTxHash h, pi_updatedAt p, pi_id p) \<le> (g \<noteq> normalizeTxHash h, pi_updatedAt q, pi_id q)) \<longrightarrow>
         f p = p\<lparr>pi_confirmedTxHash := Some (normalizeTxHash h)\<rparr>)) \<and>
    NormalizeConfirmedTxHashes_up (d\<lparr>payment_intents := map f (payment_intents d)\<rparr>) =
      Inr (d\<lparr>payment_intents := map f (payment_intents d)\<rparr>)"
proof -
  let ?ps = "payment_intents d" and ?f = "normalized_intent (payment_intents d)"
  have unique: "payment_rows.unique_rows (map ?f ?ps)" by (rule normalized_unique [OF assms])
  note held = canonical_form_held [OF assms]
  note stable = normalized_stable [OF unique canonical_form_kept [OF assms]]
  have again: "NormalizeConfirmedTxHashes_up (d\<lparr>payment_intents := map ?f ?ps\<rparr>) = Inr (d\<lparr>payment_intents := map ?f ?ps\<rparr>)"
    using up_normalizes [of "d\<lparr>payment_intents := map ?f ?ps\<rparr>"] unique stable by (simp del: map_map list.map_comp)
  have ex1: "\<exists>!q. q \<in> ?f ` set ?ps \<and> pi_confirmedTxHash q = Some (normalizeTxHash h)"
    if p: "p \<in> set ?ps" "pi_confirmedTxHash p = Some h" for p h
  proof -
    from held [OF p] obtain q where q: "q \<in> set (map ?f ?ps)" "pi_confirmedTxHash q = Some (normalizeTxHash h)"
      unfolding set_map by blast
    show ?thesis
    proof (rule ex1I [of _ q], use q in simp, elim conjE)
      fix q' assume "q' \<in> ?f ` set ?ps" "pi_confirmedTxHash q' = Some (normalizeTxHash h)"
      then show "q' = q" by (intro canonical_form_once [OF unique q(1) _ q(2)]) (simp_all only: set_map)
    qed
  qed
  show ?thesis
  proof (intro exI [of _ ?f] conjI ballI allI impI)
    show "NormalizeConfirmedTxHashes_up d = Inr (d\<lparr>payment_intents := map ?f ?ps\<rparr>)" by (rule up_normalizes [OF assms])
    show "payment_rows.unique_rows (map ?f ?ps)" by (rule unique)
    show "NormalizeConfirmedTxHashes_up (d\<lparr>payment_intents := map ?f ?ps\<rparr>) = Inr (d\<lparr>payment_intents := map ?f ?ps\<rparr>)"
      by (rule again)
  next
    fix p assume "p \<in> set ?ps"
    then show "?f p = p \<or> (\<exists>h. pi_confirmedTxHash p = Some h \<and> ?f p = p\<lparr>pi_confirmedTxHash := Some (normalizeTxHash h)\<rparr>)"
      by (rule normalized_cases [OF assms])
  next
    fix p h assume p: "p \<in> set ?ps" "pi_confirmedTxHash p = Some h"
    then show "\<exists>!q. q \<in> ?f ` set ?ps \<and> pi_confirmedTxHash q = Some (normalizeTxHash h)" by (rule ex1)
    assume "\<forall>q\<in>set ?ps. \<forall>g. pi_confirmedTxHash q = Some g \<and> normalizeTxHash g = normalizeTxHash h \<longrightarrow>
      (h \<noteq> normalizeTxHash h, pi_updatedAt p, pi_id p) \<le> (g \<noteq> normalizeTxHash h, pi_updatedAt q, pi_id q)"
    then show "?f p = p\<lparr>pi_confirmedTxHash := Some (normalizeTxHash h)\<rparr>" by (intro first_normalized [OF assms p]) blast
  qed
qed

definition sample_spelling :: "jsstr \<Rightarrow> time \<Rightarrow> jsstr \<Rightarrow> PaymentIntentEntity" where
  "sample_spelling i t h =
     \<lparr>pi_id = i, pi_status = PI_Confirmed, pi_amount = js ''1'', pi_asset = js ''USDC'', pi_destination = js ''0xd'',
      pi_reference = None, pi_clientRequestId = None, pi_metadata = JObj [], pi_confirmedTxHash = Some h,
      pi_failureReason = None, pi_expiresAt = None, pi_createdAt = 0, pi_updatedAt = t\<rparr>"

definition sample_spellings :: db where
  "sample_spellings = empty_db\<lparr>payment_intents :=
     [sample_spelling (js ''p1'') 7 (js ''0XAB''), sample_spelling (js ''p2'') 5 (js ''0xAb'')]\<rparr>"

text \<open>One transaction confirmed two intents in two spellings: the earlier confirmation gets the canonical one.\<close>

theorem migration_normalizes_witness:
  "payment_rows.unique_rows (payment_intents sample_spellings) \<and>
   sample_spelling (js ''p2'') 5 (js ''0xab'') \<in> set (payment_intents (projr (NormalizeConfirmedTxHashes_up sample_spellings))) \<and>
   length (payment_intents (projr (NormalizeConfirmedTxHashes_up sample_spellings))) = 2"
proof -
  let ?p1 = "sample_spelling (js ''p1'') 7 (js ''0XAB'')" and ?p2 = "sample_spelling (js ''p2'') 5 (js ''0xAb'')"
  have rows: "payment_intents sample_spellings = [?p1, ?p2]" by (simp add: sample_spellings_def)
  have unique: "payment_rows.unique_rows (payment_intents sample_spellings)"
    by (simp add: rows payment_rows.unique_rows_def pi_conflicts_def sample_spelling_def js_def)
  have norm: "normalizeTxHash (js ''0XAB'') = js ''0xab''" "normalizeTxHash (js ''0xAb'') = js ''0xab''" by code_simp+
  have spelled: "js ''0XAB'' \<noteq> js ''0xab''" "js ''0xAb'' \<noteq> js ''0xab''" by (simp_all add: js_def)
  obtain f where f: "NormalizeConfirmedTxHashes_up sample_spellings =
      Inr (sample_spellings\<lparr>payment_intents := map f (payment_intents sample_spellings)\<rparr>)"
    and first: "\<forall>p\<in>set [?p1, ?p2]. \<forall>h. pi_confirmedTxHash p = Some h \<longrightarrow>
       (\<forall>q\<in>set [?p1, ?p2]. \<forall>g. pi_confirmedTxHash q = Some g \<and> normalizeTxHash g = normalizeTxHash h \<longrightarrow>
           (h \<noteq> normalizeTxHash h, pi_updatedAt p, pi_id p) \<le> (g \<noteq> normalizeTxHash h, pi_updatedAt q, pi_id q)) \<longrightarrow>
         f p = p\<lparr>pi_confirmedTxHash := Some (normalizeTxHash h)\<rparr>"
    using migration_normalizes [OF unique] unfolding rows by blast
  have "f ?p2 = ?p2\<lparr>pi_confirmedTxHash := Some (normalizeTxHash (js ''0xAb''))\<rparr>"
  proof (rule first [rule_format, of ?p2 "js ''0xAb''"])
    show "?p2 \<in> set [?p1, ?p2]" "pi_confirmedTxHash ?p2 = Some (js ''0xAb'')" by (simp_all add: sample_spelling_def)
  next
    fix q g assume "q \<in> set [?p1, ?p2]" "pi_confirmedTxHash q = Some g \<and> normalizeTxHash g = normalizeTxHash (js ''0xAb'')"
    then show "(js ''0xAb'' \<noteq> normalizeTxHash (js ''0xAb''), pi_updatedAt ?p2, pi_id ?p2) \<le>
        (g \<noteq> normalizeTxHash (js ''0xAb''), pi_updatedAt q, pi_id q)"
      by (auto simp: norm spelled sample_spelling_def)
  qed
  then have "f ?p2 = sample_spelling (js ''p2'') 5 (js ''0xab'')" by (simp add: norm sample_spelling_def)
  with f unique show ?thesis by (simp add: rows)
qed

end
