(* ===== verification/Schema.thy ===== *)
theory Schema
  imports Database
begin

text \<open>
  The database schema: the statements of the migrations
  \<open>migrations/1781850000000-CreateDatabaseFoundation.ts\<close> and \<open>migrations/1783000000000-AddOutboxDeadAt.ts\<close>, with
  their \<open>down\<close> direction, and the declarations of the entities under \<open>src/database/entities\<close>.

  A catalog lists the objects of a PostgreSQL schema; \<open>exec\<close> gives what a statement does to it, or the SQLSTATE it fails
  with.  TypeORM runs the queries of a migration in one transaction, so a failed one changes nothing.  Entities are data: the
  arguments of their decorators; \<open>entity_columns\<close>, \<open>entity_indexes\<close> and \<open>entity_foreign_keys\<close> give the objects
  that they describe.
\<close>

section \<open>Catalogs\<close>

datatype sql_type =
    Sql_uuid | Sql_varchar nat | Sql_text | Sql_jsonb | Sql_integer | Sql_timestamptz | Sql_numeric nat nat | Sql_enum string

datatype sql_default = Default_uuid | Default_now | Default_empty_object | Default_zero

record column =
  co_name :: string
  co_type :: sql_type
  co_nullable :: bool
  co_default :: "sql_default option"

text \<open>\<open>c > 0\<close>, \<open>c >= 0\<close>, \<open>c IN (...)\<close> and \<open>c IS NULL OR c >= c'\<close>\<close>

datatype sql_check =
    Check_positive string | Check_not_negative string | Check_in string "string list" | Check_null_or_not_before string string

record table_def =
  td_name :: string
  td_columns :: "column list"
  td_primaryKey :: string
  td_checks :: "(string \<times> sql_check) list"

text \<open>\<open>ix_where\<close> is the column of the condition \<open>IS NOT NULL\<close> of a partial index.\<close>

record index_def =
  ix_name :: string
  ix_table :: string
  ix_columns :: "string list"
  ix_unique :: bool
  ix_where :: "string option"

datatype fk_action = No_Action | Restrict

record foreign_key =
  fk_name :: string
  fk_table :: string
  fk_column :: string
  fk_references :: string
  fk_referenced :: string
  fk_onUpdate :: fk_action
  fk_onDelete :: fk_action

record catalog =
  ct_extensions :: "string list"
  ct_types :: "(string \<times> string list) list"
  ct_tables :: "table_def list"
  ct_indexes :: "index_def list"
  ct_foreignKeys :: "foreign_key list"

definition empty_catalog :: catalog where
  "empty_catalog = \<lparr>ct_extensions = [], ct_types = [], ct_tables = [], ct_indexes = [], ct_foreignKeys = []\<rparr>"

section \<open>Statements\<close>

datatype statement =
    Create_Extension_If_Not_Exists string
  | Create_Type string "string list"
  | Create_Table table_def
  | Create_Index index_def
  | Add_Foreign_Key foreign_key
  | Add_Column string column
  | Drop_Constraint_If_Exists string string
  | Drop_Index_If_Exists string
  | Drop_Table_If_Exists string
  | Drop_Type_If_Exists string
  | Drop_Column_If_Exists string string

text \<open>
  Tables and indexes, the index of the primary key among them, share one name space; a table also takes the name of a type.
\<close>

definition pkey_name :: "string \<Rightarrow> string" where
  "pkey_name t = t @ ''_pkey''"

definition relation_names :: "catalog \<Rightarrow> string list" where
  "relation_names c = map td_name (ct_tables c) @ map (pkey_name \<circ> td_name) (ct_tables c) @ map ix_name (ct_indexes c)"

definition type_names :: "catalog \<Rightarrow> string list" where
  "type_names c = map fst (ct_types c) @ map td_name (ct_tables c)"

definition find_table :: "string \<Rightarrow> catalog \<Rightarrow> table_def option" where
  "find_table t c = find (\<lambda>d. td_name d = t) (ct_tables c)"

definition column_enum :: "column \<Rightarrow> string list" where
  "column_enum c = (case co_type c of Sql_enum n \<Rightarrow> [n] | _ \<Rightarrow> [])"

definition column_names :: "table_def \<Rightarrow> string list" where
  "column_names d = map co_name (td_columns d)"

definition uses_type :: "string \<Rightarrow> table_def \<Rightarrow> bool" where
  "uses_type n d \<longleftrightarrow> list_ex (\<lambda>c. n \<in> set (column_enum c)) (td_columns d)"

definition update_table :: "string \<Rightarrow> (table_def \<Rightarrow> table_def) \<Rightarrow> catalog \<Rightarrow> catalog" where
  "update_table t f c = c\<lparr>ct_tables := map (\<lambda>d. if td_name d = t then f d else d) (ct_tables c)\<rparr>"

fun exec :: "statement \<Rightarrow> catalog \<Rightarrow> string + catalog" where
  "exec (Create_Extension_If_Not_Exists n) c =
     Inr (if n \<in> set (ct_extensions c) then c else c\<lparr>ct_extensions := ct_extensions c @ [n]\<rparr>)"
| "exec (Create_Type n labels) c =
     (if n \<in> set (type_names c) then Inl ''42710''
      else if \<not> distinct labels then Inl ''23505''
      else Inr (c\<lparr>ct_types := ct_types c @ [(n, labels)]\<rparr>))"
| "exec (Create_Table d) c =
     (if td_name d \<in> set (relation_names c) \<or> pkey_name (td_name d) \<in> set (relation_names c) then Inl ''42P07''
      else if td_name d \<in> set (type_names c) then Inl ''42710''
      else if \<not> distinct (column_names d) then Inl ''42701''
      else if td_primaryKey d \<notin> set (column_names d) then Inl ''42703''
      else if \<not> list_all (\<lambda>col. set (column_enum col) \<subseteq> set (map fst (ct_types c))) (td_columns d) then Inl ''42704''
      else if \<not> distinct (map fst (td_checks d)) then Inl ''42710''
      else Inr (c\<lparr>ct_tables := ct_tables c @ [d]\<rparr>))"
| "exec (Create_Index i) c =
     (case find_table (ix_table i) c of
        None \<Rightarrow> Inl ''42P01''
      | Some d \<Rightarrow>
          if ix_name i \<in> set (relation_names c) then Inl ''42P07''
          else if \<not> set (ix_columns i) \<subseteq> set (column_names d) \<or>
             \<not> (case ix_where i of None \<Rightarrow> True | Some col \<Rightarrow> col \<in> set (column_names d)) then Inl ''42703''
          else Inr (c\<lparr>ct_indexes := ct_indexes c @ [i]\<rparr>))"
| "exec (Add_Foreign_Key k) c =
     (case (find_table (fk_table k) c, find_table (fk_references k) c) of
        (Some d, Some r) \<Rightarrow>
          if fk_column k \<notin> set (column_names d) then Inl ''42703''
          else if td_primaryKey r \<noteq> fk_referenced k then Inl ''42830''
          else if fk_name k \<in> set (map fst (td_checks d)) \<or>
             list_ex (\<lambda>j. fk_table j = fk_table k \<and> fk_name j = fk_name k) (ct_foreignKeys c) then Inl ''42710''
          else Inr (c\<lparr>ct_foreignKeys := ct_foreignKeys c @ [k]\<rparr>)
      | _ \<Rightarrow> Inl ''42P01'')"
| "exec (Add_Column t col) c =
     (case find_table t c of
        None \<Rightarrow> Inl ''42P01''
      | Some d \<Rightarrow>
          if co_name col \<in> set (column_names d) then Inl ''42701''
          else if \<not> set (column_enum col) \<subseteq> set (map fst (ct_types c)) then Inl ''42704''
          else Inr (update_table t (\<lambda>d. d\<lparr>td_columns := td_columns d @ [col]\<rparr>) c))"
| "exec (Drop_Constraint_If_Exists t n) c =
     (if find_table t c = None then Inl ''42P01''
      else Inr (update_table t (\<lambda>d. d\<lparr>td_checks := filter (\<lambda>k. fst k \<noteq> n) (td_checks d)\<rparr>)
        (c\<lparr>ct_foreignKeys := filter (\<lambda>k. \<not> (fk_table k = t \<and> fk_name k = n)) (ct_foreignKeys c)\<rparr>)))"
| "exec (Drop_Index_If_Exists n) c = Inr (c\<lparr>ct_indexes := filter (\<lambda>i. ix_name i \<noteq> n) (ct_indexes c)\<rparr>)"
| "exec (Drop_Table_If_Exists t) c =
     (if list_ex (\<lambda>k. fk_references k = t \<and> fk_table k \<noteq> t) (ct_foreignKeys c) then Inl ''2BP01''
      else Inr (c\<lparr>ct_tables := filter (\<lambda>d. td_name d \<noteq> t) (ct_tables c),
                  ct_indexes := filter (\<lambda>i. ix_table i \<noteq> t) (ct_indexes c),
                  ct_foreignKeys := filter (\<lambda>k. fk_table k \<noteq> t) (ct_foreignKeys c)\<rparr>))"
| "exec (Drop_Type_If_Exists n) c =
     (if list_ex (uses_type n) (ct_tables c) then Inl ''2BP01''
      else Inr (c\<lparr>ct_types := filter (\<lambda>t. fst t \<noteq> n) (ct_types c)\<rparr>))"
| "exec (Drop_Column_If_Exists t n) c =
     (if find_table t c = None then Inl ''42P01''
      else Inr (update_table t (\<lambda>d. d\<lparr>td_columns := filter (\<lambda>col. co_name col \<noteq> n) (td_columns d)\<rparr>)
        (c\<lparr>ct_indexes := filter (\<lambda>i. \<not> (ix_table i = t \<and> (n \<in> set (ix_columns i) \<or> ix_where i = Some n))) (ct_indexes c)\<rparr>)))"

fun run :: "statement list \<Rightarrow> catalog \<Rightarrow> string + catalog" where
  "run [] c = Inr c"
| "run (s # ss) c = (case exec s c of Inl err \<Rightarrow> Inl err | Inr c' \<Rightarrow> run ss c')"

text \<open>The transaction of a migration.\<close>

definition migrate :: "statement list \<Rightarrow> catalog \<Rightarrow> string option \<times> catalog" where
  "migrate ss c = (case run ss c of Inl err \<Rightarrow> (Some err, c) | Inr c' \<Rightarrow> (None, c'))"

section \<open>The migrations\<close>

definition col :: "string \<Rightarrow> sql_type \<Rightarrow> column" where
  "col n t = \<lparr>co_name = n, co_type = t, co_nullable = False, co_default = None\<rparr>"

definition col_null :: "string \<Rightarrow> sql_type \<Rightarrow> column" where
  "col_null n t = \<lparr>co_name = n, co_type = t, co_nullable = True, co_default = None\<rparr>"

definition col_default :: "string \<Rightarrow> sql_type \<Rightarrow> sql_default \<Rightarrow> column" where
  "col_default n t v = \<lparr>co_name = n, co_type = t, co_nullable = False, co_default = Some v\<rparr>"

definition payment_intents_table :: table_def where
  "payment_intents_table =
     \<lparr>td_name = ''payment_intents'',
      td_columns =
        [col_default ''id'' Sql_uuid Default_uuid,
         col ''status'' (Sql_enum ''payment_intent_status''),
         col ''amount'' (Sql_numeric 36 18),
         col ''asset'' (Sql_varchar 32),
         col ''destination'' (Sql_varchar 255),
         col_null ''reference'' (Sql_varchar 255),
         col_null ''client_request_id'' (Sql_varchar 255),
         col_default ''metadata'' Sql_jsonb Default_empty_object,
         col_null ''confirmed_tx_hash'' (Sql_varchar 255),
         col_null ''failure_reason'' Sql_text,
         col_null ''expires_at'' Sql_timestamptz,
         col_default ''created_at'' Sql_timestamptz Default_now,
         col_default ''updated_at'' Sql_timestamptz Default_now],
      td_primaryKey = ''id'',
      td_checks = [(''payment_intents_amount_positive_chk'', Check_positive ''amount'')]\<rparr>"

definition idempotency_records_table :: table_def where
  "idempotency_records_table =
     \<lparr>td_name = ''idempotency_records'',
      td_columns =
        [col_default ''id'' Sql_uuid Default_uuid,
         col ''scope'' (Sql_varchar 128),
         col ''idempotency_key'' (Sql_varchar 255),
         col ''request_hash'' (Sql_varchar 128),
         col_null ''response_status'' Sql_integer,
         col_null ''response_body'' Sql_jsonb,
         col_null ''resource_type'' (Sql_varchar 128),
         col_null ''resource_id'' Sql_uuid,
         col_default ''created_at'' Sql_timestamptz Default_now,
         col_null ''expires_at'' Sql_timestamptz],
      td_primaryKey = ''id'', td_checks = []\<rparr>"

definition webhook_events_table :: table_def where
  "webhook_events_table =
     \<lparr>td_name = ''webhook_events'',
      td_columns =
        [col_default ''id'' Sql_uuid Default_uuid,
         col ''provider'' (Sql_varchar 128),
         col ''external_event_id'' (Sql_varchar 255),
         col_null ''nonce'' (Sql_varchar 255),
         col ''event_type'' (Sql_varchar 128),
         col_null ''payment_intent_id'' Sql_uuid,
         col_null ''tx_hash'' (Sql_varchar 255),
         col ''payload'' Sql_jsonb,
         col ''payload_hash'' (Sql_varchar 128),
         col ''status'' (Sql_enum ''webhook_event_status''),
         col_null ''failure_reason'' Sql_text,
         col ''received_at'' Sql_timestamptz,
         col_null ''processed_at'' Sql_timestamptz,
         col_default ''created_at'' Sql_timestamptz Default_now,
         col_default ''updated_at'' Sql_timestamptz Default_now],
      td_primaryKey = ''id'', td_checks = []\<rparr>"

definition outbox_events_table :: table_def where
  "outbox_events_table =
     \<lparr>td_name = ''outbox_events'',
      td_columns =
        [col_default ''id'' Sql_uuid Default_uuid,
         col ''type'' (Sql_varchar 128),
         col ''aggregate_type'' (Sql_varchar 128),
         col ''aggregate_id'' Sql_uuid,
         col ''payload'' Sql_jsonb,
         col ''status'' (Sql_enum ''outbox_event_status''),
         col_default ''attempts'' Sql_integer Default_zero,
         col_null ''next_attempt_at'' Sql_timestamptz,
         col_null ''last_error'' Sql_text,
         col_default ''created_at'' Sql_timestamptz Default_now,
         col_null ''published_at'' Sql_timestamptz,
         col_default ''updated_at'' Sql_timestamptz Default_now],
      td_primaryKey = ''id'',
      td_checks = [(''outbox_events_attempts_non_negative_chk'', Check_not_negative ''attempts'')]\<rparr>"

definition webhook_processing_attempts_table :: table_def where
  "webhook_processing_attempts_table =
     \<lparr>td_name = ''webhook_processing_attempts'',
      td_columns =
        [col_default ''id'' Sql_uuid Default_uuid,
         col ''webhook_event_id'' Sql_uuid,
         col_null ''job_id'' (Sql_varchar 255),
         col ''status'' (Sql_varchar 64),
         col_null ''error_message'' Sql_text,
         col ''started_at'' Sql_timestamptz,
         col_null ''finished_at'' Sql_timestamptz,
         col_default ''created_at'' Sql_timestamptz Default_now],
      td_primaryKey = ''id'',
      td_checks =
        [(''webhook_processing_attempts_status_chk'', Check_in ''status'' [''STARTED'', ''SUCCEEDED'', ''FAILED'']),
         (''webhook_processing_attempts_finished_after_started_chk'', Check_null_or_not_before ''finished_at'' ''started_at'')]\<rparr>"

definition plain_index :: "string \<Rightarrow> string \<Rightarrow> string list \<Rightarrow> index_def" where
  "plain_index n t cols = \<lparr>ix_name = n, ix_table = t, ix_columns = cols, ix_unique = False, ix_where = None\<rparr>"

definition unique_key :: "string \<Rightarrow> string \<Rightarrow> string list \<Rightarrow> string option \<Rightarrow> index_def" where
  "unique_key n t cols cond = \<lparr>ix_name = n, ix_table = t, ix_columns = cols, ix_unique = True, ix_where = cond\<rparr>"

definition foundation_indexes :: "index_def list" where
  "foundation_indexes =
     [plain_index ''payment_intents_status_idx'' ''payment_intents'' [''status''],
      plain_index ''payment_intents_created_at_idx'' ''payment_intents'' [''created_at''],
      plain_index ''payment_intents_client_request_id_idx'' ''payment_intents'' [''client_request_id''],
      plain_index ''payment_intents_reference_idx'' ''payment_intents'' [''reference''],
      unique_key ''payment_intents_confirmed_tx_hash_uniq'' ''payment_intents'' [''confirmed_tx_hash''] (Some ''confirmed_tx_hash''),
      unique_key ''idempotency_records_scope_key_uniq'' ''idempotency_records'' [''scope'', ''idempotency_key''] None,
      plain_index ''idempotency_records_expires_at_idx'' ''idempotency_records'' [''expires_at''],
      plain_index ''idempotency_records_resource_idx'' ''idempotency_records'' [''resource_type'', ''resource_id''],
      unique_key ''webhook_events_provider_external_event_id_uniq'' ''webhook_events'' [''provider'', ''external_event_id''] None,
      unique_key ''webhook_events_provider_nonce_uniq'' ''webhook_events'' [''provider'', ''nonce''] (Some ''nonce''),
      plain_index ''webhook_events_payment_intent_id_idx'' ''webhook_events'' [''payment_intent_id''],
      plain_index ''webhook_events_status_received_at_idx'' ''webhook_events'' [''status'', ''received_at''],
      plain_index ''webhook_events_tx_hash_idx'' ''webhook_events'' [''tx_hash''],
      plain_index ''webhook_events_payload_hash_idx'' ''webhook_events'' [''payload_hash''],
      plain_index ''outbox_events_status_next_attempt_idx'' ''outbox_events'' [''status'', ''next_attempt_at''],
      plain_index ''outbox_events_aggregate_idx'' ''outbox_events'' [''aggregate_type'', ''aggregate_id''],
      plain_index ''webhook_processing_attempts_event_idx'' ''webhook_processing_attempts'' [''webhook_event_id''],
      plain_index ''webhook_processing_attempts_status_idx'' ''webhook_processing_attempts'' [''status'']]"

definition attempts_event_fk :: foreign_key where
  "attempts_event_fk =
     \<lparr>fk_name = ''webhook_processing_attempts_event_fk'', fk_table = ''webhook_processing_attempts'', fk_column = ''webhook_event_id'',
      fk_references = ''webhook_events'', fk_referenced = ''id'', fk_onUpdate = No_Action, fk_onDelete = Restrict\<rparr>"

definition CreateDatabaseFoundation_up :: "statement list" where
  "CreateDatabaseFoundation_up =
     [Create_Extension_If_Not_Exists ''pgcrypto'',
      Create_Type ''payment_intent_status'' [''CREATED'', ''PROCESSING'', ''CONFIRMED'', ''FAILED'', ''EXPIRED''],
      Create_Type ''webhook_event_status'' [''RECEIVED'', ''QUEUED'', ''PROCESSING'', ''PROCESSED'', ''FAILED'', ''REJECTED''],
      Create_Type ''outbox_event_status'' [''PENDING'', ''PUBLISHED'', ''FAILED''],
      Create_Table payment_intents_table,
      Create_Table idempotency_records_table,
      Create_Table webhook_events_table,
      Create_Table outbox_events_table,
      Create_Table webhook_processing_attempts_table]
     @ map Create_Index foundation_indexes
     @ [Add_Foreign_Key attempts_event_fk]"

definition CreateDatabaseFoundation_down :: "statement list" where
  "CreateDatabaseFoundation_down =
     [Drop_Constraint_If_Exists ''webhook_processing_attempts'' ''webhook_processing_attempts_event_fk'']
     @ map Drop_Index_If_Exists
         [''webhook_processing_attempts_status_idx'', ''webhook_processing_attempts_event_idx'', ''outbox_events_aggregate_idx'',
          ''outbox_events_status_next_attempt_idx'', ''webhook_events_payload_hash_idx'', ''webhook_events_tx_hash_idx'',
          ''webhook_events_status_received_at_idx'', ''webhook_events_payment_intent_id_idx'', ''webhook_events_provider_nonce_uniq'',
          ''webhook_events_provider_external_event_id_uniq'', ''idempotency_records_resource_idx'',
          ''idempotency_records_expires_at_idx'', ''idempotency_records_scope_key_uniq'', ''payment_intents_confirmed_tx_hash_uniq'',
          ''payment_intents_reference_idx'', ''payment_intents_client_request_id_idx'', ''payment_intents_created_at_idx'',
          ''payment_intents_status_idx'']
     @ map Drop_Table_If_Exists
         [''webhook_processing_attempts'', ''outbox_events'', ''webhook_events'', ''idempotency_records'', ''payment_intents'']
     @ map Drop_Type_If_Exists [''outbox_event_status'', ''webhook_event_status'', ''payment_intent_status'']"

definition AddOutboxDeadAt_up :: "statement list" where
  "AddOutboxDeadAt_up =
     [Add_Column ''outbox_events'' (col_null ''dead_at'' Sql_timestamptz),
      Create_Index \<lparr>ix_name = ''outbox_events_dead_at_idx'', ix_table = ''outbox_events'', ix_columns = [''dead_at''],
        ix_unique = False, ix_where = Some ''dead_at''\<rparr>]"

definition AddOutboxDeadAt_down :: "statement list" where
  "AddOutboxDeadAt_down =
     [Drop_Index_If_Exists ''outbox_events_dead_at_idx'', Drop_Column_If_Exists ''outbox_events'' ''dead_at'']"

definition migrated_catalog :: catalog where
  "migrated_catalog = snd (migrate AddOutboxDeadAt_up (snd (migrate CreateDatabaseFoundation_up empty_catalog)))"

section \<open>Undoing a statement\<close>

text \<open>References between the objects of a catalog, as PostgreSQL keeps them.\<close>

definition table_ok :: "catalog \<Rightarrow> table_def \<Rightarrow> bool" where
  "table_ok c d \<longleftrightarrow> (\<forall>col\<in>set (td_columns d). set (column_enum col) \<subseteq> set (map fst (ct_types c)))"

definition index_ok :: "catalog \<Rightarrow> index_def \<Rightarrow> bool" where
  "index_ok c i \<longleftrightarrow> (\<exists>d\<in>set (ct_tables c). td_name d = ix_table i \<and>
     set (ix_columns i) \<subseteq> set (column_names d) \<and> (\<forall>n. ix_where i = Some n \<longrightarrow> n \<in> set (column_names d)))"

definition catalog_ok :: "catalog \<Rightarrow> bool" where
  "catalog_ok c \<longleftrightarrow>
     distinct (map td_name (ct_tables c)) \<and> (\<forall>d\<in>set (ct_tables c). table_ok c d) \<and> (\<forall>i\<in>set (ct_indexes c). index_ok c i) \<and>
     (\<forall>k\<in>set (ct_foreignKeys c). fk_table k \<in> set (map td_name (ct_tables c)) \<and> fk_references k \<in> set (map td_name (ct_tables c)))"

fun undo_of :: "statement \<Rightarrow> statement option" where
  "undo_of (Create_Type n labels) = Some (Drop_Type_If_Exists n)"
| "undo_of (Create_Table d) = Some (Drop_Table_If_Exists (td_name d))"
| "undo_of (Create_Index i) = Some (Drop_Index_If_Exists (ix_name i))"
| "undo_of (Add_Foreign_Key k) = Some (Drop_Constraint_If_Exists (fk_table k) (fk_name k))"
| "undo_of (Add_Column t c) = Some (Drop_Column_If_Exists t (co_name c))"
| "undo_of _ = None"

lemma filter_fresh: "(\<And>x. x \<in> set xs \<Longrightarrow> P x) \<Longrightarrow> \<not> P y \<Longrightarrow> filter P (xs @ [y]) = xs"
  by simp

lemma find_table_Some:
  "find_table t c = Some d \<Longrightarrow> d \<in> set (ct_tables c) \<and> td_name d = t"
  by (auto simp: find_table_def find_Some_iff)

lemma find_table_None: "find_table t c = None \<longleftrightarrow> t \<notin> set (map td_name (ct_tables c))"
  by (auto simp: find_table_def find_None_iff)

lemma update_table_id:
  assumes "\<And>d. d \<in> set (ct_tables c) \<Longrightarrow> td_name d = t \<Longrightarrow> f d = d"
  shows "update_table t f c = c"
proof -
  have "map (\<lambda>d. if td_name d = t then f d else d) (ct_tables c) = ct_tables c"
    by (rule map_idI) (simp add: assms)
  then show ?thesis by (simp add: update_table_def)
qed

lemma same_table: "catalog_ok c \<Longrightarrow> d \<in> set (ct_tables c) \<Longrightarrow> d' \<in> set (ct_tables c) \<Longrightarrow> td_name d = td_name d' \<Longrightarrow> d = d'"
  unfolding catalog_ok_def by (auto simp: distinct_map dest: inj_onD)

lemma undo_type:
  assumes ok: "catalog_ok c" and step: "exec (Create_Type n labels) c = Inr c'"
  shows "exec (Drop_Type_If_Exists n) c' = Inr c"
proof -
  from step have n: "n \<notin> set (map fst (ct_types c))" and c': "c' = c\<lparr>ct_types := ct_types c @ [(n, labels)]\<rparr>"
    by (auto simp: type_names_def split: if_splits)
  have "\<not> uses_type n d" if "d \<in> set (ct_tables c)" for d
    using ok n that unfolding catalog_ok_def table_ok_def uses_type_def list_ex_iff by blast
  then have "\<not> list_ex (uses_type n) (ct_tables c)" unfolding list_ex_iff by blast
  moreover have "filter (\<lambda>t. fst t \<noteq> n) (ct_types c @ [(n, labels)]) = ct_types c"
    using n by (intro filter_fresh) (auto simp: image_iff)
  ultimately show ?thesis by (simp add: c')
qed

lemma undo_table:
  assumes ok: "catalog_ok c" and step: "exec (Create_Table d) c = Inr c'"
  shows "exec (Drop_Table_If_Exists (td_name d)) c' = Inr c"
proof -
  from step have n: "td_name d \<notin> set (map td_name (ct_tables c))" and c': "c' = c\<lparr>ct_tables := ct_tables c @ [d]\<rparr>"
    by (auto simp: relation_names_def split: if_splits)
  have keys: "fk_references k \<noteq> td_name d \<and> fk_table k \<noteq> td_name d" if "k \<in> set (ct_foreignKeys c)" for k
    using ok n that unfolding catalog_ok_def by metis
  have idx: "ix_table i \<noteq> td_name d" if "i \<in> set (ct_indexes c)" for i
    using ok n that unfolding catalog_ok_def index_ok_def by (metis imageI set_map)
  have "filter (\<lambda>x. td_name x \<noteq> td_name d) (ct_tables c @ [d]) = ct_tables c"
    using n by (intro filter_fresh) (auto simp: image_iff)
  moreover have "filter (\<lambda>i. ix_table i \<noteq> td_name d) (ct_indexes c) = ct_indexes c" using idx by simp
  moreover have "filter (\<lambda>k. fk_table k \<noteq> td_name d) (ct_foreignKeys c) = ct_foreignKeys c" using keys by simp
  moreover have "\<not> list_ex (\<lambda>k. fk_references k = td_name d \<and> fk_table k \<noteq> td_name d) (ct_foreignKeys c)"
    using keys unfolding list_ex_iff by blast
  ultimately show ?thesis by (simp add: c')
qed

lemma undo_index:
  assumes "exec (Create_Index i) c = Inr c'"
  shows "exec (Drop_Index_If_Exists (ix_name i)) c' = Inr c"
proof -
  from assms have n: "ix_name i \<notin> set (map ix_name (ct_indexes c))" and c': "c' = c\<lparr>ct_indexes := ct_indexes c @ [i]\<rparr>"
    by (auto simp: relation_names_def split: if_splits option.splits)
  have "filter (\<lambda>j. ix_name j \<noteq> ix_name i) (ct_indexes c @ [i]) = ct_indexes c"
    using n by (intro filter_fresh) (auto simp: image_iff)
  then show ?thesis by (simp add: c')
qed

lemma undo_foreign_key:
  assumes ok: "catalog_ok c" and step: "exec (Add_Foreign_Key k) c = Inr c'"
  shows "exec (Drop_Constraint_If_Exists (fk_table k) (fk_name k)) c' = Inr c"
proof -
  from step obtain d where d: "find_table (fk_table k) c = Some d" "fk_name k \<notin> set (map fst (td_checks d))"
    and new: "\<not> list_ex (\<lambda>j. fk_table j = fk_table k \<and> fk_name j = fk_name k) (ct_foreignKeys c)"
    and c': "c' = c\<lparr>ct_foreignKeys := ct_foreignKeys c @ [k]\<rparr>"
    by (auto split: option.splits if_splits)
  have "x = d" if "x \<in> set (ct_tables c)" "td_name x = fk_table k" for x
    using same_table [OF ok that(1)] find_table_Some [OF d(1)] that(2) by simp
  with d(2) have checks: "x\<lparr>td_checks := filter (\<lambda>j. fst j \<noteq> fk_name k) (td_checks x)\<rparr> = x"
    if "x \<in> set (ct_tables c)" "td_name x = fk_table k" for x
  proof -
    have "filter (\<lambda>j. fst j \<noteq> fk_name k) (td_checks d) = td_checks d" using d(2) by (auto simp: filter_id_conv image_iff)
    with \<open>\<And>x. x \<in> set (ct_tables c) \<Longrightarrow> td_name x = fk_table k \<Longrightarrow> x = d\<close> [OF that] show ?thesis by simp
  qed
  have "filter (\<lambda>j. \<not> (fk_table j = fk_table k \<and> fk_name j = fk_name k)) (ct_foreignKeys c @ [k]) = ct_foreignKeys c"
    using new by (intro filter_fresh) (auto simp: list_ex_iff)
  moreover have "find_table (fk_table k) c' \<noteq> None" using d(1) by (simp add: c' find_table_def)
  ultimately have "exec (Drop_Constraint_If_Exists (fk_table k) (fk_name k)) c' =
      Inr (update_table (fk_table k) (\<lambda>d. d\<lparr>td_checks := filter (\<lambda>j. fst j \<noteq> fk_name k) (td_checks d)\<rparr>) c)"
    by (simp add: c')
  then show ?thesis using update_table_id [OF checks] by simp
qed

lemma undo_column:
  assumes ok: "catalog_ok c" and step: "exec (Add_Column t cl) c = Inr c'"
  shows "exec (Drop_Column_If_Exists t (co_name cl)) c' = Inr c"
proof -
  let ?add = "\<lambda>d. d\<lparr>td_columns := td_columns d @ [cl]\<rparr>" and ?drop = "\<lambda>d. d\<lparr>td_columns := filter (\<lambda>x. co_name x \<noteq> co_name cl) (td_columns d)\<rparr>"
  from step obtain d where d: "find_table t c = Some d" "co_name cl \<notin> set (column_names d)" and c': "c' = update_table t ?add c"
    by (auto split: option.splits if_splits)
  have the_table: "x = d" if "x \<in> set (ct_tables c)" "td_name x = t" for x
    using same_table [OF ok that(1)] find_table_Some [OF d(1)] that(2) by simp
  have "filter (\<lambda>x. co_name x \<noteq> co_name cl) (td_columns d @ [cl]) = td_columns d"
    using d(2) by (intro filter_fresh) (auto simp: column_names_def image_iff)
  then have restored: "?drop (?add x) = x" if "x \<in> set (ct_tables c)" "td_name x = t" for x using the_table [OF that] by simp
  have "\<not> (ix_table i = t \<and> (co_name cl \<in> set (ix_columns i) \<or> ix_where i = Some (co_name cl)))" if "i \<in> set (ct_indexes c)" for i
  proof -
    from ok that obtain x where "x \<in> set (ct_tables c)" "td_name x = ix_table i" "set (ix_columns i) \<subseteq> set (column_names x)"
      "\<forall>n. ix_where i = Some n \<longrightarrow> n \<in> set (column_names x)" unfolding catalog_ok_def index_ok_def by blast
    with the_table [of x] d(2) show ?thesis by auto
  qed
  then have idx: "filter (\<lambda>i. \<not> (ix_table i = t \<and> (co_name cl \<in> set (ix_columns i) \<or> ix_where i = Some (co_name cl)))) (ct_indexes c) =
      ct_indexes c" by (simp add: filter_id_conv)
  have "find_table t c' \<noteq> None" using find_table_Some [OF d(1)] by (auto simp: c' find_table_None update_table_def image_iff)
  then have "exec (Drop_Column_If_Exists t (co_name cl)) c' = Inr (update_table t ?drop c')"
    using idx by (simp add: c' update_table_def)
  also have "update_table t ?drop c' = update_table t (\<lambda>x. ?drop (?add x)) c"
    by (simp add: c' update_table_def comp_def if_distrib cong: if_cong)
  also have "\<dots> = c" by (rule update_table_id) (rule restored)
  finally show ?thesis .
qed

lemma undo_step:
  assumes "catalog_ok c" and "exec s c = Inr c'" and "undo_of s = Some d"
  shows "exec d c' = Inr c"
  using assms undo_type [OF assms(1)] undo_table [OF assms(1)] undo_index undo_foreign_key [OF assms(1)] undo_column [OF assms(1)]
  by (cases s) (simp_all del: exec.simps, fastforce+)

text \<open>Statements that create objects keep the references between them.\<close>

lemma creation_ok:
  assumes ok: "catalog_ok c" and step: "exec s c = Inr c'" and "undo_of s \<noteq> None"
  shows "catalog_ok c'"
proof (cases s)
  case (Create_Type n labels)
  with step have "c' = c\<lparr>ct_types := ct_types c @ [(n, labels)]\<rparr>" by (auto split: if_splits)
  with ok show ?thesis unfolding catalog_ok_def table_ok_def index_ok_def by fastforce
next
  case (Create_Table d)
  with step have c': "c' = c\<lparr>ct_tables := ct_tables c @ [d]\<rparr>" and d: "table_ok c d" "td_name d \<notin> td_name ` set (ct_tables c)"
    by (auto simp: relation_names_def table_ok_def list_all_iff split: if_splits)
  have "index_ok c' i" if "index_ok c i" for i using that by (auto simp: index_ok_def c')
  with ok d show ?thesis unfolding catalog_ok_def by (auto simp: c' table_ok_def)
next
  case (Create_Index i)
  with step obtain d where c': "c' = c\<lparr>ct_indexes := ct_indexes c @ [i]\<rparr>" and d: "find_table (ix_table i) c = Some d"
    "set (ix_columns i) \<subseteq> set (column_names d)" "\<forall>n. ix_where i = Some n \<longrightarrow> n \<in> set (column_names d)"
    by (auto split: if_splits option.splits)
  then have "index_ok c i" using find_table_Some [OF d(1)] by (auto simp: index_ok_def)
  with ok show ?thesis unfolding catalog_ok_def by (auto simp: c' table_ok_def index_ok_def)
next
  case (Add_Foreign_Key k)
  with step obtain d r where c': "c' = c\<lparr>ct_foreignKeys := ct_foreignKeys c @ [k]\<rparr>"
    and "find_table (fk_table k) c = Some d" "find_table (fk_references k) c = Some r" by (auto split: if_splits option.splits)
  then have "fk_table k \<in> td_name ` set (ct_tables c)" "fk_references k \<in> td_name ` set (ct_tables c)"
    using find_table_Some by (metis imageI)+
  with ok show ?thesis unfolding catalog_ok_def by (auto simp: c' table_ok_def index_ok_def)
next
  case (Add_Column t cl)
  let ?f = "\<lambda>d. if td_name d = t then d\<lparr>td_columns := td_columns d @ [cl]\<rparr> else d"
  from Add_Column step have c': "c' = c\<lparr>ct_tables := map ?f (ct_tables c)\<rparr>" and enum: "set (column_enum cl) \<subseteq> set (map fst (ct_types c))"
    by (auto simp: update_table_def split: if_splits option.splits)
  have names: "map td_name (ct_tables c') = map td_name (ct_tables c)" by (simp add: c')
  have "table_ok c' d" if "d \<in> set (ct_tables c')" for d
    using that ok enum unfolding catalog_ok_def table_ok_def by (auto simp: c' split: if_splits) blast+
  moreover have "index_ok c' i" if "i \<in> set (ct_indexes c)" for i
  proof -
    from ok that obtain d where d: "d \<in> set (ct_tables c)" "td_name d = ix_table i" "set (ix_columns i) \<subseteq> set (column_names d)"
      "\<forall>n. ix_where i = Some n \<longrightarrow> n \<in> set (column_names d)" unfolding catalog_ok_def index_ok_def by blast
    then show ?thesis unfolding index_ok_def by (intro bexI [of _ "?f d"]) (auto simp: c' column_names_def)
  qed
  moreover have "ct_indexes c' = ct_indexes c" "ct_foreignKeys c' = ct_foreignKeys c" by (simp_all add: c')
  ultimately show ?thesis using ok unfolding catalog_ok_def names by metis
qed (use assms in simp_all)

lemma undo_all:
  assumes "catalog_ok c" and "run ss c = Inr c'" and "map Some ds = rev (map undo_of ss)"
  shows "run ds c' = Inr c"
  using assms
proof (induction ss arbitrary: c ds)
  case (Cons s ss)
  from Cons.prems(3) obtain ds' d where ds: "ds = ds' @ [d]" "map Some ds' = rev (map undo_of ss)" "undo_of s = Some d"
    by (auto simp: map_eq_append_conv)
  from Cons.prems(2) obtain c1 where c1: "exec s c = Inr c1" "run ss c1 = Inr c'" by (auto split: sum.splits)
  have "run ds' c' = Inr c1" using Cons.IH [OF creation_ok [OF Cons.prems(1) c1(1)] c1(2) ds(2)] ds(3) by simp
  moreover have "exec d c1 = Inr c" by (rule undo_step [OF Cons.prems(1) c1(1) ds(3)])
  moreover have "run (ds' @ [d]) c' = (case run ds' c' of Inl err \<Rightarrow> Inl err | Inr c1 \<Rightarrow> run [d] c1)"
    by (induction ds' arbitrary: c') (simp_all split: sum.split)
  ultimately show ?case by (simp add: ds(1))
qed simp

section \<open>A schema beside other objects\<close>

text \<open>The objects of two catalogs together, and the names that a statement mentions.\<close>

definition catalog_add :: "catalog \<Rightarrow> catalog \<Rightarrow> catalog" where
  "catalog_add c k =
     \<lparr>ct_extensions = ct_extensions c @ ct_extensions k, ct_types = ct_types c @ ct_types k, ct_tables = ct_tables c @ ct_tables k,
      ct_indexes = ct_indexes c @ ct_indexes k, ct_foreignKeys = ct_foreignKeys c @ ct_foreignKeys k\<rparr>"

definition catalog_names :: "catalog \<Rightarrow> string list" where
  "catalog_names c = relation_names c @ type_names c"

fun statement_names :: "statement \<Rightarrow> string list" where
  "statement_names (Create_Type n labels) = [n]"
| "statement_names (Create_Table d) = td_name d # pkey_name (td_name d) # concat (map column_enum (td_columns d))"
| "statement_names (Create_Index i) = [ix_table i, ix_name i]"
| "statement_names (Add_Foreign_Key k) = [fk_table k, fk_references k]"
| "statement_names (Add_Column t cl) = t # column_enum cl"
| "statement_names _ = []"

lemma catalog_add_simps [simp]:
  "ct_types (catalog_add c k) = ct_types c @ ct_types k"
  "ct_tables (catalog_add c k) = ct_tables c @ ct_tables k"
  "ct_indexes (catalog_add c k) = ct_indexes c @ ct_indexes k"
  "ct_foreignKeys (catalog_add c k) = ct_foreignKeys c @ ct_foreignKeys k"
  "set (relation_names (catalog_add c k)) = set (relation_names c) \<union> set (relation_names k)"
  "set (type_names (catalog_add c k)) = set (type_names c) \<union> set (type_names k)"
  by (auto simp: catalog_add_def relation_names_def type_names_def)

lemma catalog_add_update [simp]:
  "(catalog_add c k)\<lparr>ct_types := ct_types c @ ts\<rparr> = catalog_add c (k\<lparr>ct_types := ts\<rparr>)"
  "(catalog_add c k)\<lparr>ct_tables := ct_tables c @ ds\<rparr> = catalog_add c (k\<lparr>ct_tables := ds\<rparr>)"
  "(catalog_add c k)\<lparr>ct_indexes := ct_indexes c @ is\<rparr> = catalog_add c (k\<lparr>ct_indexes := is\<rparr>)"
  "(catalog_add c k)\<lparr>ct_foreignKeys := ct_foreignKeys c @ ks\<rparr> = catalog_add c (k\<lparr>ct_foreignKeys := ks\<rparr>)"
  by (simp_all add: catalog_add_def)

lemma find_table_add: "t \<notin> set (map td_name (ct_tables c)) \<Longrightarrow> find_table t (catalog_add c k) = find_table t k"
  using find_table_None [of t c] by (simp add: find_table_def find_append)

lemma catalog_add_empty: "catalog_add c empty_catalog = c"
  by (simp add: catalog_add_def empty_catalog_def)

lemma update_table_add: "t \<notin> set (map td_name (ct_tables c)) \<Longrightarrow> update_table t f (catalog_add c k) = catalog_add c (update_table t f k)"
proof -
  assume "t \<notin> set (map td_name (ct_tables c))"
  then have "map (\<lambda>d. if td_name d = t then f d else d) (ct_tables c) = ct_tables c" by (intro map_idI) auto
  then show ?thesis by (simp add: update_table_def)
qed

lemma table_name_mem: "n \<in> set (map td_name (ct_tables c)) \<Longrightarrow> n \<in> set (catalog_names c)"
  by (auto simp: catalog_names_def relation_names_def)

text \<open>A statement that names no object of \<open>c\<close> does the same with and without them.\<close>

lemma exec_add:
  assumes ok: "catalog_ok c" and fresh: "\<And>n. n \<in> set (statement_names s) \<Longrightarrow> n \<notin> set (catalog_names c)"
    and step: "exec s k = Inr k'" and "undo_of s \<noteq> None"
  shows "exec s (catalog_add c k) = Inr (catalog_add c k')"
proof (cases s)
  case (Create_Type n labels)
  with fresh [of n] step show ?thesis by (auto simp: catalog_names_def split: if_splits)
next
  case (Create_Table d)
  have "td_name d \<notin> set (relation_names c)" "pkey_name (td_name d) \<notin> set (relation_names c)" "td_name d \<notin> set (type_names c)"
    using fresh [of "td_name d"] fresh [of "pkey_name (td_name d)"] by (auto simp: Create_Table catalog_names_def)
  moreover have "list_all (\<lambda>col. set (column_enum col) \<subseteq> set (map fst (ct_types c @ ct_types k))) (td_columns d)"
    if "list_all (\<lambda>col. set (column_enum col) \<subseteq> set (map fst (ct_types k))) (td_columns d)"
    using that by (auto simp: list_all_iff)
  ultimately show ?thesis using step Create_Table by (auto split: if_splits)
next
  case (Create_Index i)
  have "find_table (ix_table i) (catalog_add c k) = find_table (ix_table i) k"
    using fresh [of "ix_table i"] table_name_mem by (intro find_table_add) (auto simp: Create_Index)
  moreover have "ix_name i \<notin> set (relation_names c)" using fresh [of "ix_name i"] by (simp add: Create_Index catalog_names_def)
  ultimately show ?thesis using step Create_Index by (auto split: option.splits if_splits)
next
  case (Add_Foreign_Key j)
  have t: "fk_table j \<notin> set (map td_name (ct_tables c))" and r: "fk_references j \<notin> set (map td_name (ct_tables c))"
    using fresh [of "fk_table j"] fresh [of "fk_references j"] table_name_mem by (auto simp: Add_Foreign_Key)
  have "\<not> list_ex (\<lambda>i. fk_table i = fk_table j \<and> fk_name i = fk_name j) (ct_foreignKeys c)"
    using ok t unfolding catalog_ok_def list_ex_iff by metis
  then show ?thesis using step Add_Foreign_Key
    by (auto simp: find_table_add [OF t] find_table_add [OF r] split: option.splits if_splits)
next
  case (Add_Column t cl)
  have t: "t \<notin> set (map td_name (ct_tables c))" using fresh [of t] table_name_mem by (auto simp: Add_Column)
  then show ?thesis using step Add_Column
    by (auto simp: find_table_add [OF t] update_table_add [OF t] split: option.splits if_splits)
qed (use assms in simp_all)

lemma run_add:
  assumes "catalog_ok c" and "run ss k = Inr k'" and "list_all (\<lambda>s. undo_of s \<noteq> None) ss"
    and "list_all (\<lambda>n. n \<notin> set (catalog_names c)) (concat (map statement_names ss))"
  shows "run ss (catalog_add c k) = Inr (catalog_add c k')"
  using assms(2-)
proof (induction ss arbitrary: k)
  case (Cons s ss)
  then obtain k1 where k1: "exec s k = Inr k1" "run ss k1 = Inr k'" by (auto split: sum.splits)
  have "exec s (catalog_add c k) = Inr (catalog_add c k1)"
    using Cons.prems(2,3) by (intro exec_add [OF assms(1) _ k1(1)]) (auto simp: list_all_iff)
  with Cons.IH [OF k1(2)] Cons.prems(2,3) show ?case by simp
qed simp

section \<open>The migrations, up and down\<close>

definition install_pgcrypto :: "catalog \<Rightarrow> catalog" where
  "install_pgcrypto c =
     (if ''pgcrypto'' \<in> set (ct_extensions c) then c else c\<lparr>ct_extensions := ct_extensions c @ [''pgcrypto'']\<rparr>)"

definition schema_objects :: catalog where
  "schema_objects = migrated_catalog\<lparr>ct_extensions := []\<rparr>"

lemma migrations_computed:
  "run (tl CreateDatabaseFoundation_up @ AddOutboxDeadAt_up) empty_catalog = Inr schema_objects"
  by code_simp

lemma migrations_create: "list_all (\<lambda>s. undo_of s \<noteq> None) (tl CreateDatabaseFoundation_up @ AddOutboxDeadAt_up)"
  by code_simp

lemma migrations_names:
  "list_all (\<lambda>n. n \<in> set (catalog_names schema_objects))
     (concat (map statement_names (tl CreateDatabaseFoundation_up @ AddOutboxDeadAt_up)))"
  by code_simp

lemma migrations_undone:
  "map Some (AddOutboxDeadAt_down @ CreateDatabaseFoundation_down) =
   rev (map undo_of (tl CreateDatabaseFoundation_up @ AddOutboxDeadAt_up))"
  by code_simp

lemma foundation_first: "CreateDatabaseFoundation_up = Create_Extension_If_Not_Exists ''pgcrypto'' # tl CreateDatabaseFoundation_up"
  by (simp add: CreateDatabaseFoundation_up_def)

lemma catalog_ok_pgcrypto: "catalog_ok c \<Longrightarrow> catalog_ok (install_pgcrypto c)"
  by (auto simp: install_pgcrypto_def catalog_ok_def table_ok_def index_ok_def)

lemma catalog_names_pgcrypto: "catalog_names (install_pgcrypto c) = catalog_names c"
  by (simp add: install_pgcrypto_def catalog_names_def relation_names_def type_names_def)

text \<open>
  C37: The schema migrations can be applied beside any other objects of the database and taken back.  In a catalog whose
  references are in order and that uses none of the names of the schema, both \<open>up\<close> migrations succeed and add exactly the objects of
  the schema, with the extension if it was missing; and both \<open>down\<close> migrations, in the opposite order, then succeed and leave the
  catalog as it was, except for the extension, which they keep.
\<close>

theorem schema_roundtrip:
  assumes "catalog_ok c" and "list_all (\<lambda>n. n \<notin> set (catalog_names c)) (catalog_names schema_objects)"
  shows "run (CreateDatabaseFoundation_up @ AddOutboxDeadAt_up) c = Inr (catalog_add (install_pgcrypto c) schema_objects) \<and>
    run (AddOutboxDeadAt_down @ CreateDatabaseFoundation_down) (catalog_add (install_pgcrypto c) schema_objects) = Inr (install_pgcrypto c)"
proof -
  let ?up = "tl CreateDatabaseFoundation_up @ AddOutboxDeadAt_up" and ?c = "install_pgcrypto c"
  have "list_all (\<lambda>n. n \<notin> set (catalog_names ?c)) (concat (map statement_names ?up))"
    using migrations_names assms(2) unfolding catalog_names_pgcrypto list_all_iff by blast
  then have "run ?up (catalog_add ?c empty_catalog) = Inr (catalog_add ?c schema_objects)"
    using run_add [OF catalog_ok_pgcrypto [OF assms(1)] migrations_computed migrations_create] by blast
  then have up: "run ?up ?c = Inr (catalog_add ?c schema_objects)" unfolding catalog_add_empty .
  moreover have "run (CreateDatabaseFoundation_up @ AddOutboxDeadAt_up) c = run ?up ?c"
    by (subst foundation_first) (simp add: install_pgcrypto_def)
  ultimately show ?thesis using undo_all [OF catalog_ok_pgcrypto [OF assms(1)] up migrations_undone] by simp
qed

definition other_objects :: catalog where
  "other_objects =
     \<lparr>ct_extensions = [], ct_types = [(''mood'', [''GOOD''])],
      ct_tables = [\<lparr>td_name = ''migrations'', td_columns = [col ''id'' Sql_integer, col ''mood'' (Sql_enum ''mood'')],
        td_primaryKey = ''id'', td_checks = []\<rparr>],
      ct_indexes = [plain_index ''migrations_mood_idx'' ''migrations'' [''mood'']], ct_foreignKeys = []\<rparr>"

lemma other_objects_ok: "catalog_ok other_objects"
  by (simp add: other_objects_def catalog_ok_def table_ok_def index_ok_def column_names_def column_enum_def plain_index_def col_def)

lemma other_objects_fresh: "list_all (\<lambda>n. n \<notin> set (catalog_names other_objects)) (catalog_names schema_objects)"
  by code_simp

theorem schema_roundtrip_witness:
  "run (CreateDatabaseFoundation_up @ AddOutboxDeadAt_up) other_objects =
     Inr (catalog_add (install_pgcrypto other_objects) schema_objects) \<and>
   run (AddOutboxDeadAt_down @ CreateDatabaseFoundation_down) (catalog_add (install_pgcrypto other_objects) schema_objects) =
     Inr (install_pgcrypto other_objects)"
  by (rule schema_roundtrip [OF other_objects_ok other_objects_fresh])

end
