(* ===== verification/Entities.thy ===== *)
theory Entities
  imports Schema Configuration
begin

text \<open>
  The entities of \<open>src/database/entities\<close> and the list \<open>DATABASE_ENTITIES\<close> of \<open>src/database/typeorm-options.ts\<close>.

  An entity is data: the arguments of its decorators, with its columns under the names of their properties.  TypeORM
  derives database objects from them; \<open>entities_catalog\<close> is that derivation.  The service never lets TypeORM create the
  tables (\<open>synchronize: false\<close>), so the derived objects have to be those that the migrations create.  The last section does the
  same for the constraints that the statements of \<open>Database\<close> check.
\<close>

section \<open>Decorators\<close>

record column_options =
  op_name :: string
  op_type :: string
  op_length :: "nat option"
  op_precision :: "(nat \<times> nat) option"
  op_nullable :: bool
  op_default :: "sql_default option"
  op_enum :: "(string \<times> string list) option"

definition options :: "string \<Rightarrow> string \<Rightarrow> column_options" where
  "options n t = \<lparr>op_name = n, op_type = t, op_length = None, op_precision = None, op_nullable = False, op_default = None, op_enum = None\<rparr>"

definition varchar_options :: "string \<Rightarrow> nat \<Rightarrow> column_options" where
  "varchar_options n l = (options n ''varchar'')\<lparr>op_length := Some l\<rparr>"

abbreviation nullable :: "column_options \<Rightarrow> column_options" where
  "nullable opts \<equiv> opts\<lparr>op_nullable := True\<rparr>"

datatype decorator =
    PrimaryGeneratedColumn_uuid string
  | Column column_options
  | CreateDateColumn column_options
  | UpdateDateColumn column_options

text \<open>An index names properties, not columns; \<open>di_where\<close> is the column of its condition.\<close>

record index_decorator =
  di_name :: string
  di_properties :: "string list"
  di_unique :: bool
  di_where :: "string option"

definition Index_on :: "string \<Rightarrow> string list \<Rightarrow> index_decorator" where
  "Index_on n ps = \<lparr>di_name = n, di_properties = ps, di_unique = False, di_where = None\<rparr>"

text \<open>\<open>ManyToOne\<close> with its \<open>JoinColumn\<close>; the target is the table of the entity it names.\<close>

record relation_decorator =
  rd_target :: string
  rd_column :: string
  rd_constraintName :: string
  rd_onDelete :: fk_action
  rd_onUpdate :: fk_action

record entity =
  en_table :: string
  en_checks :: "(string \<times> sql_check) list"
  en_indexes :: "index_decorator list"
  en_columns :: "(string \<times> decorator) list"
  en_manyToOne :: "relation_decorator list"

section \<open>Enumerations\<close>

fun payment_intent_status_label :: "PaymentIntentStatus \<Rightarrow> string" where
  "payment_intent_status_label PI_Created = ''CREATED''"
| "payment_intent_status_label PI_Processing = ''PROCESSING''"
| "payment_intent_status_label PI_Confirmed = ''CONFIRMED''"
| "payment_intent_status_label PI_Failed = ''FAILED''"
| "payment_intent_status_label PI_Expired = ''EXPIRED''"

fun webhook_event_status_label :: "WebhookEventStatus \<Rightarrow> string" where
  "webhook_event_status_label WE_Received = ''RECEIVED''"
| "webhook_event_status_label WE_Queued = ''QUEUED''"
| "webhook_event_status_label WE_Processing = ''PROCESSING''"
| "webhook_event_status_label WE_Processed = ''PROCESSED''"
| "webhook_event_status_label WE_Failed = ''FAILED''"
| "webhook_event_status_label WE_Rejected = ''REJECTED''"

fun outbox_event_status_label :: "OutboxEventStatus \<Rightarrow> string" where
  "outbox_event_status_label OB_Pending = ''PENDING''"
| "outbox_event_status_label OB_Published = ''PUBLISHED''"
| "outbox_event_status_label OB_Failed = ''FAILED''"

fun attempt_status_label :: "WebhookProcessingAttemptStatus \<Rightarrow> string" where
  "attempt_status_label WA_Started = ''STARTED''"
| "attempt_status_label WA_Succeeded = ''SUCCEEDED''"
| "attempt_status_label WA_Failed = ''FAILED''"

definition enum_options :: "string \<Rightarrow> string \<Rightarrow> string list \<Rightarrow> column_options" where
  "enum_options n t labels = (options n ''enum'')\<lparr>op_enum := Some (t, labels)\<rparr>"

section \<open>The entities\<close>

definition PaymentIntentEntity_decorators :: entity where
  "PaymentIntentEntity_decorators =
     \<lparr>en_table = ''payment_intents'',
      en_checks = [(''payment_intents_amount_positive_chk'', Check_positive ''amount'')],
      en_indexes =
        [Index_on ''payment_intents_status_idx'' [''status''],
         Index_on ''payment_intents_created_at_idx'' [''createdAt''],
         Index_on ''payment_intents_client_request_id_idx'' [''clientRequestId''],
         Index_on ''payment_intents_reference_idx'' [''reference''],
         (Index_on ''payment_intents_confirmed_tx_hash_uniq'' [''confirmedTxHash''])
           \<lparr>di_unique := True, di_where := Some ''confirmed_tx_hash''\<rparr>],
      en_columns =
        [(''id'', PrimaryGeneratedColumn_uuid ''id''),
         (''status'', Column (enum_options ''status'' ''payment_intent_status''
           (map payment_intent_status_label [PI_Created, PI_Processing, PI_Confirmed, PI_Failed, PI_Expired]))),
         (''amount'', Column ((options ''amount'' ''numeric'')\<lparr>op_precision := Some (36, 18)\<rparr>)),
         (''asset'', Column (varchar_options ''asset'' 32)),
         (''destination'', Column (varchar_options ''destination'' 255)),
         (''reference'', Column (nullable (varchar_options ''reference'' 255))),
         (''clientRequestId'', Column (nullable (varchar_options ''client_request_id'' 255))),
         (''metadata'', Column ((options ''metadata'' ''jsonb'')\<lparr>op_default := Some Default_empty_object\<rparr>)),
         (''confirmedTxHash'', Column (nullable (varchar_options ''confirmed_tx_hash'' 255))),
         (''failureReason'', Column (nullable (options ''failure_reason'' ''text''))),
         (''expiresAt'', Column (nullable (options ''expires_at'' ''timestamptz''))),
         (''createdAt'', CreateDateColumn (options ''created_at'' ''timestamptz'')),
         (''updatedAt'', UpdateDateColumn (options ''updated_at'' ''timestamptz''))],
      en_manyToOne = []\<rparr>"

definition IdempotencyRecordEntity_decorators :: entity where
  "IdempotencyRecordEntity_decorators =
     \<lparr>en_table = ''idempotency_records'',
      en_checks = [],
      en_indexes =
        [(Index_on ''idempotency_records_scope_key_uniq'' [''scope'', ''idempotencyKey''])\<lparr>di_unique := True\<rparr>,
         Index_on ''idempotency_records_expires_at_idx'' [''expiresAt''],
         Index_on ''idempotency_records_resource_idx'' [''resourceType'', ''resourceId'']],
      en_columns =
        [(''id'', PrimaryGeneratedColumn_uuid ''id''),
         (''scope'', Column (varchar_options ''scope'' 128)),
         (''idempotencyKey'', Column (varchar_options ''idempotency_key'' 255)),
         (''requestHash'', Column (varchar_options ''request_hash'' 128)),
         (''responseStatus'', Column (nullable (options ''response_status'' ''integer''))),
         (''responseBody'', Column (nullable (options ''response_body'' ''jsonb''))),
         (''resourceType'', Column (nullable (varchar_options ''resource_type'' 128))),
         (''resourceId'', Column (nullable (options ''resource_id'' ''uuid''))),
         (''createdAt'', CreateDateColumn (options ''created_at'' ''timestamptz'')),
         (''expiresAt'', Column (nullable (options ''expires_at'' ''timestamptz'')))],
      en_manyToOne = []\<rparr>"

definition WebhookEventEntity_decorators :: entity where
  "WebhookEventEntity_decorators =
     \<lparr>en_table = ''webhook_events'',
      en_checks = [],
      en_indexes =
        [(Index_on ''webhook_events_provider_external_event_id_uniq'' [''provider'', ''externalEventId''])\<lparr>di_unique := True\<rparr>,
         (Index_on ''webhook_events_provider_nonce_uniq'' [''provider'', ''nonce''])\<lparr>di_unique := True, di_where := Some ''nonce''\<rparr>,
         Index_on ''webhook_events_payment_intent_id_idx'' [''paymentIntentId''],
         Index_on ''webhook_events_status_received_at_idx'' [''status'', ''receivedAt''],
         Index_on ''webhook_events_tx_hash_idx'' [''txHash''],
         Index_on ''webhook_events_payload_hash_idx'' [''payloadHash'']],
      en_columns =
        [(''id'', PrimaryGeneratedColumn_uuid ''id''),
         (''provider'', Column (varchar_options ''provider'' 128)),
         (''externalEventId'', Column (varchar_options ''external_event_id'' 255)),
         (''nonce'', Column (nullable (varchar_options ''nonce'' 255))),
         (''eventType'', Column (varchar_options ''event_type'' 128)),
         (''paymentIntentId'', Column (nullable (options ''payment_intent_id'' ''uuid''))),
         (''txHash'', Column (nullable (varchar_options ''tx_hash'' 255))),
         (''payload'', Column (options ''payload'' ''jsonb'')),
         (''payloadHash'', Column (varchar_options ''payload_hash'' 128)),
         (''status'', Column (enum_options ''status'' ''webhook_event_status''
           (map webhook_event_status_label [WE_Received, WE_Queued, WE_Processing, WE_Processed, WE_Failed, WE_Rejected]))),
         (''failureReason'', Column (nullable (options ''failure_reason'' ''text''))),
         (''receivedAt'', Column (options ''received_at'' ''timestamptz'')),
         (''processedAt'', Column (nullable (options ''processed_at'' ''timestamptz''))),
         (''createdAt'', CreateDateColumn (options ''created_at'' ''timestamptz'')),
         (''updatedAt'', UpdateDateColumn (options ''updated_at'' ''timestamptz''))],
      en_manyToOne = []\<rparr>"

definition OutboxEventEntity_decorators :: entity where
  "OutboxEventEntity_decorators =
     \<lparr>en_table = ''outbox_events'',
      en_checks = [(''outbox_events_attempts_non_negative_chk'', Check_not_negative ''attempts'')],
      en_indexes =
        [Index_on ''outbox_events_status_next_attempt_idx'' [''status'', ''nextAttemptAt''],
         Index_on ''outbox_events_aggregate_idx'' [''aggregateType'', ''aggregateId''],
         (Index_on ''outbox_events_dead_at_idx'' [''deadAt''])\<lparr>di_where := Some ''dead_at''\<rparr>],
      en_columns =
        [(''id'', PrimaryGeneratedColumn_uuid ''id''),
         (''type'', Column (varchar_options ''type'' 128)),
         (''aggregateType'', Column (varchar_options ''aggregate_type'' 128)),
         (''aggregateId'', Column (options ''aggregate_id'' ''uuid'')),
         (''payload'', Column (options ''payload'' ''jsonb'')),
         (''status'', Column (enum_options ''status'' ''outbox_event_status''
           (map outbox_event_status_label [OB_Pending, OB_Published, OB_Failed]))),
         (''attempts'', Column ((options ''attempts'' ''integer'')\<lparr>op_default := Some Default_zero\<rparr>)),
         (''nextAttemptAt'', Column (nullable (options ''next_attempt_at'' ''timestamptz''))),
         (''lastError'', Column (nullable (options ''last_error'' ''text''))),
         (''deadAt'', Column (nullable (options ''dead_at'' ''timestamptz''))),
         (''createdAt'', CreateDateColumn (options ''created_at'' ''timestamptz'')),
         (''publishedAt'', Column (nullable (options ''published_at'' ''timestamptz''))),
         (''updatedAt'', UpdateDateColumn (options ''updated_at'' ''timestamptz''))],
      en_manyToOne = []\<rparr>"

definition WebhookProcessingAttemptEntity_decorators :: entity where
  "WebhookProcessingAttemptEntity_decorators =
     \<lparr>en_table = ''webhook_processing_attempts'',
      en_checks =
        [(''webhook_processing_attempts_status_chk'', Check_in ''status'' [''STARTED'', ''SUCCEEDED'', ''FAILED'']),
         (''webhook_processing_attempts_finished_after_started_chk'', Check_null_or_not_before ''finished_at'' ''started_at'')],
      en_indexes =
        [Index_on ''webhook_processing_attempts_event_idx'' [''webhookEventId''],
         Index_on ''webhook_processing_attempts_status_idx'' [''status'']],
      en_columns =
        [(''id'', PrimaryGeneratedColumn_uuid ''id''),
         (''webhookEventId'', Column (options ''webhook_event_id'' ''uuid'')),
         (''jobId'', Column (nullable (varchar_options ''job_id'' 255))),
         (''status'', Column (varchar_options ''status'' 64)),
         (''errorMessage'', Column (nullable (options ''error_message'' ''text''))),
         (''startedAt'', Column (options ''started_at'' ''timestamptz'')),
         (''finishedAt'', Column (nullable (options ''finished_at'' ''timestamptz''))),
         (''createdAt'', CreateDateColumn (options ''created_at'' ''timestamptz''))],
      en_manyToOne =
        [\<lparr>rd_target = en_table WebhookEventEntity_decorators, rd_column = ''webhook_event_id'',
          rd_constraintName = ''webhook_processing_attempts_event_fk'', rd_onDelete = Restrict, rd_onUpdate = No_Action\<rparr>]\<rparr>"

text \<open>The classes that the configuration lists, with their decorators.\<close>

definition entity_classes :: "(jsstr \<times> entity) list" where
  "entity_classes =
     [(js ''PaymentIntentEntity'', PaymentIntentEntity_decorators),
      (js ''IdempotencyRecordEntity'', IdempotencyRecordEntity_decorators),
      (js ''WebhookEventEntity'', WebhookEventEntity_decorators),
      (js ''OutboxEventEntity'', OutboxEventEntity_decorators),
      (js ''WebhookProcessingAttemptEntity'', WebhookProcessingAttemptEntity_decorators)]"

definition configured_entities :: "entity list option" where
  "configured_entities = those (map (map_of entity_classes) DATABASE_ENTITIES)"

section \<open>What the decorators describe\<close>

text \<open>The SQL type of a column, or \<open>None\<close> when an option that the type needs is missing.\<close>

definition options_type :: "column_options \<Rightarrow> sql_type option" where
  "options_type opts =
     (if op_type opts = ''varchar'' then map_option Sql_varchar (op_length opts)
      else if op_type opts = ''numeric'' then map_option (\<lambda>(p, s). Sql_numeric p s) (op_precision opts)
      else if op_type opts = ''enum'' then map_option (Sql_enum \<circ> fst) (op_enum opts)
      else map_of [(''uuid'', Sql_uuid), (''text'', Sql_text), (''jsonb'', Sql_jsonb), (''integer'', Sql_integer),
                   (''timestamptz'', Sql_timestamptz)] (op_type opts))"

definition options_column :: "column_options \<Rightarrow> sql_default option \<Rightarrow> column option" where
  "options_column opts v =
     map_option (\<lambda>t. \<lparr>co_name = op_name opts, co_type = t, co_nullable = op_nullable opts, co_default = v\<rparr>) (options_type opts)"

fun decorator_column :: "decorator \<Rightarrow> column option" where
  "decorator_column (PrimaryGeneratedColumn_uuid n) = Some (col_default n Sql_uuid Default_uuid)"
| "decorator_column (Column opts) = options_column opts (op_default opts)"
| "decorator_column (CreateDateColumn opts) = options_column opts (Some Default_now)"
| "decorator_column (UpdateDateColumn opts) = options_column opts (Some Default_now)"

fun decorator_enum :: "decorator \<Rightarrow> (string \<times> string list) list" where
  "decorator_enum (Column opts) = (case op_enum opts of None \<Rightarrow> [] | Some e \<Rightarrow> [e])"
| "decorator_enum _ = []"

fun is_primary :: "decorator \<Rightarrow> bool" where
  "is_primary (PrimaryGeneratedColumn_uuid n) = True"
| "is_primary _ = False"

definition property_column :: "entity \<Rightarrow> string \<Rightarrow> string option" where
  "property_column e p = Option.bind (map_of (en_columns e) p) (map_option co_name \<circ> decorator_column)"

definition entity_columns :: "entity \<Rightarrow> column list option" where
  "entity_columns e = those (map (decorator_column \<circ> snd) (en_columns e))"

definition entity_primaryKey :: "entity \<Rightarrow> string option" where
  "entity_primaryKey e = Option.bind (find (is_primary \<circ> snd) (en_columns e)) (map_option co_name \<circ> decorator_column \<circ> snd)"

definition entity_table :: "entity \<Rightarrow> table_def option" where
  "entity_table e =
     Option.bind (entity_columns e) (\<lambda>cols. map_option (\<lambda>k.
       \<lparr>td_name = en_table e, td_columns = cols, td_primaryKey = k, td_checks = en_checks e\<rparr>) (entity_primaryKey e))"

definition entity_indexes :: "entity \<Rightarrow> index_def list option" where
  "entity_indexes e = those (map (\<lambda>i. map_option (\<lambda>cols.
     \<lparr>ix_name = di_name i, ix_table = en_table e, ix_columns = cols, ix_unique = di_unique i, ix_where = di_where i\<rparr>)
     (those (map (property_column e) (di_properties i)))) (en_indexes e))"

text \<open>A relation refers to the primary key of its target.\<close>

definition entity_foreignKeys :: "entity list \<Rightarrow> entity \<Rightarrow> foreign_key list option" where
  "entity_foreignKeys es e = those (map (\<lambda>r. map_option (\<lambda>k.
     \<lparr>fk_name = rd_constraintName r, fk_table = en_table e, fk_column = rd_column r, fk_references = rd_target r, fk_referenced = k,
      fk_onUpdate = rd_onUpdate r, fk_onDelete = rd_onDelete r\<rparr>)
     (Option.bind (find (\<lambda>t. en_table t = rd_target r) es) entity_primaryKey)) (en_manyToOne e))"

definition entities_catalog :: "entity list \<Rightarrow> catalog option" where
  "entities_catalog es =
     Option.bind (those (map entity_table es)) (\<lambda>tables.
     Option.bind (those (map entity_indexes es)) (\<lambda>indexes.
     map_option (\<lambda>keys.
       \<lparr>ct_extensions = [], ct_types = concat (map (\<lambda>e. concat (map (decorator_enum \<circ> snd) (en_columns e))) es), ct_tables = tables,
        ct_indexes = concat indexes, ct_foreignKeys = concat keys\<rparr>)
     (those (map (entity_foreignKeys es) es))))"

section \<open>Comparison with the migrations\<close>

text \<open>
  Two catalogs hold the same objects: the order of objects and of the columns of a table does not matter (a column that was added later
  stands last), that of the columns of an index and of the labels of a type does.
\<close>

definition same_members :: "'a list \<Rightarrow> 'a list \<Rightarrow> bool" where
  "same_members xs ys \<longleftrightarrow> length xs = length ys \<and> list_all (\<lambda>x. x \<in> set ys) xs \<and> list_all (\<lambda>y. y \<in> set xs) ys"

definition same_table_def :: "table_def \<Rightarrow> table_def \<Rightarrow> bool" where
  "same_table_def d e \<longleftrightarrow>
     td_name d = td_name e \<and> same_members (td_columns d) (td_columns e) \<and> td_primaryKey d = td_primaryKey e \<and> td_checks d = td_checks e"

definition same_objects :: "catalog \<Rightarrow> catalog \<Rightarrow> bool" where
  "same_objects c k \<longleftrightarrow>
     same_members (ct_types c) (ct_types k) \<and> list_all2 same_table_def (ct_tables c) (ct_tables k) \<and>
     same_members (ct_indexes c) (ct_indexes k) \<and> same_members (ct_foreignKeys c) (ct_foreignKeys k)"

lemma migrations_succeed: "run (CreateDatabaseFoundation_up @ AddOutboxDeadAt_up) empty_catalog = Inr migrated_catalog"
  by code_simp

lemma entities_described:
  "map_option (\<lambda>c. same_objects c migrated_catalog) (Option.bind configured_entities entities_catalog) = Some True"
  by code_simp


section \<open>The constraints of the rows\<close>

text \<open>The text columns of a row, under the names that the columns have in the database.\<close>

definition pi_columns :: "PaymentIntentEntity \<Rightarrow> string \<Rightarrow> jsstr option" where
  "pi_columns r n =
     (case map_of [(''asset'', Some (pi_asset r)), (''destination'', Some (pi_destination r)), (''reference'', pi_reference r),
         (''client_request_id'', pi_clientRequestId r), (''confirmed_tx_hash'', pi_confirmedTxHash r)] n of
        Some v \<Rightarrow> v | None \<Rightarrow> None)"

definition ir_columns :: "IdempotencyRecordEntity \<Rightarrow> string \<Rightarrow> jsstr option" where
  "ir_columns r n =
     (case map_of [(''scope'', Some (ir_scope r)), (''idempotency_key'', Some (ir_idempotencyKey r)),
         (''request_hash'', Some (ir_requestHash r)), (''resource_type'', ir_resourceType r)] n of
        Some v \<Rightarrow> v | None \<Rightarrow> None)"

definition we_columns :: "WebhookEventEntity \<Rightarrow> string \<Rightarrow> jsstr option" where
  "we_columns r n =
     (case map_of [(''provider'', Some (we_provider r)), (''external_event_id'', Some (we_externalEventId r)), (''nonce'', we_nonce r),
         (''event_type'', Some (we_eventType r)), (''tx_hash'', we_txHash r), (''payload_hash'', Some (we_payloadHash r))] n of
        Some v \<Rightarrow> v | None \<Rightarrow> None)"

definition varchar_lengths :: "string \<Rightarrow> catalog \<Rightarrow> (string \<times> nat) list" where
  "varchar_lengths t c =
     (case find_table t c of
        None \<Rightarrow> []
      | Some d \<Rightarrow> concat (map (\<lambda>co. case co_type co of Sql_varchar n \<Rightarrow> [(co_name co, n)] | _ \<Rightarrow> []) (td_columns d)))"

definition unique_keys :: "string \<Rightarrow> catalog \<Rightarrow> (string list \<times> string option) list" where
  "unique_keys t c = map (\<lambda>i. (ix_columns i, ix_where i)) (filter (\<lambda>i. ix_table i = t \<and> ix_unique i) (ct_indexes c))"

text \<open>A row fits when every \<open>varchar(n)\<close> column holds at most \<open>n\<close> characters.\<close>

definition columns_fit :: "string \<Rightarrow> catalog \<Rightarrow> (string \<Rightarrow> jsstr option) \<Rightarrow> bool" where
  "columns_fit t c v \<longleftrightarrow> list_all (\<lambda>(n, l). varchar_null l (v n)) (varchar_lengths t c)"

text \<open>
  Two rows violate a unique index when both are in it, by its condition, and agree on its columns; NULL equals nothing.
\<close>

definition violates_unique :: "string \<Rightarrow> catalog \<Rightarrow> (string \<Rightarrow> jsstr option) \<Rightarrow> (string \<Rightarrow> jsstr option) \<Rightarrow> bool" where
  "violates_unique t c v w \<longleftrightarrow>
     list_ex (\<lambda>(cols, cond). (case cond of None \<Rightarrow> True | Some n \<Rightarrow> v n \<noteq> None \<and> w n \<noteq> None) \<and>
       list_all (\<lambda>n. v n \<noteq> None \<and> w n = v n) cols) (unique_keys t c)"

lemma migrated_lengths:
  "varchar_lengths ''payment_intents'' migrated_catalog =
     [(''asset'', 32), (''destination'', 255), (''reference'', 255), (''client_request_id'', 255), (''confirmed_tx_hash'', 255)]"
  "varchar_lengths ''idempotency_records'' migrated_catalog =
     [(''scope'', 128), (''idempotency_key'', 255), (''request_hash'', 128), (''resource_type'', 128)]"
  "varchar_lengths ''webhook_events'' migrated_catalog =
     [(''provider'', 128), (''external_event_id'', 255), (''nonce'', 255), (''event_type'', 128), (''tx_hash'', 255), (''payload_hash'', 128)]"
  by code_simp+

lemma migrated_keys:
  "unique_keys ''payment_intents'' migrated_catalog = [([''confirmed_tx_hash''], Some ''confirmed_tx_hash'')]"
  "unique_keys ''idempotency_records'' migrated_catalog = [([''scope'', ''idempotency_key''], None)]"
  "unique_keys ''webhook_events'' migrated_catalog =
     [([''provider'', ''external_event_id''], None), ([''provider'', ''nonce''], Some ''nonce'')]"
  "unique_keys ''outbox_events'' migrated_catalog = []"
  "unique_keys ''webhook_processing_attempts'' migrated_catalog = []"
  by code_simp+


end
