(* ===== verification/Exception_Filter.thy ===== *)
theory Exception_Filter
  imports Observability
begin

text \<open>
  The global exception filter, \<open>src/common/request-context/correlation-id-exception.filter.ts\<close>: every value
  thrown while a request is handled becomes an HTTP answer with an error envelope and a log line.
  \<open>handle_exception\<close> is the method \<open>catch\<close>; it gives the status, the value of the
  header \<open>X-Correlation-ID\<close>, the body and the log lines.
\<close>

section \<open>Envelopes\<close>

record ErrorEnvelope =
  en_error :: jsstr
  en_message :: jsstr

record ResolvedError =
  rv_status :: nat
  rv_body :: "(jsstr \<times> json) list"
  rv_dataExceptionCode :: "jsstr option"

definition envelope :: "string \<Rightarrow> string \<Rightarrow> ErrorEnvelope" where
  "envelope error message = \<lparr>en_error = js error, en_message = js message\<rparr>"

definition STATUS_ERROR_ENVELOPES :: "(nat \<times> ErrorEnvelope) list" where
  "STATUS_ERROR_ENVELOPES =
     [(400, envelope ''VALIDATION_ERROR'' ''Request could not be processed.''),
      (404, envelope ''NOT_FOUND'' ''Resource not found.''),
      (413, envelope ''PAYLOAD_TOO_LARGE'' ''Request body exceeds the size limit.''),
      (415, envelope ''UNSUPPORTED_MEDIA_TYPE'' ''Request body encoding or charset is not supported.''),
      (429, envelope ''RATE_LIMITED'' ''Too many requests; retry after the delay in the Retry-After header.'')]"

definition envelopeForStatus :: "nat \<Rightarrow> ErrorEnvelope" where
  "envelopeForStatus status =
     (case map_of STATUS_ERROR_ENVELOPES status of
        Some e \<Rightarrow> e
      | None \<Rightarrow>
          if 500 \<le> status then envelope ''INTERNAL_SERVER_ERROR'' ''Unexpected server error.''
          else envelope ''HTTP_ERROR'' ''Request could not be processed.'')"

definition envelope_body :: "ErrorEnvelope \<Rightarrow> (jsstr \<times> json) list" where
  "envelope_body e = [(js ''error'', JStr (en_error e)), (js ''message'', JStr (en_message e))]"

fun isErrorEnvelope :: "json \<Rightarrow> bool" where
  "isErrorEnvelope (JObj es) =
     (case map_of es (js ''error'') of
        Some code \<Rightarrow> isSafeErrorCode code \<and> (case map_of es (js ''message'') of Some (JStr m) \<Rightarrow> True | _ \<Rightarrow> False)
      | None \<Rightarrow> False)"
| "isErrorEnvelope _ = False"

definition extractHttpErrorStatus :: "uval \<Rightarrow> nat option" where
  "extractHttpErrorStatus exception =
     (if \<not> is_object exception then None
      else
        (let status =
               (case uget (js ''status'') exception of
                  U_Number n \<Rightarrow> Some n
                | _ \<Rightarrow> (case uget (js ''statusCode'') exception of U_Number n \<Rightarrow> Some n | _ \<Rightarrow> None))
         in case status of
              None \<Rightarrow> None
            | Some n \<Rightarrow> if n < 400 \<or> 599 < n then None else Some (nat n)))"

section \<open>The filter\<close>

text \<open>The part of \<open>resolve\<close> for values that are not an \<open>HttpException\<close>.\<close>

definition resolve_other :: "uval \<Rightarrow> ResolvedError" where
  "resolve_other exception =
     (if isDatabaseUnavailableError exception then
        \<lparr>rv_status = 503,
         rv_body = envelope_body (envelope ''SERVICE_UNAVAILABLE'' ''A required datastore is temporarily unavailable.''),
         rv_dataExceptionCode = None\<rparr>
      else
        (case findPostgresDataExceptionCode exception of
           Some code \<Rightarrow>
             \<lparr>rv_status = 400, rv_body = envelope_body (envelope ''VALIDATION_ERROR'' ''Request could not be processed.''),
              rv_dataExceptionCode = Some code\<rparr>
         | None \<Rightarrow>
             (case extractHttpErrorStatus exception of
                Some status \<Rightarrow>
                  \<lparr>rv_status = status, rv_body = envelope_body (envelopeForStatus status), rv_dataExceptionCode = None\<rparr>
              | None \<Rightarrow>
                  \<lparr>rv_status = 500, rv_body = envelope_body (envelope ''INTERNAL_SERVER_ERROR'' ''Unexpected server error.''),
                   rv_dataExceptionCode = None\<rparr>)))"

fun resolve_exception :: "uval \<Rightarrow> ResolvedError" where
  "resolve_exception (U_Object (Class_Http status (JObj es)) ps) =
     \<lparr>rv_status = status,
      rv_body = (if isErrorEnvelope (JObj es) then es else envelope_body (envelopeForStatus status)),
      rv_dataExceptionCode = None\<rparr>"
| "resolve_exception (U_Object (Class_Http status response) ps) =
     \<lparr>rv_status = status, rv_body = envelope_body (envelopeForStatus status), rv_dataExceptionCode = None\<rparr>"
| "resolve_exception exception = resolve_other exception"

definition resolveLogErrorCode :: "uval \<Rightarrow> (jsstr \<times> json) list \<Rightarrow> jsstr" where
  "resolveLogErrorCode exception body =
     (let classifiedCode =
            (case map_of body (js ''error'') of
               Some (JStr code) \<Rightarrow> if isSafeErrorCode (JStr code) then code else js ''INTERNAL_SERVER_ERROR''
             | _ \<Rightarrow> js ''INTERNAL_SERVER_ERROR'')
      in toSafeErrorCode exception classifiedCode)"

text \<open>
  \<open>store\<close> is the active request context, \<open>responseHeader\<close> the header set on the response
  so far, \<open>requestHeader\<close> the one received; an empty string counts as absent.
\<close>

definition resolveCorrelationId :: "jsstr \<Rightarrow> RequestContext option \<Rightarrow> jsstr option \<Rightarrow> jsstr option \<Rightarrow> jsstr" where
  "resolveCorrelationId uuid store responseHeader requestHeader =
     (case getCorrelationId store of
        Some (c # cs) \<Rightarrow> c # cs
      | _ \<Rightarrow>
          (case responseHeader of
             Some (c # cs) \<Rightarrow> c # cs
           | _ \<Rightarrow> rc_correlationId (createRequestContext uuid uuid 0 requestHeader)))"

record error_answer =
  ea_status :: nat
  ea_header :: jsstr
  ea_body :: "(jsstr \<times> json) list"
  ea_logs :: "log_event list"

definition handle_exception :: "jsstr \<Rightarrow> RequestContext option \<Rightarrow> jsstr option \<Rightarrow> jsstr option \<Rightarrow> uval \<Rightarrow> error_answer" where
  "handle_exception uuid store responseHeader requestHeader exception =
     (let resolved = resolve_exception exception;
          status = rv_status resolved;
          correlationId = resolveCorrelationId uuid store responseHeader requestHeader;
          body = put (js ''correlationId'') (JStr correlationId) (rv_body resolved)
      in \<lparr>ea_status = status, ea_header = correlationId, ea_body = body,
          ea_logs =
            (if 500 \<le> status then
               [(Log_Error, js ''http_request_failed'',
                 [(js ''correlationId'', U_String correlationId), (js ''status'', U_Number (int status)),
                  (js ''errorCode'', U_String (resolveLogErrorCode exception body))]
                 @ describeError exception)]
             else (case rv_dataExceptionCode resolved of
                     Some code \<Rightarrow>
                       [(Log_Warn, js ''http_request_data_exception'',
                         [(js ''correlationId'', U_String correlationId), (js ''status'', U_Number (int status)),
                          (js ''errorCode'', U_String (js ''DATABASE_DATA_EXCEPTION'')), (js ''causeCode'', U_String code)])]
                   | None \<Rightarrow> []))\<rparr>)"

section \<open>Facts\<close>

fun is_http_exception :: "uval \<Rightarrow> bool" where
  "is_http_exception (U_Object (Class_Http status response) ps) = True"
| "is_http_exception _ = False"

text \<open>The envelope that an application exception carries.\<close>

fun own_envelope :: "uval \<Rightarrow> (jsstr \<times> json) list option" where
  "own_envelope (U_Object (Class_Http status (JObj es)) ps) = (if isErrorEnvelope (JObj es) then Some es else None)"
| "own_envelope _ = None"

text \<open>The texts that a client may see when the exception carries no envelope.\<close>

definition fixed_envelopes :: "ErrorEnvelope list" where
  "fixed_envelopes =
     map snd STATUS_ERROR_ENVELOPES @
     [envelope ''SERVICE_UNAVAILABLE'' ''A required datastore is temporarily unavailable.'',
      envelope ''INTERNAL_SERVER_ERROR'' ''Unexpected server error.'', envelope ''HTTP_ERROR'' ''Request could not be processed.'']"

lemma envelopeForStatus_fixed: "envelopeForStatus status \<in> set fixed_envelopes"
proof (cases "map_of STATUS_ERROR_ENVELOPES status")
  case (Some e)
  from map_of_SomeD [OF this] have "e \<in> set (map snd STATUS_ERROR_ENVELOPES)" by force
  with Some show ?thesis by (simp add: envelopeForStatus_def fixed_envelopes_def del: set_map)
qed (simp add: envelopeForStatus_def fixed_envelopes_def del: set_map)

lemma fixed_codes_safe: "e \<in> set fixed_envelopes \<Longrightarrow> SAFE_ERROR_CODE_PATTERN (en_error e)"
proof -
  have "list_all (\<lambda>e. SAFE_ERROR_CODE_PATTERN (en_error e)) fixed_envelopes" by code_simp
  then show "e \<in> set fixed_envelopes \<Longrightarrow> SAFE_ERROR_CODE_PATTERN (en_error e)" by (simp add: list_all_iff)
qed

lemma extract_status_range: "extractHttpErrorStatus exception = Some n \<Longrightarrow> 400 \<le> n \<and> n \<le> 599"
  by (auto simp: extractHttpErrorStatus_def Let_def split: if_splits option.splits uval.splits)

lemma fixed_members:
  "envelope ''SERVICE_UNAVAILABLE'' ''A required datastore is temporarily unavailable.'' \<in> set fixed_envelopes"
  "envelope ''VALIDATION_ERROR'' ''Request could not be processed.'' \<in> set fixed_envelopes"
  "envelope ''INTERNAL_SERVER_ERROR'' ''Unexpected server error.'' \<in> set fixed_envelopes"
  unfolding fixed_envelopes_def STATUS_ERROR_ENVELOPES_def
  by (simp_all only: list.map snd_conv append.simps list.set insert_iff simp_thms)

lemma resolve_other_fixed: "\<exists>e\<in>set fixed_envelopes. rv_body (resolve_other exception) = envelope_body e"
  unfolding resolve_other_def using fixed_members envelopeForStatus_fixed by (auto split: option.split intro!: bexI)

lemma resolve_other_status: "400 \<le> rv_status (resolve_other exception) \<and> rv_status (resolve_other exception) \<le> 599"
  unfolding resolve_other_def using extract_status_range [of exception] by (auto split: option.split)

lemma resolve_cases:
  obtains (own) es where "own_envelope exception = Some es" "rv_body (resolve_exception exception) = es"
  | (fixed) e where "own_envelope exception = None" "e \<in> set fixed_envelopes"
      "rv_body (resolve_exception exception) = envelope_body e"
proof (cases "is_http_exception exception")
  case False
  then have "resolve_exception exception = resolve_other exception" "own_envelope exception = None"
    by (cases exception rule: resolve_exception.cases; simp)+
  with resolve_other_fixed [of exception] that(2) show thesis by auto
next
  case True
  then obtain status response ps where e: "exception = U_Object (Class_Http status response) ps"
    by (cases exception rule: is_http_exception.cases) simp_all
  show thesis
  proof (cases "own_envelope exception")
    case None
    with e have "rv_body (resolve_exception exception) = envelope_body (envelopeForStatus status)"
      by (cases response) (auto split: if_splits)
    with None that(2) envelopeForStatus_fixed show thesis by blast
  next
    case (Some es)
    with e have "rv_body (resolve_exception exception) = es" by (cases response) (auto split: if_splits)
    with Some that(1) show thesis by blast
  qed
qed

lemma own_envelope_fields:
  assumes "own_envelope exception = Some es"
  shows "\<exists>code m. map_of es (js ''error'') = Some (JStr code) \<and> SAFE_ERROR_CODE_PATTERN code \<and> map_of es (js ''message'') = Some (JStr m)"
proof -
  from assms have "isErrorEnvelope (JObj es)" by (cases exception rule: own_envelope.cases) (auto split: if_splits)
  then obtain v m where v: "map_of es (js ''error'') = Some v" "isSafeErrorCode v" "map_of es (js ''message'') = Some (JStr m)"
    by (auto split: option.splits json.splits)
  then show ?thesis by (cases v) simp_all
qed

lemma envelope_keys: "js ''error'' \<noteq> js ''correlationId''" "js ''message'' \<noteq> js ''correlationId''" "js ''message'' \<noteq> js ''error''"
  by code_simp+

section \<open>Properties\<close>

text \<open>
  C33: Whatever is thrown while a request is handled, the answer is an error envelope that leaks nothing: the body has
  a safe error code, a message and the correlation identifier of the response header.  Only an application exception that carries an
  envelope chooses its text; for every other value (database errors, framework exceptions, body parser errors, values that
  are no errors) the body is one of eight fixed envelopes and the status is that of the exception or within 400 to 599.  Server errors and data
  exceptions of PostgreSQL write exactly one log line, all others none.
\<close>

theorem error_answers_safe:
  fixes uuid store responseHeader requestHeader exception
  defines "a \<equiv> handle_exception uuid store responseHeader requestHeader exception"
  shows "(\<exists>code m. map_of (ea_body a) (js ''error'') = Some (JStr code) \<and> SAFE_ERROR_CODE_PATTERN code \<and>
       map_of (ea_body a) (js ''message'') = Some (JStr m)) \<and>
    map_of (ea_body a) (js ''correlationId'') = Some (JStr (ea_header a)) \<and>
    (case own_envelope exception of
       Some es \<Rightarrow> ea_body a = put (js ''correlationId'') (JStr (ea_header a)) es
     | None \<Rightarrow> (\<exists>e\<in>set fixed_envelopes. ea_body a = envelope_body e @ [(js ''correlationId'', JStr (ea_header a))])) \<and>
    (is_http_exception exception \<or> 400 \<le> ea_status a \<and> ea_status a \<le> 599) \<and>
    length (ea_logs a) = (if 500 \<le> ea_status a then 1 else if rv_dataExceptionCode (resolve_exception exception) = None then 0 else 1)"
proof -
  let ?c = "resolveCorrelationId uuid store responseHeader requestHeader"
  have body: "ea_body a = put (js ''correlationId'') (JStr ?c) (rv_body (resolve_exception exception))" and header: "ea_header a = ?c"
    and status: "ea_status a = rv_status (resolve_exception exception)"
    by (simp_all add: a_def handle_exception_def Let_def)
  have "\<not> is_http_exception exception \<Longrightarrow> resolve_exception exception = resolve_other exception"
    by (cases exception rule: resolve_exception.cases) simp_all
  then have range: "is_http_exception exception \<or> 400 \<le> ea_status a \<and> ea_status a \<le> 599"
    using resolve_other_status [of exception] unfolding status by auto
  have logs: "length (ea_logs a) = (if 500 \<le> ea_status a then 1 else if rv_dataExceptionCode (resolve_exception exception) = None then 0 else 1)"
    by (simp add: a_def handle_exception_def Let_def split: option.split)
  show ?thesis
  proof (cases rule: resolve_cases [of exception])
    case (own es)
    from own_envelope_fields [OF own(1)] own range logs show ?thesis by (simp add: body header envelope_keys)
  next
    case (fixed e)
    with fixed_codes_safe [OF fixed(2)] range logs show ?thesis
      by (auto simp: body header envelope_keys envelope_body_def)
  qed
qed

text \<open>
  Errors reach the client with the status they mean: an outage of the database in any layer of a thrown error is answered with 503, a value that
  PostgreSQL refuses with 400, a status set by the body parser with that status, an exception of the application with its own status and envelope, and
  anything else with 500.
\<close>

theorem error_classification:
  assumes "\<not> is_http_exception exception"
  shows "ea_status (handle_exception uuid store responseHeader requestHeader exception) =
    (if isDatabaseUnavailableError exception then 503
     else if findPostgresDataExceptionCode exception \<noteq> None then 400
     else (case extractHttpErrorStatus exception of Some status \<Rightarrow> status | None \<Rightarrow> 500))"
proof -
  have "resolve_exception exception = resolve_other exception" using assms by (cases exception rule: resolve_exception.cases) simp_all
  then show ?thesis by (auto simp: handle_exception_def Let_def resolve_other_def split: option.split)
qed

theorem error_classification_witness:
  "ea_status (handle_exception (js ''c'') None None None (pg_error ''57P01'')) = 503 \<and>
   ea_status (handle_exception (js ''c'') None None None (pg_error ''22P02'')) = 400 \<and>
   ea_status (handle_exception (js ''c'') None None None (js_error ''boom'')) = 500"
proof -
  have errors: "\<not> is_http_exception (pg_error code)" "\<not> is_http_exception (js_error m)" for code m
    by (simp_all add: pg_error_def js_error_def)
  have "isDatabaseUnavailableError (pg_error ''57P01'')" by code_simp
  moreover have "\<not> isDatabaseUnavailableError (pg_error ''22P02'')" "findPostgresDataExceptionCode (pg_error ''22P02'') \<noteq> None"
    by code_simp+
  moreover have "\<not> isDatabaseUnavailableError (js_error ''boom'')" "findPostgresDataExceptionCode (js_error ''boom'') = None"
    "extractHttpErrorStatus (js_error ''boom'') = None" by code_simp+
  ultimately show ?thesis using error_classification [OF errors(1)] error_classification [OF errors(2)] by simp
qed

end
