(* ===== verification/Health.thy ===== *)
theory Health
  imports Configuration Exception_Filter
begin

text \<open>
  The health endpoints: \<open>src/health/health.service.ts\<close> with the two checks it calls,
  \<open>src/health/postgres-health-check.service.ts\<close> and \<open>src/health/redis-health-check.service.ts\<close>.

  The check of Redis keeps a client and the promise of its connection across calls, and calls overlap.  Its segments between
  two \<open>await\<close>s are functions on the service; \<open>redis_step\<close> interleaves the segments of any number of checks with
  the connections of the clients.  \<open>redis_check\<close> runs one check alone.

  ioredis and pg are not code of the repository.  A client of ioredis is a number with a status and with the options it
  was built with; \<open>client_moves\<close> lists the documented moves of the status (a lazy client waits for \<open>connect()\<close>;
  a client whose retry strategy gives \<open>null\<close> ends after its connection is closed).  The promise of \<open>connect()\<close> is settled when the status
  becomes ready or closed; the callback of \<open>finally\<close> runs before any other call of the service.  pg is a record of answers.
\<close>

section \<open>PostgreSQL\<close>

definition POSTGRES_HEALTH_APPLICATION_NAME :: jsstr where
  "POSTGRES_HEALTH_APPLICATION_NAME = js ''transaction-event-gateway-health''"

definition POSTGRES_HEALTH_STATEMENT_TIMEOUT_MS :: nat where
  "POSTGRES_HEALTH_STATEMENT_TIMEOUT_MS = 2000"

record HealthPool =
  hp_connectionString :: jsstr
  hp_application_name :: jsstr
  hp_pool :: PoolOptions
  hp_statement_timeout :: nat
  hp_query_timeout :: nat
  hp_allowExitOnIdle :: bool

record PostgresHealthCheckService =
  ph_pool :: "HealthPool option"
  ph_built :: nat

definition new_postgres_health :: PostgresHealthCheckService where
  "new_postgres_health = \<lparr>ph_pool = None, ph_built = 0\<rparr>"

definition health_pool :: "jsstr \<Rightarrow> HealthPool" where
  "health_pool databaseUrl =
     \<lparr>hp_connectionString = databaseUrl, hp_application_name = POSTGRES_HEALTH_APPLICATION_NAME,
      hp_pool = \<lparr>po_max = 1, po_connectionTimeoutMillis = 1000, po_idleTimeoutMillis = 30000\<rparr>,
      hp_statement_timeout = POSTGRES_HEALTH_STATEMENT_TIMEOUT_MS, hp_query_timeout = POSTGRES_HEALTH_STATEMENT_TIMEOUT_MS,
      hp_allowExitOnIdle = True\<rparr>"

definition getPool :: "uval + jsstr \<Rightarrow> PostgresHealthCheckService \<Rightarrow> (uval + HealthPool) \<times> PostgresHealthCheckService" where
  "getPool DATABASE_URL s =
     (case ph_pool s of
        Some pool \<Rightarrow> (Inr pool, s)
      | None \<Rightarrow>
          (case DATABASE_URL of
             Inl err \<Rightarrow> (Inl err, s)
           | Inr databaseUrl \<Rightarrow>
               let pool = health_pool databaseUrl in (Inr pool, s\<lparr>ph_pool := Some pool, ph_built := Suc (ph_built s)\<rparr>)))"

text \<open>What the pool and the connection answer, and the calls the check makes; \<open>Release destroy\<close> gives the client back.\<close>

record pg_answers =
  pa_connect :: "uval option"
  pa_set_timeout :: "uval option"
  pa_select :: "uval option"

datatype pg_call = Pool_Connect | Client_Set_Timeout | Client_Select | Client_Release bool | Pool_End

definition postgres_check ::
  "uval + jsstr \<Rightarrow> pg_answers \<Rightarrow> PostgresHealthCheckService \<Rightarrow> (uval option \<times> pg_call list) \<times> PostgresHealthCheckService" where
  "postgres_check DATABASE_URL pg s =
     (case getPool DATABASE_URL s of
        (Inl err, s1) \<Rightarrow> ((Some err, []), s1)
      | (Inr pool, s1) \<Rightarrow>
          (case pa_connect pg of
             Some err \<Rightarrow> (Some err, [Pool_Connect])
           | None \<Rightarrow>
               (case pa_set_timeout pg of
                  Some err \<Rightarrow> (Some err, [Pool_Connect, Client_Set_Timeout, Client_Release True])
                | None \<Rightarrow>
                    (case pa_select pg of
                       Some err \<Rightarrow> (Some err, [Pool_Connect, Client_Set_Timeout, Client_Select, Client_Release True])
                     | None \<Rightarrow> (None, [Pool_Connect, Client_Set_Timeout, Client_Select, Client_Release False]))), s1))"

definition pool_error :: "uval \<Rightarrow> log_event" where
  "pool_error error =
     (Log_Warn, js ''postgres_health_pool_error'',
      [(js ''status'', U_String (js ''FAILED'')),
       (js ''errorCode'', U_String (toSafeErrorCode error (js ''POSTGRES_HEALTH_POOL_ERROR'')))])"

definition postgres_destroy :: "PostgresHealthCheckService \<Rightarrow> pg_call list" where
  "postgres_destroy s = (if ph_pool s = None then [] else [Pool_End])"

section \<open>Redis\<close>

datatype redis_status = Status_wait | Status_connecting | Status_connect | Status_ready | Status_close | Status_reconnecting | Status_end

record RedisHealthCheckService =
  rh_client :: "nat option"
  rh_connectPromise :: "nat option"
  rh_built :: nat
  rh_options :: "nat \<Rightarrow> RedisOptions"
  rh_status :: "nat \<Rightarrow> redis_status"
  rh_connected :: "nat \<Rightarrow> bool option"
  rh_disconnected :: "nat list"

definition new_redis_health :: RedisHealthCheckService where
  "new_redis_health =
     \<lparr>rh_client = None, rh_connectPromise = None, rh_built = 0, rh_options = (\<lambda>_. createHealthRedisConnectionOptions []),
      rh_status = (\<lambda>_. Status_end), rh_connected = (\<lambda>_. None), rh_disconnected = []\<rparr>"

definition resetClient :: "nat \<Rightarrow> RedisHealthCheckService \<Rightarrow> RedisHealthCheckService" where
  "resetClient client s =
     (let s1 = (if rh_client s = Some client then s\<lparr>rh_client := None, rh_connectPromise := None\<rparr> else s)
      in s1\<lparr>rh_disconnected := rh_disconnected s1 @ [client]\<rparr>)"

text \<open>\<open>new Redis(url, options)\<close>: a client that is not lazy connects at once.\<close>

definition build_client :: "RedisOptions \<Rightarrow> RedisHealthCheckService \<Rightarrow> nat \<times> RedisHealthCheckService" where
  "build_client options s =
     (let n = rh_built s
      in (n, s\<lparr>rh_built := Suc n, rh_options := (rh_options s)(n := options), rh_connected := (rh_connected s)(n := None),
               rh_status := (rh_status s)(n := if ro_lazyConnect options = Some True then Status_wait else Status_connecting)\<rparr>))"

definition getClient :: "uval + jsstr \<Rightarrow> RedisHealthCheckService \<Rightarrow> (uval + nat) \<times> RedisHealthCheckService" where
  "getClient REDIS_URL s =
     (let s1 = (case rh_client s of
                  Some c \<Rightarrow> if rh_status s c = Status_end \<or> rh_status s c = Status_close then resetClient c s else s
                | None \<Rightarrow> s)
      in case rh_client s1 of
           Some c \<Rightarrow> (Inr c, s1)
         | None \<Rightarrow>
             (case REDIS_URL of
                Inl err \<Rightarrow> (Inl err, s1)
              | Inr redisUrl \<Rightarrow>
                  (case build_client (createHealthRedisConnectionOptions redisUrl) s1 of
                     (c, s2) \<Rightarrow> (Inr c, s2\<lparr>rh_client := Some c\<rparr>))))"

text \<open>
  A check awaits the promise of a connection with its client at hand, or the answer to its ping, or is over.
\<close>

datatype check_state = Awaiting_Connection nat nat | Awaiting_Pong nat | Check_Passed | Check_Failed uval

definition redis_not_ready :: uval where
  "redis_not_ready = js_error ''REDIS_HEALTH_CLIENT_NOT_READY''"

definition check_failed :: "nat \<Rightarrow> uval \<Rightarrow> RedisHealthCheckService \<Rightarrow> check_state \<times> RedisHealthCheckService" where
  "check_failed client error s = (Check_Failed error, resetClient client s)"

definition connect_client :: "nat \<Rightarrow> RedisHealthCheckService \<Rightarrow> check_state \<times> RedisHealthCheckService" where
  "connect_client client s =
     (if rh_status s client = Status_ready then (Awaiting_Pong client, s)
      else (case rh_connectPromise s of
              Some p \<Rightarrow> (Awaiting_Connection client p, s)
            | None \<Rightarrow>
                if rh_status s client \<noteq> Status_wait then check_failed client redis_not_ready s
                else (Awaiting_Connection client client,
                      s\<lparr>rh_connectPromise := Some client, rh_status := (rh_status s)(client := Status_connecting)\<rparr>)))"

definition check_begin :: "uval + jsstr \<Rightarrow> RedisHealthCheckService \<Rightarrow> check_state \<times> RedisHealthCheckService" where
  "check_begin REDIS_URL s =
     (case getClient REDIS_URL s of
        (Inl err, s1) \<Rightarrow> (Check_Failed err, s1)
      | (Inr client, s1) \<Rightarrow> connect_client client s1)"

definition connection_settled :: "nat \<Rightarrow> uval option \<Rightarrow> RedisHealthCheckService \<Rightarrow> check_state \<times> RedisHealthCheckService" where
  "connection_settled client result s =
     (case result of None \<Rightarrow> (Awaiting_Pong client, s) | Some err \<Rightarrow> check_failed client err s)"

definition pong_settled :: "nat \<Rightarrow> uval option \<Rightarrow> RedisHealthCheckService \<Rightarrow> check_state \<times> RedisHealthCheckService" where
  "pong_settled client result s =
     (case result of None \<Rightarrow> (Check_Passed, s) | Some err \<Rightarrow> check_failed client err s)"

definition redis_destroy :: "RedisHealthCheckService \<Rightarrow> RedisHealthCheckService" where
  "redis_destroy s =
     (let s1 = s\<lparr>rh_client := None, rh_connectPromise := None\<rparr>
      in case rh_client s of None \<Rightarrow> s1 | Some c \<Rightarrow> s1\<lparr>rh_disconnected := rh_disconnected s @ [c]\<rparr>)"

definition redis_client_error :: "uval \<Rightarrow> log_event" where
  "redis_client_error error =
     (Log_Warn, js ''redis_health_check_error'',
      [(js ''status'', U_String (js ''FAILED'')),
       (js ''errorCode'', U_String (toSafeErrorCode error (js ''REDIS_HEALTH_CHECK_ERROR'')))])"

section \<open>The connections\<close>

fun client_moves :: "RedisOptions \<Rightarrow> redis_status \<Rightarrow> redis_status list" where
  "client_moves options Status_wait = [Status_close]"
| "client_moves options Status_connecting = [Status_connect, Status_close]"
| "client_moves options Status_connect = [Status_ready, Status_close]"
| "client_moves options Status_ready = [Status_close]"
| "client_moves options Status_close =
     (if ro_retryStrategy options = Some None then [Status_end] else [Status_reconnecting, Status_end])"
| "client_moves options Status_reconnecting = [Status_connecting, Status_end]"
| "client_moves options Status_end = []"

text \<open>A move of the status settles the promise of \<open>connect()\<close>, whose \<open>finally\<close> clears the field.\<close>

definition move_client :: "nat \<Rightarrow> redis_status \<Rightarrow> RedisHealthCheckService \<Rightarrow> RedisHealthCheckService" where
  "move_client c status s =
     (let s1 = s\<lparr>rh_status := (rh_status s)(c := status)\<rparr>
      in if rh_connected s c = None \<and> (status = Status_ready \<or> status = Status_close)
         then s1\<lparr>rh_connected := (rh_connected s)(c := Some (status = Status_ready)), rh_connectPromise := None\<rparr> else s1)"

text \<open>Any number of overlapping checks.\<close>

type_synonym redis_pool = "RedisHealthCheckService \<times> check_state list"

inductive redis_step :: "uval + jsstr \<Rightarrow> redis_pool \<Rightarrow> redis_pool \<Rightarrow> bool" for REDIS_URL where
  begin_check: "check_begin REDIS_URL s = (k, s') \<Longrightarrow> redis_step REDIS_URL (s, ks) (s', ks @ [k])"
| connection: "i < length ks \<Longrightarrow> ks ! i = Awaiting_Connection c p \<Longrightarrow> rh_connected s p = Some (result = None) \<Longrightarrow>
    connection_settled c result s = (k, s') \<Longrightarrow> redis_step REDIS_URL (s, ks) (s', ks[i := k])"
| pong: "i < length ks \<Longrightarrow> ks ! i = Awaiting_Pong c \<Longrightarrow> pong_settled c result s = (k, s') \<Longrightarrow>
    redis_step REDIS_URL (s, ks) (s', ks[i := k])"
| client_move: "c < rh_built s \<Longrightarrow> status \<in> set (client_moves (rh_options s c) (rh_status s c)) \<Longrightarrow>
    redis_step REDIS_URL (s, ks) (move_client c status s, ks)"

text \<open>
  One check alone.  \<open>connects\<close> and \<open>pongs\<close> say what Redis answers to a connection and to a ping.
\<close>

definition connection_made :: "nat \<Rightarrow> RedisHealthCheckService \<Rightarrow> RedisHealthCheckService" where
  "connection_made c s =
     move_client c Status_ready (if rh_status s c = Status_connecting then move_client c Status_connect s else s)"

definition await_connection :: "uval option \<Rightarrow> check_state \<Rightarrow> RedisHealthCheckService \<Rightarrow> check_state \<times> RedisHealthCheckService" where
  "await_connection connects k s =
     (case k of
        Awaiting_Connection c p \<Rightarrow>
          (case connects of
             None \<Rightarrow> connection_settled c None (connection_made p s)
           | Some err \<Rightarrow> connection_settled c (Some err) (move_client p Status_close s))
      | _ \<Rightarrow> (k, s))"

definition await_pong :: "uval option \<Rightarrow> check_state \<Rightarrow> RedisHealthCheckService \<Rightarrow> check_state \<times> RedisHealthCheckService" where
  "await_pong pongs k s = (case k of Awaiting_Pong c \<Rightarrow> pong_settled c pongs s | _ \<Rightarrow> (k, s))"

definition check_result :: "check_state \<Rightarrow> uval option" where
  "check_result k = (case k of Check_Failed err \<Rightarrow> Some err | _ \<Rightarrow> None)"

definition redis_check ::
  "uval + jsstr \<Rightarrow> uval option \<Rightarrow> uval option \<Rightarrow> RedisHealthCheckService \<Rightarrow> uval option \<times> RedisHealthCheckService" where
  "redis_check REDIS_URL connects pongs s =
     (case check_begin REDIS_URL s of (k1, s1) \<Rightarrow>
        (case await_connection connects k1 s1 of (k2, s2) \<Rightarrow>
           (case await_pong pongs k2 s2 of (k3, s3) \<Rightarrow> (check_result k3, s3))))"

section \<open>The endpoints\<close>

record LivenessResponse =
  lr_status :: jsstr
  lr_timestamp :: int
  lr_uptimeSeconds :: int

record ReadinessResponse =
  rr_status :: jsstr
  rr_timestamp :: int
  rr_checks :: "(jsstr \<times> jsstr) list"

definition ready_response :: "int \<Rightarrow> string list \<Rightarrow> ReadinessResponse" where
  "ready_response now checks =
     \<lparr>rr_status = js ''ready'', rr_timestamp = now, rr_checks = map (\<lambda>c. (js c, js ''ok'')) checks\<rparr>"

text \<open>The uptime is given in milliseconds; \<open>Math.round\<close> rounds halves up.\<close>

definition getLiveness :: "int \<Rightarrow> int \<Rightarrow> LivenessResponse" where
  "getLiveness now uptimeMs = \<lparr>lr_status = js ''ok'', lr_timestamp = now, lr_uptimeSeconds = (uptimeMs + 500) div 1000\<rparr>"

definition REQUIRED_CONFIG_KEYS :: "jsstr list" where
  "REQUIRED_CONFIG_KEYS =
     map js [''NODE_ENV'', ''PORT'', ''DATABASE_URL'', ''REDIS_URL'', ''WEBHOOK_SECRET'', ''WEBHOOK_TIMESTAMP_TOLERANCE_SECONDS'']"

definition service_unavailable :: "string \<Rightarrow> json list \<Rightarrow> uval" where
  "service_unavailable message details =
     U_Object (Class_Http 503 (JObj
       [(js ''error'', JStr (js ''SERVICE_UNAVAILABLE'')), (js ''message'', JStr (js message)), (js ''details'', JArr details)]))
       [(js ''message'', U_String (js message))]"

definition checkConfig :: "config \<Rightarrow> uval option" where
  "checkConfig cfg =
     (let missingKeys = filter (\<lambda>key. cfg key = U_Undefined \<or> cfg key = U_Null \<or> cfg key = U_String []) REQUIRED_CONFIG_KEYS
      in if missingKeys \<noteq> []
         then Some (service_unavailable ''Required configuration is missing.''
                (map (\<lambda>key. JObj [(js ''field'', JStr key)]) missingKeys))
         else None)"

definition checkPostgres :: "uval option \<Rightarrow> uval option" where
  "checkPostgres result =
     map_option (\<lambda>_. service_unavailable ''PostgreSQL readiness check failed.'' [JObj [(js ''dependency'', JStr (js ''postgres''))]]) result"

definition checkRedis :: "uval option \<Rightarrow> uval option" where
  "checkRedis result =
     map_option (\<lambda>_. service_unavailable ''Redis readiness check failed.'' [JObj [(js ''dependency'', JStr (js ''redis''))]]) result"

record HealthService =
  hs_postgres :: PostgresHealthCheckService
  hs_redis :: RedisHealthCheckService

text \<open>\<open>configService.getOrThrow\<close>, and what PostgreSQL and Redis answer while an endpoint runs.\<close>

definition getOrThrow :: "config \<Rightarrow> string \<Rightarrow> uval + jsstr" where
  "getOrThrow cfg key =
     (case cfg (js key) of U_String s \<Rightarrow> Inr s | _ \<Rightarrow> Inl (js_error (''Configuration key '' @ key @ '' does not exist'')))"

record dependencies =
  dp_pg :: pg_answers
  dp_redis_connects :: "uval option"
  dp_redis_pongs :: "uval option"

definition getServingReadiness :: "int \<Rightarrow> config \<Rightarrow> dependencies \<Rightarrow> HealthService \<Rightarrow> (uval + ReadinessResponse) \<times> HealthService" where
  "getServingReadiness now cfg answers h =
     (case checkConfig cfg of
        Some err \<Rightarrow> (Inl err, h)
      | None \<Rightarrow>
          (case postgres_check (getOrThrow cfg ''DATABASE_URL'') (dp_pg answers) (hs_postgres h) of
             ((pg, calls), postgres) \<Rightarrow>
               let h1 = h\<lparr>hs_postgres := postgres\<rparr>
               in case checkPostgres pg of
                    Some err \<Rightarrow> (Inl err, h1)
                  | None \<Rightarrow> (Inr (ready_response now [''config'', ''postgres'']), h1)))"

definition getReadiness :: "int \<Rightarrow> config \<Rightarrow> dependencies \<Rightarrow> HealthService \<Rightarrow> (uval + ReadinessResponse) \<times> HealthService" where
  "getReadiness now cfg answers h =
     (case checkConfig cfg of
        Some err \<Rightarrow> (Inl err, h)
      | None \<Rightarrow>
          (case postgres_check (getOrThrow cfg ''DATABASE_URL'') (dp_pg answers) (hs_postgres h) of
             ((pg, calls), postgres) \<Rightarrow>
               let h1 = h\<lparr>hs_postgres := postgres\<rparr>
               in case checkPostgres pg of
                    Some err \<Rightarrow> (Inl err, h1)
                  | None \<Rightarrow>
                      (case redis_check (getOrThrow cfg ''REDIS_URL'') (dp_redis_connects answers) (dp_redis_pongs answers)
                         (hs_redis h1) of
                         (redisResult, redis) \<Rightarrow>
                           let h2 = h1\<lparr>hs_redis := redis\<rparr>
                           in case checkRedis redisResult of
                                Some err \<Rightarrow> (Inl err, h2)
                              | None \<Rightarrow> (Inr (ready_response now [''config'', ''postgres'', ''redis'']), h2))))"

section \<open>Overlapping checks\<close>

definition connecting :: "RedisHealthCheckService \<Rightarrow> nat \<Rightarrow> bool" where
  "connecting s c \<longleftrightarrow> rh_status s c = Status_connecting \<or> rh_status s c = Status_connect"

text \<open>
  The clients of the service: all but the current one are disconnected, and only the current one may be connecting, which it is
  exactly while the field \<open>connectPromise\<close> holds its promise.
\<close>

definition client_ok :: "RedisHealthCheckService \<Rightarrow> nat \<Rightarrow> bool" where
  "client_ok s c \<longleftrightarrow>
     ro_retryStrategy (rh_options s c) = Some None \<and> (rh_client s = Some c \<or> c \<in> set (rh_disconnected s)) \<and>
     rh_status s c \<noteq> Status_wait \<and> rh_status s c \<noteq> Status_reconnecting \<and>
     (rh_connected s c = None \<longleftrightarrow> connecting s c) \<and> (connecting s c \<longrightarrow> rh_client s = Some c \<and> rh_connectPromise s = Some c)"

definition service_ok :: "RedisHealthCheckService \<Rightarrow> bool" where
  "service_ok s \<longleftrightarrow>
     (\<forall>c. rh_client s = Some c \<longrightarrow> c < rh_built s) \<and> (\<forall>c<rh_built s. client_ok s c) \<and>
     (\<forall>p. rh_connectPromise s = Some p \<longrightarrow> rh_client s = Some p \<and> connecting s p)"

lemma service_okI:
  assumes "\<And>c. rh_client s = Some c \<Longrightarrow> c < rh_built s" and "\<And>c. c < rh_built s \<Longrightarrow> client_ok s c"
    and "\<And>p. rh_connectPromise s = Some p \<Longrightarrow> rh_client s = Some p \<and> connecting s p"
  shows "service_ok s"
  using assms unfolding service_ok_def by blast

lemma service_okD:
  assumes "service_ok s"
  shows "rh_client s = Some c \<Longrightarrow> c < rh_built s" and "c < rh_built s \<Longrightarrow> client_ok s c"
    and "rh_connectPromise s = Some p \<Longrightarrow> rh_client s = Some p \<and> connecting s p"
    and "rh_client s = None \<Longrightarrow> rh_connectPromise s = None"
  using assms unfolding service_ok_def by auto

lemma connecting_current: "client_ok s c \<Longrightarrow> connecting s c \<Longrightarrow> rh_client s = Some c \<and> rh_connectPromise s = Some c"
  by (simp add: client_ok_def)

fun check_ok :: "RedisHealthCheckService \<Rightarrow> check_state \<Rightarrow> bool" where
  "check_ok s (Awaiting_Connection c p) \<longleftrightarrow> p = c \<and> c < rh_built s"
| "check_ok s (Awaiting_Pong c) \<longleftrightarrow> c < rh_built s \<and> rh_connected s c \<noteq> None"
| "check_ok s _ \<longleftrightarrow> True"

fun redis_pool_ok :: "redis_pool \<Rightarrow> bool" where
  "redis_pool_ok (s, ks) \<longleftrightarrow> service_ok s \<and> (\<forall>k\<in>set ks. check_ok s k)"

lemma check_ok_mono:
  assumes "check_ok s k" and "rh_built s \<le> rh_built s'"
    and "\<And>c. c < rh_built s \<Longrightarrow> rh_connected s c \<noteq> None \<Longrightarrow> rh_connected s' c \<noteq> None"
  shows "check_ok s' k"
  using assms by (cases k) auto

lemma reset_sel [simp]:
  "rh_built (resetClient c s) = rh_built s" "rh_connected (resetClient c s) = rh_connected s"
  "rh_status (resetClient c s) = rh_status s" "rh_options (resetClient c s) = rh_options s"
  "connecting (resetClient c s) = connecting s"
  by (auto simp: resetClient_def Let_def connecting_def fun_eq_iff)

lemma reset_client: "rh_client (resetClient c s) = (if rh_client s = Some c then None else rh_client s)"
  by (simp add: resetClient_def Let_def)

lemma reset_ok:
  assumes ok: "service_ok s" and c: "c < rh_built s" "\<not> connecting s c"
  shows "service_ok (resetClient c s)"
proof (rule service_okI)
  fix p assume "rh_connectPromise (resetClient c s) = Some p"
  then have p: "rh_connectPromise s = Some p" "rh_client s \<noteq> Some c" by (auto simp: resetClient_def Let_def split: if_splits)
  with service_okD(3) [OF ok p(1)] show "rh_client (resetClient c s) = Some p \<and> connecting (resetClient c s) p"
    by (simp add: reset_client)
next
  fix c' assume "c' < rh_built (resetClient c s)"
  then have c': "client_ok s c'" using service_okD(2) [OF ok] by simp
  show "client_ok (resetClient c s) c'"
  proof (cases "connecting s c'")
    case True
    with connecting_current [OF c'] c have "rh_client s = Some c'" "c' \<noteq> c" "rh_connectPromise s = Some c'" by auto
    with c' True show ?thesis unfolding client_ok_def reset_sel by (simp add: resetClient_def)
  next
    case False
    with c' show ?thesis unfolding client_ok_def reset_sel by (auto simp: resetClient_def Let_def)
  qed
qed (use service_okD(1) [OF ok] in \<open>auto simp: reset_client split: if_splits\<close>)

text \<open>The service after a check found no usable client and began to connect a new one.\<close>

definition fresh_connection :: "jsstr \<Rightarrow> RedisHealthCheckService \<Rightarrow> RedisHealthCheckService" where
  "fresh_connection redisUrl s =
     s\<lparr>rh_client := Some (rh_built s), rh_connectPromise := Some (rh_built s), rh_built := Suc (rh_built s),
       rh_options := (rh_options s)(rh_built s := createHealthRedisConnectionOptions redisUrl),
       rh_connected := (rh_connected s)(rh_built s := None),
       rh_status := (rh_status s)(rh_built s := Status_connecting)\<rparr>"

lemma fresh_ok:
  assumes ok: "service_ok s" and none: "rh_client s = None"
  shows "service_ok (fresh_connection redisUrl s)"
proof (rule service_okI)
  fix c assume "c < rh_built (fresh_connection redisUrl s)"
  then consider "c = rh_built s" | "c < rh_built s" by (auto simp: fresh_connection_def less_Suc_eq)
  then show "client_ok (fresh_connection redisUrl s) c"
  proof cases
    case 2
    then have c: "client_ok s c" by (rule service_okD(2) [OF ok])
    with none connecting_current have "\<not> connecting s c" by force
    with c 2 none show ?thesis by (simp add: client_ok_def connecting_def fresh_connection_def)
  qed (simp add: client_ok_def connecting_def fresh_connection_def createHealthRedisConnectionOptions_def)
qed (simp_all add: fresh_connection_def connecting_def)

lemma begin_fresh:
  assumes "rh_client s = None" and "rh_connectPromise s = None"
  shows "check_begin (Inr redisUrl) s = (Awaiting_Connection (rh_built s) (rh_built s), fresh_connection redisUrl s)"
  using assms
  by (simp add: check_begin_def getClient_def build_client_def connect_client_def fresh_connection_def Let_def
      createHealthRedisConnectionOptions_def)

text \<open>What a check does when it begins: it joins the current client, or replaces one whose connection is closed.\<close>

lemma begin_join:
  assumes ok: "service_ok s" and c: "rh_client s = Some c" "rh_status s c \<noteq> Status_end" "rh_status s c \<noteq> Status_close"
  shows "rh_status s c = Status_ready \<and> check_begin REDIS_URL s = (Awaiting_Pong c, s) \<or>
    connecting s c \<and> check_begin REDIS_URL s = (Awaiting_Connection c c, s)"
proof -
  have eq: "check_begin REDIS_URL s = connect_client c s"
    using c by (simp add: check_begin_def getClient_def Let_def)
  have ok_c: "client_ok s c" using service_okD(1,2) [OF ok] c(1) by blast
  show ?thesis
  proof (cases "connecting s c")
    case True
    with connecting_current [OF ok_c] eq show ?thesis by (auto simp: connect_client_def connecting_def)
  next
    case False
    with ok_c c have "rh_status s c = Status_ready" by (cases "rh_status s c") (auto simp: client_ok_def connecting_def)
    with eq show ?thesis by (simp add: connect_client_def)
  qed
qed

lemma begin_replace:
  assumes ok: "service_ok s" and c: "rh_client s = Some c" "rh_status s c = Status_end \<or> rh_status s c = Status_close"
  shows "service_ok (resetClient c s)" and "rh_client (resetClient c s) = None"
    and "check_begin REDIS_URL s = check_begin REDIS_URL (resetClient c s)"
proof -
  show "service_ok (resetClient c s)"
    using c(2) by (intro reset_ok [OF ok service_okD(1) [OF ok c(1)]]) (auto simp: connecting_def)
  show "rh_client (resetClient c s) = None" using c(1) by (simp add: reset_client)
  with c show "check_begin REDIS_URL s = check_begin REDIS_URL (resetClient c s)"
    by (simp add: check_begin_def getClient_def Let_def)
qed

lemma check_begin_cases:
  assumes ok: "service_ok s"
  obtains (ready) c where "rh_client s = Some c" "rh_status s c = Status_ready" "check_begin REDIS_URL s = (Awaiting_Pong c, s)"
  | (connecting) c where "rh_client s = Some c" "connecting s c" "check_begin REDIS_URL s = (Awaiting_Connection c c, s)"
  | (fresh) s1 redisUrl where "REDIS_URL = Inr redisUrl" "service_ok s1" "rh_client s1 = None" "rh_built s1 = rh_built s"
      "rh_connected s1 = rh_connected s"
      "check_begin REDIS_URL s = (Awaiting_Connection (rh_built s) (rh_built s), fresh_connection redisUrl s1)"
  | (unconfigured) s1 err where "REDIS_URL = Inl err" "service_ok s1" "rh_built s1 = rh_built s" "rh_connected s1 = rh_connected s"
      "check_begin REDIS_URL s = (Check_Failed err, s1)"
proof -
  have alone: thesis if s1: "service_ok s1" "rh_client s1 = None" "rh_built s1 = rh_built s" "rh_connected s1 = rh_connected s"
    "check_begin REDIS_URL s = check_begin REDIS_URL s1" for s1
  proof (cases REDIS_URL)
    case (Inl err)
    then have "check_begin REDIS_URL s1 = (Check_Failed err, s1)" using s1(2) by (simp add: check_begin_def getClient_def)
    with unconfigured [OF Inl s1(1,3,4)] s1(5) show thesis by simp
  next
    case (Inr redisUrl)
    with begin_fresh [OF s1(2) service_okD(4) [OF s1(1,2)], of redisUrl] fresh [OF Inr s1(1-4)] s1(3,5) show thesis by simp
  qed
  show thesis
  proof (cases "rh_client s")
    case None
    then show thesis by (intro alone [OF ok]) simp_all
  next
    case (Some c)
    show thesis
    proof (cases "rh_status s c = Status_end \<or> rh_status s c = Status_close")
      case True
      from begin_replace [OF ok Some True] show thesis by (intro alone [of "resetClient c s"]) simp_all
    next
      case False
      with begin_join [OF ok Some, of REDIS_URL] ready [OF Some] connecting [OF Some] show thesis by blast
    qed
  qed
qed

lemma begin_ok:
  assumes ok: "service_ok s" and eq: "check_begin REDIS_URL s = (k, s')"
  shows "service_ok s' \<and> check_ok s' k \<and> rh_built s \<le> rh_built s' \<and>
    (\<forall>c<rh_built s. rh_connected s c \<noteq> None \<longrightarrow> rh_connected s' c \<noteq> None)"
  using ok
proof (cases rule: check_begin_cases [where REDIS_URL = REDIS_URL])
  case (ready c)
  then have "client_ok s c" using service_okD(1,2) [OF ok] by blast
  with ready ok eq service_okD(1) [OF ok ready(1)] show ?thesis by (simp add: client_ok_def connecting_def)
next
  case (connecting c)
  with ok eq service_okD(1) [OF ok connecting(1)] show ?thesis by auto
next
  case (fresh s1 redisUrl)
  with eq fresh_ok [OF fresh(2,3), of redisUrl] show ?thesis by (simp add: fresh_connection_def)
next
  case (unconfigured s1 err)
  with eq show ?thesis by simp
qed

lemma move_sel [simp]:
  "rh_built (move_client c status s) = rh_built s" "rh_client (move_client c status s) = rh_client s"
  "rh_options (move_client c status s) = rh_options s" "rh_disconnected (move_client c status s) = rh_disconnected s"
  "rh_status (move_client c status s) = (rh_status s)(c := status)"
  by (simp_all add: move_client_def Let_def)

lemma move_connected:
  "rh_connected (move_client c status s) c' =
     (if c' = c \<and> rh_connected s c = None \<and> (status = Status_ready \<or> status = Status_close) then Some (status = Status_ready)
      else rh_connected s c')"
  by (simp add: move_client_def Let_def)

lemma move_promise:
  "rh_connectPromise (move_client c status s) =
     (if rh_connected s c = None \<and> (status = Status_ready \<or> status = Status_close) then None else rh_connectPromise s)"
  by (simp add: move_client_def Let_def)

lemma move_ok:
  assumes ok: "service_ok s" and c: "c < rh_built s" and move: "status \<in> set (client_moves (rh_options s c) (rh_status s c))"
  shows "service_ok (move_client c status s)"
proof (rule service_okI)
  have ok_c: "client_ok s c" by (rule service_okD(2) [OF ok c])
  fix c' assume "c' < rh_built (move_client c status s)"
  then have ok': "client_ok s c'" using service_okD(2) [OF ok] by simp
  show "client_ok (move_client c status s) c'"
  proof (cases "c' = c")
    case True
    with ok_c move show ?thesis
      by (cases "rh_status s c") (auto simp: client_ok_def connecting_def move_connected move_promise)
  next
    case False
    have "connecting s c' \<Longrightarrow> rh_connected s c \<noteq> None"
      using connecting_current [OF ok'] connecting_current [OF ok_c] ok_c False by (auto simp: client_ok_def)
    with ok' False show ?thesis by (auto simp: client_ok_def connecting_def move_connected move_promise)
  qed
next
  have ok_c: "client_ok s c" by (rule service_okD(2) [OF ok c])
  fix p assume p: "rh_connectPromise (move_client c status s) = Some p"
  then have current: "rh_client s = Some p" "connecting s p"
    using service_okD(3) [OF ok] by (auto simp: move_promise split: if_splits)
  have "connecting (move_client c status s) p"
  proof (cases "p = c")
    case True
    with current ok_c have "rh_connected s c = None" by (simp add: client_ok_def)
    with p True current(2) move show ?thesis by (auto simp: move_promise connecting_def split: if_splits)
  qed (use current in \<open>simp add: connecting_def\<close>)
  with current show "rh_client (move_client c status s) = Some p \<and> connecting (move_client c status s) p" by simp
qed (use service_okD(1) [OF ok] in simp)

lemma failed_ok:
  assumes "service_ok s" and "c < rh_built s" and "rh_connected s c \<noteq> None" and "check_failed c err s = (k, s')"
  shows "service_ok s' \<and> check_ok s' k \<and> rh_built s' = rh_built s \<and> rh_connected s' = rh_connected s"
proof -
  have "\<not> connecting s c" using service_okD(2) [OF assms(1,2)] assms(3) by (simp add: client_ok_def)
  with reset_ok [OF assms(1,2)] assms(4) show ?thesis by (auto simp: check_failed_def)
qed

lemma pool_at: "redis_pool_ok (s, ks) \<Longrightarrow> i < length ks \<Longrightarrow> check_ok s (ks ! i)"
  by simp

lemma pool_update:
  assumes "redis_pool_ok (s, ks)" and new: "service_ok s' \<and> check_ok s' k \<and> rh_built s \<le> rh_built s' \<and>
    (\<forall>c<rh_built s. rh_connected s c \<noteq> None \<longrightarrow> rh_connected s' c \<noteq> None)"
  shows "redis_pool_ok (s', ks @ [k])" and "redis_pool_ok (s', ks[i := k])"
proof -
  have "check_ok s' x" if "x \<in> set ks" for x
    using assms(1) that new by (intro check_ok_mono [of s x s']) auto
  then have "check_ok s' x" if "x \<in> insert k (set ks)" for x using that new by blast
  then show "redis_pool_ok (s', ks @ [k])" "redis_pool_ok (s', ks[i := k])"
    using new set_update_subset_insert [of ks i k] by auto
qed

lemma settled_check_ok:
  assumes "service_ok s" and "c < rh_built s" and "rh_connected s c \<noteq> None"
    and "connection_settled c result s = (k, s') \<or> pong_settled c result s = (k, s')"
  shows "service_ok s' \<and> check_ok s' k \<and> rh_built s \<le> rh_built s' \<and>
    (\<forall>c<rh_built s. rh_connected s c \<noteq> None \<longrightarrow> rh_connected s' c \<noteq> None)"
proof (cases result)
  case None
  with assms show ?thesis by (auto simp: connection_settled_def pong_settled_def)
next
  case (Some err)
  with assms(4) have "check_failed c err s = (k, s')" by (simp add: connection_settled_def pong_settled_def)
  from failed_ok [OF assms(1-3) this] show ?thesis by simp
qed

lemma redis_step_ok:
  assumes "redis_step REDIS_URL a b" and "redis_pool_ok a"
  shows "redis_pool_ok b"
  using assms
proof (induction rule: redis_step.induct)
  case (begin_check s k s' ks)
  then have "service_ok s" by simp
  from pool_update(1) [OF begin_check(2) begin_ok [OF this begin_check(1)]] show ?case .
next
  case (connection i ks c p s result k s')
  then have "service_ok s" "c < rh_built s" "rh_connected s c \<noteq> None" using pool_at [OF connection(5,1)] by simp_all
  from pool_update(2) [OF connection(5) settled_check_ok [OF this disjI1 [OF connection(4)]]] show ?case .
next
  case (pong i ks c result s k s')
  then have "service_ok s" "c < rh_built s" "rh_connected s c \<noteq> None" using pool_at [OF pong(4,1)] by simp_all
  from pool_update(2) [OF pong(4) settled_check_ok [OF this disjI2 [OF pong(3)]]] show ?case .
next
  case (client_move c s status ks)
  then have "service_ok (move_client c status s)" by (intro move_ok) simp_all
  moreover have "check_ok (move_client c status s) k" if "check_ok s k" for k
    using that by (rule check_ok_mono) (simp_all add: move_connected)
  ultimately show ?case using client_move(3) by simp
qed

lemma redis_reachable_ok: "(redis_step REDIS_URL)\<^sup>*\<^sup>* (new_redis_health, []) a \<Longrightarrow> redis_pool_ok a"
proof (induction rule: rtranclp_induct)
  case base
  show ?case by (simp add: service_ok_def new_redis_health_def)
qed (rule redis_step_ok)

section \<open>One check alone\<close>

lemma last_connection:
  assumes "rh_connected s p = Some (result = None)" and "connection_settled c result s = (k, s')"
  shows "redis_step REDIS_URL (s, ks @ [Awaiting_Connection c p]) (s', ks @ [k])"
  using redis_step.connection [of "length ks" "ks @ [Awaiting_Connection c p]" c p s result k s' REDIS_URL] assms by simp

lemma last_pong:
  assumes "pong_settled c result s = (k, s')"
  shows "redis_step REDIS_URL (s, ks @ [Awaiting_Pong c]) (s', ks @ [k])"
  using redis_step.pong [of "length ks" "ks @ [Awaiting_Pong c]" c result s k s' REDIS_URL] assms by simp

lemma connection_made_run:
  assumes "c < rh_built s" and "connecting s c" and "rh_connected s c = None"
  shows "(redis_step REDIS_URL)\<^sup>*\<^sup>* (s, ks) (connection_made c s, ks)" and "rh_connected (connection_made c s) c = Some True"
    and "rh_client (connection_made c s) = rh_client s" and "rh_status (connection_made c s) c = Status_ready"
proof -
  let ?s = "if rh_status s c = Status_connecting then move_client c Status_connect s else s"
  have "(redis_step REDIS_URL)\<^sup>*\<^sup>* (s, ks) (?s, ks)"
    using assms(1) by (auto intro!: r_into_rtranclp redis_step.client_move)
  also have "redis_step REDIS_URL (?s, ks) (connection_made c s, ks)"
    unfolding connection_made_def using assms(1,2) by (intro redis_step.client_move) (auto simp: connecting_def)
  finally show "(redis_step REDIS_URL)\<^sup>*\<^sup>* (s, ks) (connection_made c s, ks)" .
qed (use assms(3) in \<open>simp_all add: connection_made_def move_connected\<close>)

lemma connection_refused_run:
  assumes "c < rh_built s" and "connecting s c" and "rh_connected s c = None"
  shows "redis_step REDIS_URL (s, ks) (move_client c Status_close s, ks)"
    and "rh_connected (move_client c Status_close s) c = Some False"
  using assms by (auto intro!: redis_step.client_move simp: connecting_def move_connected)

lemma failed_clears: "rh_client s = Some c \<Longrightarrow> check_failed c err s = (Check_Failed err, resetClient c s) \<and> rh_client (resetClient c s) = None"
  by (simp add: check_failed_def reset_client)

definition verdict :: "uval option \<Rightarrow> check_state" where
  "verdict r = (case r of None \<Rightarrow> Check_Passed | Some err \<Rightarrow> Check_Failed err)"

text \<open>The end of a check that has a ready client.\<close>

lemma pong_end:
  assumes "rh_client s = Some c" and "rh_status s c = Status_ready"
  obtains s' where "pong_settled c pongs s = (verdict pongs, s')"
    and "redis_step REDIS_URL (s, ks @ [Awaiting_Pong c]) (s', ks @ [verdict pongs])"
    and "if pongs = None then \<exists>c. rh_client s' = Some c \<and> rh_status s' c = Status_ready else rh_client s' = None"
proof (cases pongs)
  case None
  then have eq: "pong_settled c pongs s = (verdict pongs, s)" by (simp add: pong_settled_def verdict_def)
  from that [OF eq last_pong [OF eq]] assms None show thesis by auto
next
  case (Some err)
  then have eq: "pong_settled c pongs s = (verdict pongs, resetClient c s)" using failed_clears [OF assms(1)]
    by (simp add: pong_settled_def verdict_def)
  from that [OF eq last_pong [OF eq]] failed_clears [OF assms(1)] Some show thesis by auto
qed

lemma check_result_verdict [simp]: "check_result (verdict r) = r"
  by (cases r) (simp_all add: verdict_def check_result_def)

text \<open>The end of a check that awaits the connection of the current client.\<close>

lemma connection_end:
  assumes ok: "service_ok s" and c: "rh_client s = Some c" "connecting s c"
    and r: "r = (if connects = None then pongs else connects)"
  obtains k2 s2 s' where "await_connection connects (Awaiting_Connection c c) s = (k2, s2)" "await_pong pongs k2 s2 = (verdict r, s')"
    and "(redis_step REDIS_URL)\<^sup>*\<^sup>* (s, ks @ [Awaiting_Connection c c]) (s', ks @ [verdict r])"
    and "if r = None then \<exists>c. rh_client s' = Some c \<and> rh_status s' c = Status_ready else rh_client s' = None"
proof -
  have built: "c < rh_built s" by (rule service_okD(1) [OF ok c(1)])
  have none: "rh_connected s c = None" using service_okD(2) [OF ok built] c(2) by (simp add: client_ok_def)
  show thesis
  proof (cases connects)
    case None
    let ?s = "connection_made c s"
    note made = connection_made_run [OF built c(2) none]
    have settled: "connection_settled c None ?s = (Awaiting_Pong c, ?s)" by (simp add: connection_settled_def)
    then have step: "redis_step REDIS_URL (?s, ks @ [Awaiting_Connection c c]) (?s, ks @ [Awaiting_Pong c])"
      using made(2) by (intro last_connection) simp_all
    obtain s2 where s2: "pong_settled c pongs ?s = (verdict pongs, s2)"
      "redis_step REDIS_URL (?s, ks @ [Awaiting_Pong c]) (s2, ks @ [verdict pongs])"
      "if pongs = None then \<exists>c. rh_client s2 = Some c \<and> rh_status s2 c = Status_ready else rh_client s2 = None"
      by (rule pong_end [of ?s c]) (use made(3,4) c in simp_all)
    have "(redis_step REDIS_URL)\<^sup>*\<^sup>* (s, ks @ [Awaiting_Connection c c]) (s2, ks @ [verdict pongs])"
      using made(1) step s2(2) by (meson rtranclp.rtrancl_into_rtrancl)
    with that [of "Awaiting_Pong c" ?s s2] s2 None settled r show thesis by (simp add: await_connection_def await_pong_def)
  next
    case (Some err)
    let ?s = "move_client c Status_close s"
    note refused = connection_refused_run [OF built c(2) none]
    have client: "rh_client ?s = Some c" using c by simp
    have settled: "connection_settled c connects ?s = (verdict connects, resetClient c ?s)"
      using failed_clears [OF client] Some by (simp add: connection_settled_def verdict_def)
    then have "redis_step REDIS_URL (?s, ks @ [Awaiting_Connection c c]) (resetClient c ?s, ks @ [verdict connects])"
      using refused(2) Some by (intro last_connection) simp_all
    then have "(redis_step REDIS_URL)\<^sup>*\<^sup>* (s, ks @ [Awaiting_Connection c c]) (resetClient c ?s, ks @ [verdict connects])"
      using refused(1) by (blast intro: converse_rtranclp_into_rtranclp)
    with that [of "verdict connects" "resetClient c ?s" "resetClient c ?s"] Some settled failed_clears [OF client] r show thesis
      by (simp add: await_connection_def await_pong_def verdict_def)
  qed
qed

lemma check_after_begin:
  assumes ok: "service_ok s1" and c: "rh_client s1 = Some c"
    and k: "rh_status s1 c = Status_ready \<and> k = Awaiting_Pong c \<or> connecting s1 c \<and> k = Awaiting_Connection c c"
    and begin_eq: "check_begin REDIS_URL s = (k, s1)"
    and r: "r = (if rh_status s1 c \<noteq> Status_ready \<and> connects \<noteq> None then connects else pongs)"
  shows "\<exists>s'. redis_check REDIS_URL connects pongs s = (r, s') \<and> (redis_step REDIS_URL)\<^sup>*\<^sup>* (s1, ks @ [k]) (s', ks @ [verdict r]) \<and>
    (if r = None then \<exists>c. rh_client s' = Some c \<and> rh_status s' c = Status_ready else rh_client s' = None)"
proof (cases "rh_status s1 c = Status_ready")
  case True
  with k have k': "k = Awaiting_Pong c" by (auto simp: connecting_def)
  obtain s2 where "pong_settled c pongs s1 = (verdict pongs, s2)"
    "redis_step REDIS_URL (s1, ks @ [Awaiting_Pong c]) (s2, ks @ [verdict pongs])"
    "if pongs = None then \<exists>c. rh_client s2 = Some c \<and> rh_status s2 c = Status_ready else rh_client s2 = None"
    by (rule pong_end [OF c True])
  with k' True r begin_eq show ?thesis
    by (intro exI [of _ s2]) (auto simp: redis_check_def await_connection_def await_pong_def)
next
  case False
  with k have k': "k = Awaiting_Connection c c" and con: "connecting s1 c" by auto
  have r': "r = (if connects = None then pongs else connects)" using r False by simp
  obtain k2 s2 s' where "await_connection connects (Awaiting_Connection c c) s1 = (k2, s2)" "await_pong pongs k2 s2 = (verdict r, s')"
    "(redis_step REDIS_URL)\<^sup>*\<^sup>* (s1, ks @ [Awaiting_Connection c c]) (s', ks @ [verdict r])"
    "if r = None then \<exists>c. rh_client s' = Some c \<and> rh_status s' c = Status_ready else rh_client s' = None"
    by (rule connection_end [OF ok c con r'])
  with k' begin_eq show ?thesis by (intro exI [of _ s']) (simp add: redis_check_def)
qed

lemma begin_current:
  assumes ok: "service_ok s"
  obtains k s1 c where "check_begin (Inr redisUrl) s = (k, s1)" and "service_ok s1" and "rh_client s1 = Some c"
    and "rh_status s1 c = Status_ready \<and> k = Awaiting_Pong c \<or> connecting s1 c \<and> k = Awaiting_Connection c c"
    and "rh_status s1 c = Status_ready \<longleftrightarrow> (\<exists>c. rh_client s = Some c \<and> rh_status s c = Status_ready)"
  using ok
proof (cases rule: check_begin_cases [where REDIS_URL = "Inr redisUrl"])
  case (ready c)
  show thesis by (rule that [OF ready(3) ok ready(1)]) (simp_all add: ready)
next
  case (connecting c)
  then have "rh_status s c \<noteq> Status_ready" by (auto simp: connecting_def)
  then show thesis by (intro that [OF connecting(3) ok connecting(1)]) (simp_all add: connecting)
next
  case (fresh s1 url)
  let ?n = "rh_built s" and ?s = "fresh_connection url s1"
  have new: "rh_client ?s = Some ?n" "rh_status ?s ?n = Status_connecting" using fresh(4) by (simp_all add: fresh_connection_def)
  have "\<not> (rh_client s = Some c \<and> rh_status s c = Status_ready)" for c
    using begin_join [OF ok, of c "Inr redisUrl"] fresh(6) by (auto simp: connecting_def)
  with new show thesis by (intro that [OF fresh(6) fresh_ok [OF fresh(2,3)] new(1)]) (simp_all add: connecting_def)
qed simp

text \<open>A check that runs alone, in a state in which other checks may be under way.\<close>

lemma redis_check_run:
  assumes ok: "service_ok s"
    and r: "r = (if connects \<noteq> None \<and> \<not> (\<exists>c. rh_client s = Some c \<and> rh_status s c = Status_ready) then connects else pongs)"
  shows "\<exists>s'. redis_check (Inr redisUrl) connects pongs s = (r, s') \<and>
    (redis_step (Inr redisUrl))\<^sup>*\<^sup>* (s, ks) (s', ks @ [verdict r]) \<and>
    (if r = None then \<exists>c. rh_client s' = Some c \<and> rh_status s' c = Status_ready else rh_client s' = None)"
proof -
  obtain k s1 c where begin_eq: "check_begin (Inr redisUrl) s = (k, s1)" and c: "service_ok s1" "rh_client s1 = Some c"
    "rh_status s1 c = Status_ready \<and> k = Awaiting_Pong c \<or> connecting s1 c \<and> k = Awaiting_Connection c c"
    "rh_status s1 c = Status_ready \<longleftrightarrow> (\<exists>c. rh_client s = Some c \<and> rh_status s c = Status_ready)"
    by (rule begin_current [OF ok])
  have "r = (if rh_status s1 c \<noteq> Status_ready \<and> connects \<noteq> None then connects else pongs)" unfolding r c(4) by (simp add: conj_commute)
  from check_after_begin [OF c(1-3) begin_eq this, of ks] obtain s' where s': "redis_check (Inr redisUrl) connects pongs s = (r, s')"
    "(redis_step (Inr redisUrl))\<^sup>*\<^sup>* (s1, ks @ [k]) (s', ks @ [verdict r])"
    "if r = None then \<exists>c. rh_client s' = Some c \<and> rh_status s' c = Status_ready else rh_client s' = None" by blast
  have "(redis_step (Inr redisUrl))\<^sup>*\<^sup>* (s, ks) (s', ks @ [verdict r])"
    by (rule converse_rtranclp_into_rtranclp [of "redis_step (Inr redisUrl)", OF redis_step.begin_check [OF begin_eq] s'(2)])
  with s'(1,3) show ?thesis by (intro exI [of _ s'] conjI)
qed

section \<open>Readiness\<close>

definition pg_up :: "pg_answers \<Rightarrow> bool" where
  "pg_up pg \<longleftrightarrow> pa_connect pg = None \<and> pa_set_timeout pg = None \<and> pa_select pg = None"

text \<open>
  The calls of a check of PostgreSQL: a client that was obtained is given back once, at the end, and is destroyed exactly when a
  query failed.
\<close>

lemma postgres_check_calls:
  "fst (postgres_check (Inr databaseUrl) pg s) =
     (case pa_connect pg of
        Some err \<Rightarrow> (Some err, [Pool_Connect])
      | None \<Rightarrow>
          (case pa_set_timeout pg of
             Some err \<Rightarrow> (Some err, [Pool_Connect, Client_Set_Timeout, Client_Release True])
           | None \<Rightarrow> (pa_select pg, [Pool_Connect, Client_Set_Timeout, Client_Select, Client_Release (pa_select pg \<noteq> None)])))"
  by (simp add: postgres_check_def getPool_def Let_def split: option.split)

lemma postgres_check_up: "fst (fst (postgres_check (Inr databaseUrl) pg s)) = None \<longleftrightarrow> pg_up pg"
  unfolding postgres_check_calls by (simp add: pg_up_def split: option.split)

lemma schema_keys:
  "(js ''NODE_ENV'', Joi_valid (map js [''development'', ''test'', ''production'']), Joi_default (U_String (js ''development'')))
     \<in> set envValidationSchema"
  "(js ''PORT'', Joi_port, Joi_default (U_Number 3000)) \<in> set envValidationSchema"
  "(js ''DATABASE_URL'', Joi_pattern database_url_pattern, Joi_required) \<in> set envValidationSchema"
  "(js ''REDIS_URL'', Joi_pattern redis_url_pattern, Joi_required) \<in> set envValidationSchema"
  "(js ''WEBHOOK_SECRET'', Joi_min 16, Joi_required) \<in> set envValidationSchema"
  "(js ''WEBHOOK_TIMESTAMP_TOLERANCE_SECONDS'', Joi_positive_integer, Joi_default (U_Number 300)) \<in> set envValidationSchema"
  "(js ''OUTBOX_DISPATCH_ENABLED'', Joi_boolean, Joi_default (U_Bool True)) \<in> set envValidationSchema"
  "(js ''OUTBOX_DISPATCH_INTERVAL_MS'', Joi_positive_integer, Joi_default (U_Number 1000)) \<in> set envValidationSchema"
  "(js ''OUTBOX_MAX_ATTEMPTS'', Joi_positive_integer, Joi_default (U_Number 10)) \<in> set envValidationSchema"
  "(js ''RATE_LIMIT_ENABLED'', Joi_boolean, Joi_default (U_Bool True)) \<in> set envValidationSchema"
  "(js ''RATE_LIMIT_TTL_SECONDS'', Joi_positive_integer, Joi_default (U_Number 60)) \<in> set envValidationSchema"
  "(js ''RATE_LIMIT_LIMIT'', Joi_positive_integer, Joi_default (U_Number 100)) \<in> set envValidationSchema"
  unfolding envValidationSchema_def list.set insert_iff by (simp_all only: simp_thms)

text \<open>The values of an environment that was accepted at start-up.\<close>

lemma accepted_strings:
  assumes "documented_joi validate" and "validate envValidationSchema environment = Inr cfg"
  shows "\<exists>s. cfg (js ''NODE_ENV'') = U_String s \<and> s \<in> set (map js [''development'', ''test'', ''production''])"
    and "\<exists>s. cfg (js ''DATABASE_URL'') = U_String s \<and> s \<noteq> [] \<and> database_url_pattern s"
    and "\<exists>s. cfg (js ''REDIS_URL'') = U_String s \<and> s \<noteq> [] \<and> redis_url_pattern s"
    and "\<exists>s. cfg (js ''WEBHOOK_SECRET'') = U_String s \<and> 16 \<le> length s"
  using joi_typed [OF assms schema_keys(1)] joi_typed [OF assms schema_keys(3)] joi_typed [OF assms schema_keys(4)]
    joi_typed [OF assms schema_keys(5)]
  by (auto split: uval.splits)

lemma accepted_numbers:
  assumes "documented_joi validate" and "validate envValidationSchema environment = Inr cfg"
  shows "\<exists>n. cfg (js ''PORT'') = U_Number n \<and> 0 \<le> n \<and> n \<le> 65535"
    and "\<exists>n. cfg (js ''WEBHOOK_TIMESTAMP_TOLERANCE_SECONDS'') = U_Number n \<and> 0 < n"
    and "\<exists>n. cfg (js ''OUTBOX_DISPATCH_INTERVAL_MS'') = U_Number n \<and> 0 < n"
    and "\<exists>n. cfg (js ''OUTBOX_MAX_ATTEMPTS'') = U_Number n \<and> 0 < n"
    and "\<exists>n. cfg (js ''RATE_LIMIT_TTL_SECONDS'') = U_Number n \<and> 0 < n"
    and "\<exists>n. cfg (js ''RATE_LIMIT_LIMIT'') = U_Number n \<and> 0 < n"
  using joi_typed [OF assms schema_keys(2)] joi_typed [OF assms schema_keys(6)] joi_typed [OF assms schema_keys(8)]
    joi_typed [OF assms schema_keys(9)] joi_typed [OF assms schema_keys(11)] joi_typed [OF assms schema_keys(12)]
  by (auto split: uval.splits)

lemma accepted_flags:
  assumes "documented_joi validate" and "validate envValidationSchema environment = Inr cfg"
  shows "\<exists>b. cfg (js ''OUTBOX_DISPATCH_ENABLED'') = U_Bool b" and "\<exists>b. cfg (js ''RATE_LIMIT_ENABLED'') = U_Bool b"
  using joi_typed [OF assms schema_keys(7)] joi_typed [OF assms schema_keys(10)] by (auto split: uval.splits)

lemma accepted_config:
  assumes "documented_joi validate" and "validate envValidationSchema environment = Inr cfg"
  shows "checkConfig cfg = None"
proof -
  have "cfg key \<noteq> U_Undefined \<and> cfg key \<noteq> U_Null \<and> cfg key \<noteq> U_String []" if "key \<in> set REQUIRED_CONFIG_KEYS" for key
  proof -
    have "[] \<notin> set (map js [''development'', ''test'', ''production''])" by (simp add: js_def)
    then show ?thesis
      using that accepted_strings [OF assms] accepted_numbers(1,2) [OF assms]
      unfolding REQUIRED_CONFIG_KEYS_def list.map list.set insert_iff empty_iff by fastforce
  qed
  then show ?thesis unfolding checkConfig_def Let_def by (simp add: filter_empty_conv)
qed

text \<open>The answer to a health request that is refused.\<close>

lemma unavailable_answer:
  fixes uuid store responseHeader requestHeader m ds
  defines "a \<equiv> handle_exception uuid store responseHeader requestHeader (service_unavailable m ds)"
  shows "ea_status a = 503" and "map_of (ea_body a) (js ''error'') = Some (JStr (js ''SERVICE_UNAVAILABLE''))"
    and "map_of (ea_body a) (js ''details'') = Some (JArr ds)"
proof -
  have "SAFE_ERROR_CODE_PATTERN (js ''SERVICE_UNAVAILABLE'')" by code_simp
  moreover have keys: "js ''message'' \<noteq> js ''error''" "js ''details'' \<noteq> js ''error''" "js ''details'' \<noteq> js ''message''"
    "js ''details'' \<noteq> js ''correlationId''" "js ''error'' \<noteq> js ''correlationId''" "js ''message'' \<noteq> js ''correlationId''" by code_simp+
  ultimately have own: "own_envelope (service_unavailable m ds) =
      Some [(js ''error'', JStr (js ''SERVICE_UNAVAILABLE'')), (js ''message'', JStr (js m)), (js ''details'', JArr ds)]"
    by (simp add: service_unavailable_def)
  then have body: "rv_body (resolve_exception (service_unavailable m ds)) =
      [(js ''error'', JStr (js ''SERVICE_UNAVAILABLE'')), (js ''message'', JStr (js m)), (js ''details'', JArr ds)]"
    by (cases rule: resolve_cases [of "service_unavailable m ds"]) simp_all
  show "ea_status a = 503" by (simp add: a_def handle_exception_def Let_def service_unavailable_def)
  show "map_of (ea_body a) (js ''error'') = Some (JStr (js ''SERVICE_UNAVAILABLE''))"
    "map_of (ea_body a) (js ''details'') = Some (JArr ds)"
    unfolding a_def handle_exception_def Let_def error_answer.simps body using keys by simp_all
qed

section \<open>Properties\<close>

text \<open>
  C34: The Redis check recovers from every outage.  In every state that overlapping checks, lost connections and failed pings can lead
  to, a check that runs passes exactly when its ping is answered and, unless a ready client is at hand, its connection is made; in particular
  the first check after Redis is back passes.  A failed check leaves no client behind, so that the next one connects anew; no check fails before
  Redis was asked; every client but the current one is disconnected, and after the shutdown all of them are.
\<close>

theorem redis_health_recovers:
  assumes "(redis_step (Inr redisUrl))\<^sup>*\<^sup>* (new_redis_health, []) (s, ks)"
    and "redis_check (Inr redisUrl) connects pongs s = (r, s')"
  shows "(redis_step (Inr redisUrl))\<^sup>*\<^sup>* (s, ks) (s', ks @ [verdict r]) \<and>
    (r = None \<longleftrightarrow> pongs = None \<and> (connects = None \<or> (\<exists>c. rh_client s = Some c \<and> rh_status s c = Status_ready))) \<and>
    (r \<noteq> None \<longrightarrow> rh_client s' = None) \<and> (\<forall>err. fst (check_begin (Inr redisUrl) s) \<noteq> Check_Failed err) \<and>
    (\<forall>c<rh_built s. rh_client s = Some c \<or> c \<in> set (rh_disconnected s)) \<and>
    (\<forall>c<rh_built s. c \<in> set (rh_disconnected (redis_destroy s)))"
proof -
  have ok: "service_ok s" using redis_reachable_ok [OF assms(1)] by simp
  let ?r = "if connects \<noteq> None \<and> \<not> (\<exists>c. rh_client s = Some c \<and> rh_status s c = Status_ready) then connects else pongs"
  from redis_check_run [OF ok refl, of redisUrl connects pongs ks] assms(2)
  have run: "(redis_step (Inr redisUrl))\<^sup>*\<^sup>* (s, ks) (s', ks @ [verdict r])" and r: "r = ?r"
    and left: "r \<noteq> None \<longrightarrow> rh_client s' = None" by auto
  have clients: "rh_client s = Some c \<or> c \<in> set (rh_disconnected s)" if "c < rh_built s" for c
    using service_okD(2) [OF ok that] by (simp add: client_ok_def)
  then have gone: "c \<in> set (rh_disconnected (redis_destroy s))" if "c < rh_built s" for c
    using clients [OF that] by (auto simp: redis_destroy_def Let_def split: option.split)
  obtain k s1 c where "check_begin (Inr redisUrl) s = (k, s1)" "k = Awaiting_Pong c \<or> k = Awaiting_Connection c c"
    by (rule begin_current [OF ok, of redisUrl]) blast
  then have "fst (check_begin (Inr redisUrl) s) \<noteq> Check_Failed err" for err by auto
  with run r left clients gone show ?thesis by auto
qed

text \<open>The second check of a history: Redis was down when the first one ran.\<close>

theorem redis_health_recovers_witness:
  "\<exists>s s'. fst (redis_check (Inr (js ''redis://h'')) (Some (js_error ''ECONNREFUSED'')) None new_redis_health) \<noteq> None \<and>
     redis_check (Inr (js ''redis://h'')) None None s = (None, s') \<and>
     (redis_step (Inr (js ''redis://h'')))\<^sup>*\<^sup>* (new_redis_health, []) (s', [verdict (Some (js_error ''ECONNREFUSED'')), Check_Passed])"
proof -
  let ?u = "js ''redis://h''" and ?e = "js_error ''ECONNREFUSED''"
  obtain s where s: "redis_check (Inr ?u) (Some ?e) None new_redis_health = (fst (redis_check (Inr ?u) (Some ?e) None new_redis_health), s)"
    by (metis surjective_pairing)
  from redis_health_recovers [OF rtranclp.rtrancl_refl s] have
    first: "(redis_step (Inr ?u))\<^sup>*\<^sup>* (new_redis_health, []) (s, [] @ [verdict (fst (redis_check (Inr ?u) (Some ?e) None new_redis_health))])"
    "fst (redis_check (Inr ?u) (Some ?e) None new_redis_health) \<noteq> None"
    by (simp_all add: new_redis_health_def)
  have e: "fst (redis_check (Inr ?u) (Some ?e) None new_redis_health) = Some ?e"
    by (simp add: redis_check_def check_begin_def getClient_def build_client_def new_redis_health_def connect_client_def
        createHealthRedisConnectionOptions_def await_connection_def await_pong_def connection_settled_def check_failed_def check_result_def Let_def)
  obtain r s' where s': "redis_check (Inr ?u) None None s = (r, s')" by (metis surjective_pairing)
  from redis_health_recovers [OF first(1) s'] have "r = None" "(redis_step (Inr ?u))\<^sup>*\<^sup>* (s, [verdict (Some ?e)]) (s', [verdict (Some ?e), verdict r])"
    by (auto simp: e)
  with first s' show ?thesis by (intro exI [of _ s] exI [of _ s']) (simp add: e verdict_def)
qed

text \<open>
  C35: Under an accepted environment the load balancer's endpoint answers ready exactly when PostgreSQL does, whatever the state of
  Redis, and the full check exactly when Redis answers as well; every refusal is a 503 that names the failed dependency.  A client of the PostgreSQL pool
  is given back by every check, and destroyed when a query failed.
\<close>

theorem readiness_exact:
  assumes "documented_joi validate" and "validate envValidationSchema environment = Inr cfg"
    and "getOrThrow cfg ''REDIS_URL'' = Inr redisUrl" and "(redis_step (Inr redisUrl))\<^sup>*\<^sup>* (new_redis_health, []) (hs_redis h, ks)"
    and "redis_up \<longleftrightarrow> dp_redis_pongs a = None \<and>
      (dp_redis_connects a = None \<or> (\<exists>c. rh_client (hs_redis h) = Some c \<and> rh_status (hs_redis h) c = Status_ready))"
  shows "fst (getServingReadiness now cfg a h) =
      (if pg_up (dp_pg a) then Inr (ready_response now [''config'', ''postgres''])
       else Inl (service_unavailable ''PostgreSQL readiness check failed.'' [JObj [(js ''dependency'', JStr (js ''postgres''))]])) \<and>
    fst (getReadiness now cfg a h) =
      (if pg_up (dp_pg a) \<and> redis_up then Inr (ready_response now [''config'', ''postgres'', ''redis''])
       else if pg_up (dp_pg a) then Inl (service_unavailable ''Redis readiness check failed.'' [JObj [(js ''dependency'', JStr (js ''redis''))]])
       else Inl (service_unavailable ''PostgreSQL readiness check failed.'' [JObj [(js ''dependency'', JStr (js ''postgres''))]])) \<and>
    (\<forall>m dependency. ea_status (handle_exception uuid store responseHeader requestHeader (service_unavailable m [dependency])) = 503 \<and>
       map_of (ea_body (handle_exception uuid store responseHeader requestHeader (service_unavailable m [dependency]))) (js ''details'') =
         Some (JArr [dependency])) \<and>
    (\<forall>databaseUrl pg p. pa_connect pg = None \<longrightarrow>
       (\<exists>calls. snd (fst (postgres_check (Inr databaseUrl) pg p)) = calls @ [Client_Release (\<not> pg_up pg)] \<and>
          (\<forall>b. Client_Release b \<notin> set calls)))"
proof -
  have cfg: "checkConfig cfg = None" by (rule accepted_config [OF assms(1,2)])
  obtain databaseUrl where url: "getOrThrow cfg ''DATABASE_URL'' = Inr databaseUrl"
    using accepted_strings(2) [OF assms(1,2)] by (auto simp: getOrThrow_def)
  have ok: "service_ok (hs_redis h)" using redis_reachable_ok [OF assms(4)] by simp
  obtain pg calls p where p: "postgres_check (Inr databaseUrl) (dp_pg a) (hs_postgres h) = ((pg, calls), p)"
    by (metis surjective_pairing)
  then have up: "pg = None \<longleftrightarrow> pg_up (dp_pg a)" using postgres_check_up [of databaseUrl "dp_pg a" "hs_postgres h"] by simp
  obtain r s where r: "redis_check (Inr redisUrl) (dp_redis_connects a) (dp_redis_pongs a) (hs_redis h) = (r, s)"
    by (metis surjective_pairing)
  then have "r = None \<longleftrightarrow> redis_up" using redis_check_run [OF ok refl, of redisUrl "dp_redis_connects a" "dp_redis_pongs a" ks] assms(5)
    by auto
  then have redis: "fst (getReadiness now cfg a h) =
      (if pg_up (dp_pg a) \<and> redis_up then Inr (ready_response now [''config'', ''postgres'', ''redis''])
       else if pg_up (dp_pg a) then Inl (service_unavailable ''Redis readiness check failed.'' [JObj [(js ''dependency'', JStr (js ''redis''))]])
       else Inl (service_unavailable ''PostgreSQL readiness check failed.'' [JObj [(js ''dependency'', JStr (js ''postgres''))]]))"
    using up p r by (cases pg; cases r) (simp_all add: getReadiness_def cfg url assms(3) checkPostgres_def checkRedis_def Let_def)
  have serving: "fst (getServingReadiness now cfg a h) =
      (if pg_up (dp_pg a) then Inr (ready_response now [''config'', ''postgres''])
       else Inl (service_unavailable ''PostgreSQL readiness check failed.'' [JObj [(js ''dependency'', JStr (js ''postgres''))]]))"
    using up p by (cases pg) (simp_all add: getServingReadiness_def cfg url checkPostgres_def Let_def)
  have "\<exists>calls. snd (fst (postgres_check (Inr u) q p)) = calls @ [Client_Release (\<not> pg_up q)] \<and> (\<forall>b. Client_Release b \<notin> set calls)"
    if "pa_connect q = None" for u q p
    using that unfolding postgres_check_calls pg_up_def
    by (cases "pa_set_timeout q") (auto intro: exI [of _ "[Pool_Connect, Client_Set_Timeout, Client_Select]"])
  with redis serving unavailable_answer(1,3) show ?thesis by blast
qed

text \<open>A validator that converts nothing, and an environment that it accepts.\<close>

definition sample_defaults :: "joi_schema \<Rightarrow> config \<Rightarrow> config" where
  "sample_defaults schema environment key =
     (if environment key \<noteq> U_Undefined then environment key
      else (case map_of schema key of Some (t, Joi_default v) \<Rightarrow> v | _ \<Rightarrow> U_Undefined))"

definition sample_validate :: "joi_schema \<Rightarrow> config \<Rightarrow> jsstr list + config" where
  "sample_validate schema environment =
     (if distinct (map fst schema) \<and>
        list_all (\<lambda>(k, t, p). if environment k = U_Undefined then p \<noteq> Joi_required else joi_value t (environment k)) schema
      then Inr (sample_defaults schema environment) else Inl [js ''invalid''])"

definition sample_environment :: config where
  "sample_environment key =
     (case map_of [(js ''DATABASE_URL'', U_String (js ''postgres://h/db'')), (js ''REDIS_URL'', U_String (js ''redis://h'')),
         (js ''WEBHOOK_SECRET'', U_String (js ''0123456789abcdef''))] key of
        Some v \<Rightarrow> v | None \<Rightarrow> U_Undefined)"

lemma sample_documented: "documented_joi sample_validate"
proof -
  have "if environment k = U_Undefined
      then (case p of Joi_required \<Rightarrow> False | Joi_default v \<Rightarrow> cfg k = v | Joi_optional \<Rightarrow> cfg k = U_Undefined) else joi_value t (cfg k)"
    if "sample_validate schema environment = Inr cfg" "(k, t, p) \<in> set schema" for schema environment cfg k t p
  proof -
    from that have d: "distinct (map fst schema)" and cfg: "cfg = sample_defaults schema environment"
      and ok: "if environment k = U_Undefined then p \<noteq> Joi_required else joi_value t (environment k)"
      by (auto simp: sample_validate_def list_all_iff split: if_splits)
    from map_of_is_SomeI [OF d that(2)] ok show ?thesis by (cases p) (auto simp: cfg sample_defaults_def split: if_splits)
  qed
  then show ?thesis unfolding documented_joi_def by blast
qed

lemma sample_accepted:
  "sample_validate envValidationSchema sample_environment = Inr (sample_defaults envValidationSchema sample_environment)"
proof -
  have "distinct (map fst envValidationSchema)" by code_simp
  moreover have "list_all (\<lambda>(k, t, p). if sample_environment k = U_Undefined then p \<noteq> Joi_required
      else joi_value t (sample_environment k)) envValidationSchema" by code_simp
  ultimately show ?thesis by (simp add: sample_validate_def)
qed

theorem readiness_exact_witness:
  "fst (getServingReadiness 7 (sample_defaults envValidationSchema sample_environment)
       \<lparr>dp_pg = \<lparr>pa_connect = None, pa_set_timeout = None, pa_select = None\<rparr>,
        dp_redis_connects = Some (js_error ''ECONNREFUSED''), dp_redis_pongs = None\<rparr>
       \<lparr>hs_postgres = new_postgres_health, hs_redis = new_redis_health\<rparr>) = Inr (ready_response 7 [''config'', ''postgres'']) \<and>
   (\<exists>err. fst (getReadiness 7 (sample_defaults envValidationSchema sample_environment)
       \<lparr>dp_pg = \<lparr>pa_connect = None, pa_set_timeout = None, pa_select = None\<rparr>,
        dp_redis_connects = Some (js_error ''ECONNREFUSED''), dp_redis_pongs = None\<rparr>
       \<lparr>hs_postgres = new_postgres_health, hs_redis = new_redis_health\<rparr>) = Inl err)"
proof -
  have url: "getOrThrow (sample_defaults envValidationSchema sample_environment) ''REDIS_URL'' = Inr (js ''redis://h'')" by code_simp
  show ?thesis
    using readiness_exact [OF sample_documented sample_accepted url, of
      "\<lparr>hs_postgres = new_postgres_health, hs_redis = new_redis_health\<rparr>" "[]" False
      "\<lparr>dp_pg = \<lparr>pa_connect = None, pa_set_timeout = None, pa_select = None\<rparr>,
        dp_redis_connects = Some (js_error ''ECONNREFUSED''), dp_redis_pongs = None\<rparr>" 7]
    by (simp add: pg_up_def new_redis_health_def)
qed

end
