(* ===== verification/Api_Docs.thy ===== *)
theory Api_Docs
  imports Payment_Intents Webhook_Acceptance Health
begin

text \<open>
  The documented HTTP interface: the response classes \<open>PaymentIntentResponseDto\<close>, \<open>WebhookAcceptanceResponseDto\<close>, those of
  \<open>src/health/dto/health-response.dto.ts\<close> and \<open>ErrorResponseDto\<close>, as schemas for JSON values, and the responses that the controllers
  document for each operation.  The bodies that the operations answer with are given as JSON values here as well.  \<open>Http_Api\<close> shows that
  the answers are as documented.
\<close>

section \<open>Schemas\<close>

text \<open>A property of an object has a name, says whether it is required, and has a schema of its own.\<close>

datatype schema =
    S_String
  | S_Enum "string list"
  | S_Integer
  | S_Nullable schema
  | S_Array schema
  | S_Object "(string \<times> bool \<times> schema) list"

text \<open>An object conforms when it has the required properties and no undocumented or repeated ones.\<close>

function conforms :: "schema \<Rightarrow> json \<Rightarrow> bool" where
  "conforms S_String v \<longleftrightarrow> (case v of JStr s \<Rightarrow> True | _ \<Rightarrow> False)"
| "conforms (S_Enum labels) v \<longleftrightarrow> (case v of JStr s \<Rightarrow> s \<in> set (map js labels) | _ \<Rightarrow> False)"
| "conforms S_Integer v \<longleftrightarrow> (case v of JNum n \<Rightarrow> True | _ \<Rightarrow> False)"
| "conforms (S_Nullable s) v \<longleftrightarrow> v = JNull \<or> conforms s v"
| "conforms (S_Array s) v \<longleftrightarrow> (case v of JArr vs \<Rightarrow> list_all (conforms s) vs | _ \<Rightarrow> False)"
| "conforms (S_Object ps) v \<longleftrightarrow>
     (case v of
        JObj es \<Rightarrow>
          distinct (map fst es) \<and> list_all (\<lambda>e. fst e \<in> set (map (js \<circ> fst) ps)) es \<and>
          list_all (\<lambda>p. case map_of es (js (fst p)) of None \<Rightarrow> \<not> fst (snd p) | Some x \<Rightarrow> conforms (snd (snd p)) x) ps
      | _ \<Rightarrow> False)"
  by pat_completeness auto
termination
proof (relation "measure (size \<circ> fst)")
  fix ps :: "(string \<times> bool \<times> schema) list" and v es p x
  assume "p \<in> set ps"
  then have "size (snd (snd p)) < Suc (size_list (\<lambda>q. Suc (Suc (size (snd (snd q))))) ps)"
    by (induction ps) auto
  then show "((snd (snd p), x), S_Object ps, v) \<in> measure (size \<circ> fst)" by (simp add: size_prod_simp)
qed auto

section \<open>Response classes\<close>

definition PaymentIntentResponseDto :: schema where
  "PaymentIntentResponseDto = S_Object
     [(''id'', True, S_String),
      (''status'', True, S_Enum [''CREATED'', ''PROCESSING'', ''CONFIRMED'', ''FAILED'', ''EXPIRED'']),
      (''amount'', True, S_String), (''asset'', True, S_String), (''destination'', True, S_String),
      (''reference'', True, S_Nullable S_String), (''clientRequestId'', True, S_Nullable S_String),
      (''confirmedTxHash'', True, S_Nullable S_String), (''createdAt'', True, S_String), (''updatedAt'', True, S_String)]"

definition WebhookAcceptanceResponseDto :: schema where
  "WebhookAcceptanceResponseDto = S_Object
     [(''eventId'', True, S_String), (''status'', True, S_Enum [''ACCEPTED'', ''ALREADY_ACCEPTED''])]"

definition LivenessResponseDto :: schema where
  "LivenessResponseDto = S_Object
     [(''status'', True, S_Enum [''ok'']), (''timestamp'', True, S_String), (''uptimeSeconds'', True, S_Integer)]"

definition ServingReadinessChecksDto :: "(string \<times> bool \<times> schema) list" where
  "ServingReadinessChecksDto = [(''config'', True, S_Enum [''ok'']), (''postgres'', True, S_Enum [''ok''])]"

definition ReadinessChecksDto :: "(string \<times> bool \<times> schema) list" where
  "ReadinessChecksDto = ServingReadinessChecksDto @ [(''redis'', True, S_Enum [''ok''])]"

definition ReadinessResponseDto :: schema where
  "ReadinessResponseDto = S_Object
     [(''status'', True, S_Enum [''ready'']), (''timestamp'', True, S_String), (''checks'', True, S_Object ReadinessChecksDto)]"

definition ServingReadinessResponseDto :: schema where
  "ServingReadinessResponseDto = S_Object
     [(''status'', True, S_Enum [''ready'']), (''timestamp'', True, S_String), (''checks'', True, S_Object ServingReadinessChecksDto)]"

definition ErrorDetailDto :: schema where
  "ErrorDetailDto = S_Object [(''field'', False, S_String), (''message'', False, S_String), (''dependency'', False, S_String)]"

definition ErrorResponseDto :: schema where
  "ErrorResponseDto = S_Object
     [(''error'', True, S_String), (''message'', True, S_String), (''details'', False, S_Array ErrorDetailDto),
      (''correlationId'', True, S_String)]"

section \<open>Documented responses\<close>

record response_doc =
  rd_status :: nat
  rd_schema :: schema
  rd_headers :: "string list"

definition ApiErrorResponses :: "nat list \<Rightarrow> response_doc list" where
  "ApiErrorResponses statuses =
     map (\<lambda>status. \<lparr>rd_status = status, rd_schema = ErrorResponseDto,
       rd_headers = (if status = 429 then [''Retry-After''] else [])\<rparr>) statuses"

datatype operation =
    Op_getLiveness | Op_getReadiness | Op_getServingReadiness | Op_createPaymentIntent | Op_getPaymentIntent | Op_acceptBlockchainWebhook

fun health_docs :: "operation \<Rightarrow> response_doc list" where
  "health_docs Op_getLiveness = [\<lparr>rd_status = 200, rd_schema = LivenessResponseDto, rd_headers = []\<rparr>]"
| "health_docs Op_getReadiness = \<lparr>rd_status = 200, rd_schema = ReadinessResponseDto, rd_headers = []\<rparr> # ApiErrorResponses [503]"
| "health_docs Op_getServingReadiness =
     \<lparr>rd_status = 200, rd_schema = ServingReadinessResponseDto, rd_headers = []\<rparr> # ApiErrorResponses [503]"
| "health_docs _ = []"

definition create_payment_intent_docs :: "response_doc list" where
  "create_payment_intent_docs =
     [\<lparr>rd_status = 201, rd_schema = PaymentIntentResponseDto, rd_headers = []\<rparr>,
      \<lparr>rd_status = 200, rd_schema = PaymentIntentResponseDto, rd_headers = [''Idempotent-Replayed'']\<rparr>]
     @ ApiErrorResponses [400, 409, 413, 415, 429, 503]"

definition get_payment_intent_docs :: "response_doc list" where
  "get_payment_intent_docs =
     \<lparr>rd_status = 200, rd_schema = PaymentIntentResponseDto, rd_headers = []\<rparr> # ApiErrorResponses [400, 404, 429, 503]"

definition accept_webhook_docs :: "response_doc list" where
  "accept_webhook_docs =
     \<lparr>rd_status = 202, rd_schema = WebhookAcceptanceResponseDto, rd_headers = []\<rparr>
     # ApiErrorResponses [400, 401, 409, 413, 415, 429, 503]"

fun operation_docs :: "operation \<Rightarrow> response_doc list" where
  "operation_docs Op_createPaymentIntent = create_payment_intent_docs"
| "operation_docs Op_getPaymentIntent = get_payment_intent_docs"
| "operation_docs Op_acceptBlockchainWebhook = accept_webhook_docs"
| "operation_docs op = health_docs op"

section \<open>Bodies\<close>

text \<open>\<open>iso_date\<close> is \<open>Date.prototype.toISOString\<close>.\<close>

definition payment_intent_body :: "(time \<Rightarrow> jsstr) \<Rightarrow> PaymentIntentResponse \<Rightarrow> json" where
  "payment_intent_body iso_date r = JObj
     [(js ''id'', JStr (pr_id r)), (js ''status'', JStr (payment_intent_status_text (pr_status r))), (js ''amount'', JStr (pr_amount r)),
      (js ''asset'', JStr (pr_asset r)), (js ''destination'', JStr (pr_destination r)), (js ''reference'', string_or_null (pr_reference r)),
      (js ''clientRequestId'', string_or_null (pr_clientRequestId r)), (js ''confirmedTxHash'', string_or_null (pr_confirmedTxHash r)),
      (js ''createdAt'', JStr (iso_date (pr_createdAt r))), (js ''updatedAt'', JStr (iso_date (pr_updatedAt r)))]"

definition acceptance_body :: "WebhookAcceptanceResponse \<Rightarrow> json" where
  "acceptance_body r = JObj [(js ''eventId'', JStr (ar_eventId r)), (js ''status'', JStr (acceptance_status_text (ar_status r)))]"

definition liveness_body :: "(time \<Rightarrow> jsstr) \<Rightarrow> LivenessResponse \<Rightarrow> json" where
  "liveness_body iso_date r = JObj
     [(js ''status'', JStr (lr_status r)), (js ''timestamp'', JStr (iso_date (lr_timestamp r))),
      (js ''uptimeSeconds'', JNum (int_string (lr_uptimeSeconds r)))]"

definition readiness_body :: "(time \<Rightarrow> jsstr) \<Rightarrow> ReadinessResponse \<Rightarrow> json" where
  "readiness_body iso_date r = JObj
     [(js ''status'', JStr (rr_status r)), (js ''timestamp'', JStr (iso_date (rr_timestamp r))),
      (js ''checks'', JObj (map (\<lambda>(k, v). (k, JStr v)) (rr_checks r)))]"

section \<open>Facts\<close>

lemma string_or_null_conforms: "conforms (S_Nullable S_String) (string_or_null s)"
  by (cases s) (simp_all add: string_or_null_def)

lemma payment_intent_conforms: "conforms PaymentIntentResponseDto (payment_intent_body iso_date r)"
proof -
  have "payment_intent_status_text (pr_status r) \<in> set (map js [''CREATED'', ''PROCESSING'', ''CONFIRMED'', ''FAILED'', ''EXPIRED''])"
    by (cases "pr_status r") simp_all
  then show ?thesis
    using string_or_null_conforms [of "pr_reference r"] string_or_null_conforms [of "pr_clientRequestId r"]
      string_or_null_conforms [of "pr_confirmedTxHash r"]
    by (simp add: PaymentIntentResponseDto_def payment_intent_body_def)
qed

lemma acceptance_conforms: "conforms WebhookAcceptanceResponseDto (acceptance_body r)"
  by (cases "ar_status r") (simp_all add: WebhookAcceptanceResponseDto_def acceptance_body_def)

lemma liveness_conforms: "conforms LivenessResponseDto (liveness_body iso_date (getLiveness now uptimeMs))"
  by (simp add: LivenessResponseDto_def liveness_body_def getLiveness_def)

lemma readiness_conforms:
  "conforms ReadinessResponseDto (readiness_body iso_date (ready_response now [''config'', ''postgres'', ''redis'']))"
  "conforms ServingReadinessResponseDto (readiness_body iso_date (ready_response now [''config'', ''postgres'']))"
  by (simp_all add: ReadinessResponseDto_def ServingReadinessResponseDto_def ReadinessChecksDto_def ServingReadinessChecksDto_def
      readiness_body_def ready_response_def)

end
