(* ===== verification/Http_Api.thy ===== *)
theory Http_Api
  imports Api_Docs
begin

text \<open>
  The API process as a function from requests to answers: the middleware, parsers, filter and pipe that \<open>configureHttpApp\<close>
  (\<open>src/common/bootstrap.ts\<close>) installs, the guard of \<open>src/app.module.ts\<close>, and the routes of the three controllers.

  A request passes the correlation middleware, the logging middleware, the body parsers, the body guard, the router, the throttler, the pipes and its
  handler, in this order; whatever is thrown on the way reaches the exception filter.  Express, Nest and its throttler are the parameter
  \<open>framework\<close>: the parsers, the matching of a path, the decision to throttle, the validation pipe, the UUID pipe and their
  exceptions.  \<open>service\<close> holds what the process is configured with, \<open>moment\<close> what the environment gives one request.
\<close>

section \<open>Requests and answers\<close>

record http_request =
  hq_method :: string
  hq_path :: jsstr
  hq_header :: "string \<Rightarrow> jsstr option"
  hq_content :: bytes

record http_answer =
  an_status :: nat
  an_headers :: "(jsstr \<times> jsstr) list"
  an_body :: json
  an_logs :: "log_event list"

record framework =
  fw_parse :: "nat \<Rightarrow> http_request \<Rightarrow> uval + bytes option \<times> json option"
  fw_match :: "string \<Rightarrow> string \<Rightarrow> http_request \<Rightarrow> (string \<Rightarrow> jsstr) option"
  fw_throttles :: "ThrottlerModuleOptions \<Rightarrow> http_request \<Rightarrow> bool"
  fw_validate :: "field_rule list \<Rightarrow> json option \<Rightarrow> validation_error list + (jsstr \<times> json) list"
  fw_isUUID :: "jsstr \<Rightarrow> bool"
  fw_toISOString :: "time \<Rightarrow> jsstr"
  fw_notFound :: "http_request \<Rightarrow> uval"
  fw_tooManyRequests :: uval

record service =
  sv_sha256 :: "bytes \<Rightarrow> bytes"
  sv_hmac :: "bytes \<Rightarrow> bytes \<Rightarrow> bytes"
  sv_validator :: validator_library
  sv_webhook :: webhook_config
  sv_config :: config
  sv_throttler :: ThrottlerModuleOptions

record moment =
  mo_uuid :: jsstr
  mo_requestUuid :: jsstr
  mo_startedAt :: int
  mo_now :: int
  mo_uptimeMs :: int
  mo_finishedAt :: int
  mo_env :: env
  mo_answers :: dependencies

record api_state =
  api_db :: db
  api_health :: HealthService

definition CORRELATION_ID_HEADER :: jsstr where
  "CORRELATION_ID_HEADER = js ''X-Correlation-ID''"

text \<open>\<open>'256kb'\<close> in bytes.\<close>

definition MAX_REQUEST_BODY_SIZE :: nat where
  "MAX_REQUEST_BODY_SIZE = 262144"

definition KEEP_ALIVE_TIMEOUT_MS :: nat where
  "KEEP_ALIVE_TIMEOUT_MS = 65000"

definition HEADERS_TIMEOUT_MS :: nat where
  "HEADERS_TIMEOUT_MS = 66000"

record http_server =
  ht_xPoweredBy :: bool
  ht_keepAliveTimeout :: nat
  ht_headersTimeout :: nat

definition configureHttpServer :: "http_server \<Rightarrow> http_server" where
  "configureHttpServer server =
     server\<lparr>ht_xPoweredBy := False, ht_keepAliveTimeout := KEEP_ALIVE_TIMEOUT_MS, ht_headersTimeout := HEADERS_TIMEOUT_MS\<rparr>"

section \<open>Routes\<close>

record route =
  rt_operation :: operation
  rt_method :: string
  rt_path :: string
  rt_skipThrottle :: bool

definition HealthController_routes :: "route list" where
  "HealthController_routes =
     [\<lparr>rt_operation = Op_getLiveness, rt_method = ''GET'', rt_path = ''health/live'', rt_skipThrottle = True\<rparr>,
      \<lparr>rt_operation = Op_getReadiness, rt_method = ''GET'', rt_path = ''health/ready'', rt_skipThrottle = True\<rparr>,
      \<lparr>rt_operation = Op_getServingReadiness, rt_method = ''GET'', rt_path = ''health/serving'', rt_skipThrottle = True\<rparr>]"

definition PaymentIntentsController_routes :: "route list" where
  "PaymentIntentsController_routes =
     [\<lparr>rt_operation = Op_createPaymentIntent, rt_method = ''POST'', rt_path = ''payment-intents'', rt_skipThrottle = False\<rparr>,
      \<lparr>rt_operation = Op_getPaymentIntent, rt_method = ''GET'', rt_path = ''payment-intents/:id'', rt_skipThrottle = False\<rparr>]"

definition WebhooksController_routes :: "route list" where
  "WebhooksController_routes =
     [\<lparr>rt_operation = Op_acceptBlockchainWebhook, rt_method = ''POST'', rt_path = ''webhooks/blockchain'', rt_skipThrottle = False\<rparr>]"

definition routes :: "route list" where
  "routes = HealthController_routes @ PaymentIntentsController_routes @ WebhooksController_routes"

text \<open>The first route that matches, with the parameters of its path.\<close>

definition find_route :: "framework \<Rightarrow> http_request \<Rightarrow> (route \<times> (string \<Rightarrow> jsstr)) option" where
  "find_route fw r = first_some (\<lambda>rt. map_option (Pair rt) (fw_match fw (rt_method rt) (rt_path rt) r)) routes"

section \<open>Handlers\<close>

text \<open>\<open>ThrottlerGuard\<close>, which is global and which the health controller skips.\<close>

definition throttler_guard :: "framework \<Rightarrow> service \<Rightarrow> route \<Rightarrow> http_request \<Rightarrow> uval option" where
  "throttler_guard fw sv rt r =
     (if rt_skipThrottle rt \<or> to_skipIf (sv_throttler sv) then None
      else if fw_throttles fw (sv_throttler sv) r then Some (fw_tooManyRequests fw)
      else None)"

text \<open>The static type of the validated body; a value of another shape would be a type error.\<close>

definition optional_string :: "json option \<Rightarrow> jsstr option option" where
  "optional_string v = (case v of None \<Rightarrow> Some None | Some (JStr s) \<Rightarrow> Some (Some s) | _ \<Rightarrow> None)"

definition payment_intent_dto :: "(jsstr \<times> json) list \<Rightarrow> CreatePaymentIntentDto option" where
  "payment_intent_dto es =
     (case (map_of es (js ''amount''), map_of es (js ''asset''), map_of es (js ''destination'')) of
        (Some (JStr amount), Some (JStr asset), Some (JStr destination)) \<Rightarrow>
          (case (optional_string (map_of es (js ''reference'')), optional_string (map_of es (js ''clientRequestId''))) of
             (Some reference, Some clientRequestId) \<Rightarrow>
               Some \<lparr>pd_amount = amount, pd_asset = asset, pd_destination = destination, pd_reference = reference,
                     pd_clientRequestId = clientRequestId, pd_metadata = map_of es (js ''metadata'')\<rparr>
           | _ \<Rightarrow> None)
      | _ \<Rightarrow> None)"

definition validation_pipe :: "framework \<Rightarrow> json option \<Rightarrow> uval + CreatePaymentIntentDto" where
  "validation_pipe fw body =
     (case fw_validate fw CreatePaymentIntentDto_rules body of
        Inl errors \<Rightarrow> Inl (createValidationException errors)
      | Inr es \<Rightarrow> (case payment_intent_dto es of None \<Rightarrow> Inl (js_error ''TypeError'') | Some dto \<Rightarrow> Inr dto))"

type_synonym handler = "api_state \<Rightarrow> (uval + json http_response) \<times> api_state"

definition json_response :: "nat \<Rightarrow> json \<Rightarrow> json http_response" where
  "json_response status body = \<lparr>res_status = status, res_headers = [], res_body = body\<rparr>"

definition run_createPaymentIntent :: "framework \<Rightarrow> service \<Rightarrow> moment \<Rightarrow> http_request \<Rightarrow> json option \<Rightarrow> handler" where
  "run_createPaymentIntent fw sv m r body st =
     (case validation_pipe fw body of
        Inl err \<Rightarrow> (Inl err, st)
      | Inr dto \<Rightarrow>
          (case create_payment_intent_endpoint (sv_sha256 sv) (hq_header r ''idempotency-key'') dto (mo_env m) (api_db st) of
             (Inl err, d) \<Rightarrow> (Inl err, st\<lparr>api_db := d\<rparr>)
           | (Inr response, d) \<Rightarrow>
               (Inr \<lparr>res_status = res_status response, res_headers = res_headers response,
                     res_body = payment_intent_body (fw_toISOString fw) (res_body response)\<rparr>, st\<lparr>api_db := d\<rparr>)))"

definition run_getPaymentIntent :: "framework \<Rightarrow> moment \<Rightarrow> (string \<Rightarrow> jsstr) \<Rightarrow> handler" where
  "run_getPaymentIntent fw m params st =
     (case get_payment_intent_endpoint (fw_isUUID fw) (params ''id'') (mo_env m) (api_db st) of
        Inl err \<Rightarrow> (Inl err, st)
      | Inr response \<Rightarrow> (Inr (json_response 200 (payment_intent_body (fw_toISOString fw) response)), st))"

definition run_acceptBlockchainWebhook ::
  "service \<Rightarrow> moment \<Rightarrow> RequestContext option \<Rightarrow> http_request \<Rightarrow> bytes option \<Rightarrow> json option \<Rightarrow> handler" where
  "run_acceptBlockchainWebhook sv m store r rawBody body st =
     (case accept_webhook_endpoint (sv_sha256 sv) (sv_hmac sv) (sv_validator sv) (sv_webhook sv) (getCorrelationId store) (mo_now m)
        \<lparr>wh_contentType = hq_header r ''content-type'', wh_timestamp = hq_header r ''x-webhook-timestamp'',
         wh_nonce = hq_header r ''x-webhook-nonce'', wh_signature = hq_header r ''x-webhook-signature''\<rparr>
        rawBody body (mo_env m) (api_db st) of
        (Inl err, d) \<Rightarrow> (Inl err, st\<lparr>api_db := d\<rparr>)
      | (Inr (status, response), d) \<Rightarrow> (Inr (json_response status (acceptance_body response)), st\<lparr>api_db := d\<rparr>))"

definition run_readiness ::
  "framework \<Rightarrow> (HealthService \<Rightarrow> (uval + ReadinessResponse) \<times> HealthService) \<Rightarrow> handler" where
  "run_readiness fw check st =
     (case check (api_health st) of
        (Inl err, h) \<Rightarrow> (Inl err, st\<lparr>api_health := h\<rparr>)
      | (Inr response, h) \<Rightarrow> (Inr (json_response 200 (readiness_body (fw_toISOString fw) response)), st\<lparr>api_health := h\<rparr>))"

fun run_operation ::
  "framework \<Rightarrow> service \<Rightarrow> moment \<Rightarrow> RequestContext option \<Rightarrow> http_request \<Rightarrow> bytes option \<Rightarrow> json option \<Rightarrow> operation \<Rightarrow>
   (string \<Rightarrow> jsstr) \<Rightarrow> handler" where
  "run_operation fw sv m store r rawBody body Op_getLiveness params st =
     (Inr (json_response 200 (liveness_body (fw_toISOString fw) (getLiveness (mo_now m) (mo_uptimeMs m)))), st)"
| "run_operation fw sv m store r rawBody body Op_getReadiness params st =
     run_readiness fw (getReadiness (mo_now m) (sv_config sv) (mo_answers m)) st"
| "run_operation fw sv m store r rawBody body Op_getServingReadiness params st =
     run_readiness fw (getServingReadiness (mo_now m) (sv_config sv) (mo_answers m)) st"
| "run_operation fw sv m store r rawBody body Op_createPaymentIntent params st = run_createPaymentIntent fw sv m r body st"
| "run_operation fw sv m store r rawBody body Op_getPaymentIntent params st = run_getPaymentIntent fw m params st"
| "run_operation fw sv m store r rawBody body Op_acceptBlockchainWebhook params st =
     run_acceptBlockchainWebhook sv m store r rawBody body st"

section \<open>The pipeline\<close>

text \<open>What follows the two middlewares of the context and the log.\<close>

definition request_pipeline :: "framework \<Rightarrow> service \<Rightarrow> moment \<Rightarrow> http_request \<Rightarrow> RequestContext option \<Rightarrow> handler" where
  "request_pipeline fw sv m r store st =
     (case fw_parse fw MAX_REQUEST_BODY_SIZE r of
        Inl err \<Rightarrow> (Inl err, st)
      | Inr (rawBody, body) \<Rightarrow>
          (case requestBodyGuardMiddleware body of
             Some err \<Rightarrow> (Inl err, st)
           | None \<Rightarrow>
               (case find_route fw r of
                  None \<Rightarrow> (Inl (fw_notFound fw r), st)
                | Some (rt, params) \<Rightarrow>
                    (case throttler_guard fw sv rt r of
                       Some err \<Rightarrow> (Inl err, st)
                     | None \<Rightarrow> run_operation fw sv m store r rawBody body (rt_operation rt) params st))))"

text \<open>The answer: a returned value as it is, a thrown one through the filter.\<close>

definition answer_of ::
  "moment \<Rightarrow> http_request \<Rightarrow> RequestContext option \<Rightarrow> jsstr \<Rightarrow> uval + json http_response \<Rightarrow> http_answer" where
  "answer_of m r store correlationId result =
     (case result of
        Inr response \<Rightarrow>
          \<lparr>an_status = res_status response, an_headers = (CORRELATION_ID_HEADER, correlationId) # res_headers response,
           an_body = res_body response, an_logs = []\<rparr>
      | Inl err \<Rightarrow>
          (let a = handle_exception (mo_uuid m) store (Some correlationId) (hq_header r ''x-correlation-id'') err
           in \<lparr>an_status = ea_status a, an_headers = [(CORRELATION_ID_HEADER, ea_header a)], an_body = JObj (ea_body a),
               an_logs = ea_logs a\<rparr>))"

definition handle_request :: "framework \<Rightarrow> service \<Rightarrow> moment \<Rightarrow> http_request \<Rightarrow> api_state \<Rightarrow> http_answer \<times> api_state" where
  "handle_request fw sv m r st =
     (case correlationIdMiddleware (mo_uuid m) (mo_requestUuid m) (mo_startedAt m) (hq_header r ''x-correlation-id'')
        (\<lambda>store. (store, request_pipeline fw sv m r store st)) of
        (correlationId, store, result, st') \<Rightarrow>
          let a = answer_of m r store correlationId result
          in (a\<lparr>an_logs := an_logs a @
                [httpRequestLoggingMiddleware (mo_startedAt m) store (mo_finishedAt m) (js (hq_method r)) (hq_path r)
                   (int (an_status a))]\<rparr>, st'))"

section \<open>Errors that can be answered\<close>

text \<open>
  An error can be answered with one of the statuses \<open>ss\<close> when the filter gives it such a status and a body that conforms to
  \<open>ErrorResponseDto\<close> once the correlation identifier is added.
\<close>

definition error_schema :: schema where
  "error_schema = S_Object
     [(''error'', True, S_String), (''message'', True, S_String), (''details'', False, S_Array ErrorDetailDto)]"

definition answerable :: "nat list \<Rightarrow> uval \<Rightarrow> bool" where
  "answerable ss err \<longleftrightarrow>
     rv_status (resolve_exception err) \<in> set ss \<and> conforms error_schema (JObj (rv_body (resolve_exception err)))"

lemma error_envelope_conforms:
  "conforms error_schema (JObj [(js ''error'', JStr code), (js ''message'', JStr m)])"
  "conforms error_schema (JObj [(js ''error'', JStr code), (js ''message'', JStr m), (js ''details'', JArr ds)]) \<longleftrightarrow>
     list_all (conforms ErrorDetailDto) ds"
  by (simp_all add: error_schema_def)

lemma error_response_conforms:
  assumes "conforms error_schema (JObj es)"
  shows "conforms ErrorResponseDto (JObj (put (js ''correlationId'') (JStr c) es))"
proof -
  from assms have keys: "fst ` set es \<subseteq> {js ''error'', js ''message'', js ''details''}" and "distinct (map fst es)"
    by (auto simp: error_schema_def list_all_iff)
  then have "distinct (map fst (put (js ''correlationId'') (JStr c) es))" by (simp add: distinct_put)
  moreover have "fst ` set (put (js ''correlationId'') (JStr c) es) \<subseteq> {js ''error'', js ''message'', js ''details'', js ''correlationId''}"
    using keys by (auto simp: keys_put)
  ultimately show ?thesis using assms by (auto simp: ErrorResponseDto_def error_schema_def list_all_iff image_subset_iff)
qed

lemma resolved_own: "own_envelope err = Some es \<Longrightarrow> rv_body (resolve_exception err) = es"
  by (cases err rule: own_envelope.cases) (auto split: if_splits)

lemma answerable_fixed:
  assumes "own_envelope err = None" and "rv_status (resolve_exception err) \<in> set ss"
  shows "answerable ss err"
  using assms by (cases rule: resolve_cases [of err]) (auto simp: answerable_def envelope_body_def error_envelope_conforms)

lemma answerable_own:
  assumes "status \<in> set ss" and "conforms error_schema (JObj es)"
  shows "answerable ss (U_Object (Class_Http status (JObj es)) ps)"
  using assms by (cases "isErrorEnvelope (JObj es)")
    (auto simp del: isErrorEnvelope.simps simp: answerable_def envelope_body_def error_envelope_conforms)

lemma answerable_http: "status \<in> set ss \<Longrightarrow> answerable ss (http_exception status code m)"
  unfolding http_exception_def by (intro answerable_own error_envelope_conforms)

text \<open>Errors of the database and of the program itself: no \<open>HttpException\<close>, and without a status of their own.\<close>

definition driver_error :: "uval \<Rightarrow> bool" where
  "driver_error err \<longleftrightarrow> \<not> is_http_exception err \<and> extractHttpErrorStatus err = None"

lemma answerable_driver: "driver_error err \<Longrightarrow> {400, 500, 503} \<subseteq> set ss \<Longrightarrow> answerable ss err"
proof -
  assume err: "driver_error err" and ss: "{400, 500, 503} \<subseteq> set ss"
  from err have "resolve_exception err = resolve_other err" "own_envelope err = None"
    by (cases err rule: resolve_exception.cases; simp add: driver_error_def)+
  moreover have "rv_status (resolve_other err) \<in> {400, 500, 503}"
    using err by (simp add: resolve_other_def driver_error_def split: option.split)
  ultimately show ?thesis using ss by (intro answerable_fixed) auto
qed

lemma driver_error_pg: "driver_error (pg_error code)"
  by (simp add: driver_error_def pg_error_def extractHttpErrorStatus_def)

lemma driver_error_js: "driver_error (js_error m)"
  by (simp add: driver_error_def js_error_def extractHttpErrorStatus_def)

lemma answerable_validation: "400 \<in> set ss \<Longrightarrow> answerable ss (createValidationException errors)"
  unfolding createValidationException_def
  by (intro answerable_own) (auto simp: error_envelope_conforms list_all_iff ErrorDetailDto_def)

lemma answerable_unavailable:
  assumes "503 \<in> set ss" and "list_all (conforms ErrorDetailDto) ds"
  shows "answerable ss (service_unavailable m ds)"
  unfolding service_unavailable_def using assms by (intro answerable_own) (simp_all add: error_envelope_conforms)

section \<open>Errors of transactions\<close>

text \<open>Every error that a program throws satisfies \<open>P\<close>, provided that those of the driver do.\<close>

definition raises :: "(uval \<Rightarrow> bool) \<Rightarrow> ('x, 'a) tx \<Rightarrow> bool" where
  "raises P p \<longleftrightarrow>
     (\<forall>e s err s'. (\<forall>n f. faults e n = Some f \<longrightarrow> P f) \<longrightarrow> p e s = (Inl err, s') \<longrightarrow> P err)"

named_theorems raises_intros \<open>the errors of programs\<close>

lemma raises_basic [raises_intros]:
  "raises P (tx_return x)" "raises P tx_clock" "raises P tx_uuid" "raises P (tx_ask f)"
  by (simp_all add: raises_def tx_run)

lemma raises_throw [raises_intros]: "P err \<Longrightarrow> raises P (tx_throw err)"
  by (simp add: raises_def tx_run)

lemma raisesI:
  assumes "\<And>e s err s'. \<forall>n f. faults e n = Some f \<longrightarrow> P f \<Longrightarrow> p e s = (Inl err, s') \<Longrightarrow> P err"
  shows "raises P p"
  using assms unfolding raises_def by blast

lemma raisesD:
  assumes "raises P p" and "\<forall>n f. faults e n = Some f \<longrightarrow> P f" and "p e s = (Inl err, s')"
  shows "P err"
  using assms unfolding raises_def by blast

lemma raises_bind [raises_intros]:
  assumes "raises P p" and "\<And>x. raises P (f x)"
  shows "raises P (tx_bind p f)"
proof (rule raisesI)
  fix e s err s'
  assume e: "\<forall>n f. faults e n = Some f \<longrightarrow> P f" and run: "tx_bind p f e s = (Inl err, s')"
  show "P err"
  proof (cases "p e s")
    case (Pair r s1)
    show ?thesis
    proof (cases r)
      case (Inl err1)
      from raisesD [OF assms(1) e, of s err1 s1] Pair Inl run show ?thesis by (simp add: tx_bind_def)
    next
      case (Inr y)
      from Pair Inr run have "f y e s1 = (Inl err, s')" by (simp add: tx_bind_def)
      from raisesD [OF assms(2) e this] show ?thesis by simp
    qed
  qed
qed

lemma raises_sql [raises_intros]: "P (pg_error ''25P02'') \<Longrightarrow> (\<And>d err. f d = Inl err \<Longrightarrow> P err) \<Longrightarrow> raises P (sql f)"
  unfolding raises_def sql_def Let_def by (auto split: if_splits option.splits sum.splits prod.splits)

lemma raises_query [raises_intros]: "P (pg_error ''25P02'') \<Longrightarrow> raises P (query f)"
  unfolding query_def by (rule raises_sql) simp_all

lemma raises_if [raises_intros]: "raises P p \<Longrightarrow> raises P q \<Longrightarrow> raises P (if b then p else q)"
  by simp

lemma raises_option [raises_intros]: "raises P p \<Longrightarrow> (\<And>x. raises P (q x)) \<Longrightarrow> raises P (case y of None \<Rightarrow> p | Some x \<Rightarrow> q x)"
  by (cases y) simp_all

text \<open>The driver as documented: its errors are no exceptions of Nest and carry no HTTP status.\<close>

definition documented_driver :: "env \<Rightarrow> bool" where
  "documented_driver e \<longleftrightarrow>
     (\<forall>n err. faults e n = Some err \<longrightarrow> driver_error err) \<and>
     (case commit e of Commit_Ok \<Rightarrow> True | Commit_Lost err \<Rightarrow> driver_error err | Commit_Unacknowledged err \<Rightarrow> driver_error err)"

lemma transaction_errors:
  assumes "raises P p" and "documented_driver e" and "\<And>err. driver_error err \<Longrightarrow> P err"
    and "db_transaction p e d = (Inl err, d')"
  shows "P err"
proof (cases "p e (new_session d ())")
  case (Pair r s)
  have *: "\<forall>n f. faults e n = Some f \<longrightarrow> P f" using assms(2,3) by (simp add: documented_driver_def)
  show ?thesis
  proof (cases r)
    case (Inl err')
    with Pair assms(1) * have "P err'" unfolding raises_def by blast
    with Pair Inl assms(4) show ?thesis by (simp add: db_transaction_def transaction_def)
  next
    case (Inr x)
    with Pair assms(2,3,4) show ?thesis
      by (auto simp: db_transaction_def transaction_def documented_driver_def split: if_splits commit_outcome.splits)
  qed
qed

lemma answerable_pg: "{400, 500, 503} \<subseteq> set ss \<Longrightarrow> answerable ss (pg_error code)"
  by (intro answerable_driver driver_error_pg)

lemma answerable_js: "{400, 500, 503} \<subseteq> set ss \<Longrightarrow> answerable ss (js_error m)"
  by (intro answerable_driver driver_error_js)

section \<open>Errors of the operations\<close>

lemma create_body_raises:
  assumes "{400, 409, 500, 503} \<subseteq> set ss"
  shows "raises (answerable ss) (create_payment_intent_body key h dto)"
proof -
  have ss: "{400, 500, 503} \<subseteq> set ss" "409 \<in> set ss" "503 \<in> set ss" using assms by auto
  have inserts: "answerable ss err" if "ir_insert_or_ignore row d = Inl err" for row d err
    using that by (auto simp: ir_insert_or_ignore_def answerable_pg [OF ss(1)] split: if_splits)
  have saves: "answerable ss err" if "ir_save row d = Inl err" for row d err
    using that by (auto simp: ir_save_def answerable_pg [OF ss(1)] split: if_splits)
  have stores: "answerable ss err" if "pi_insert numeric row d = Inl err" for numeric row d err
    using that by (auto simp: pi_insert_def answerable_pg [OF ss(1)] split: if_splits option.splits)
  show ?thesis
    unfolding create_payment_intent_body_def tryInsertIdempotencyRecord_def Payment_Intents.replayOrRejectConflict_def
      store_payment_intent_def
    by (auto intro!: raises_intros answerable_http answerable_pg [OF ss(1)] answerable_js [OF ss(1)] dest: inserts saves stores
        simp: ss(2,3) split: option.splits)
qed

lemma create_errors:
  assumes "{400, 409, 500, 503} \<subseteq> set ss" and "documented_driver e"
    and "create_payment_intent_endpoint sha256 key dto e d = (Inl err, d')"
  shows "answerable ss err"
proof (cases "validateIdempotencyKey key")
  case (Inl err')
  then have "answerable ss err'"
    using assms(1) by (auto simp: validateIdempotencyKey_def intro!: answerable_http split: option.splits if_splits)
  with Inl assms(3) show ?thesis by (simp add: create_payment_intent_endpoint_def)
next
  case (Inr k)
  with assms(3) have "db_transaction (create_payment_intent_body k (payment_digest sha256 dto) dto) e d = (Inl err, d')"
    by (auto simp: create_payment_intent_endpoint_def create_fst split: prod.splits sum.splits)
  then show ?thesis
    using assms(1) by (intro transaction_errors [OF create_body_raises [OF assms(1)] assms(2) answerable_driver]) auto
qed

lemma accept_body_raises:
  assumes "{400, 409, 500, 503} \<subseteq> set ss"
  shows "raises (answerable ss) (accept_webhook_body sha256 correlationId nonce payload h)"
proof -
  have ss: "{400, 500, 503} \<subseteq> set ss" "409 \<in> set ss" "503 \<in> set ss" using assms by auto
  have inserts: "answerable ss err" if "we_insert_or_ignore row d = Inl err" for row d err
    using that by (auto simp: we_insert_or_ignore_def answerable_pg [OF ss(1)] split: if_splits)
  have stores: "answerable ss err" if "ob_insert row d = Inl err" for row d err
    using that by (auto simp: ob_insert_def answerable_pg [OF ss(1)] split: if_splits)
  show ?thesis
    unfolding accept_webhook_body_def tryInsertWebhookEvent_def Webhook_Acceptance.replayOrRejectConflict_def insertOutboxEvent_def
      event_conflict_def nonce_replay_def
    by (auto intro!: raises_intros answerable_http answerable_pg [OF ss(1)] dest: inserts stores simp: ss(2,3) split: option.splits)
qed

lemma check_errors:
  assumes "{400, 401, 500, 503} \<subseteq> set ss" and "check_request hmac lib cfg now request = Inl err"
  shows "answerable ss err"
proof -
  have ss: "{400, 500, 503} \<subseteq> set ss" "400 \<in> set ss" "401 \<in> set ss" "503 \<in> set ss" using assms(1) by auto
  have "answerable ss err" if "validateHeaders headers = Inl err" for headers err
    using that by (auto simp: validateHeaders_def Let_def ss intro!: answerable_http split: if_splits)
  moreover have "answerable ss err" if "validateTimestamp cfg now t = Inl err" for t err
    using that by (auto simp: validateTimestamp_def ss intro!: answerable_http split: timestamp_result.splits)
  moreover have "answerable ss err" if "verifySignature hmac cfg headers raw = Inl err" for headers raw err
    using that by (auto simp: verifySignature_def ss intro!: answerable_http split: if_splits option.splits)
  moreover have "answerable ss err" if "validatePayload lib body = Inl err" for body err
    using that by (auto simp: validatePayload_def Let_def ss(2) answerable_js [OF ss(1)]
        intro!: answerable_http answerable_validation split: if_splits option.splits json.splits)
  ultimately show ?thesis using assms(2) unfolding check_request_def by (auto split: sum.splits)
qed

lemma accept_errors:
  assumes "{400, 401, 409, 500, 503} \<subseteq> set ss" and "documented_driver e"
    and "accept_webhook_endpoint sha256 hmac lib cfg correlationId now headers raw body e d = (Inl err, d')"
  shows "answerable ss err"
proof (cases raw)
  case None
  with assms(1,3) show ?thesis by (auto simp: accept_webhook_endpoint_def intro!: answerable_http)
next
  case (Some bytes)
  let ?request = "\<lparr>rq_headers = headers, rq_rawBody = bytes, rq_body = body\<rparr>"
  have ss: "{400, 401, 500, 503} \<subseteq> set ss" "{400, 409, 500, 503} \<subseteq> set ss" "{400, 500, 503} \<subseteq> set ss" using assms(1) by auto
  show ?thesis
  proof (cases "check_request hmac lib cfg now ?request")
    case (Inl err')
    with Some assms(3) have "err = err'" by (auto simp: accept_webhook_endpoint_def acceptBlockchainWebhook_def)
    with check_errors [OF ss(1) Inl] show ?thesis by simp
  next
    case (Inr hp)
    with Some assms(3) have "db_transaction (accept_webhook_body sha256 correlationId (vh_nonce (fst hp)) (snd hp)
        (payload_hash sha256 (snd hp))) e d = (Inl err, d')"
      by (auto simp: accept_webhook_endpoint_def acceptBlockchainWebhook_def split: prod.splits sum.splits)
    then show ?thesis
      using ss(3) by (intro transaction_errors [OF accept_body_raises [OF ss(2)] assms(2) answerable_driver]) auto
  qed
qed

lemma get_errors:
  assumes "{400, 404, 500, 503} \<subseteq> set ss" and "documented_driver e" and "get_payment_intent_endpoint is_uuid i e d = Inl err"
  shows "answerable ss err"
proof (cases "is_uuid i")
  case True
  have ss: "{400, 500, 503} \<subseteq> set ss" "404 \<in> set ss" using assms(1) by auto
  from True assms(3) have "faults e 0 = Some err \<or> (\<exists>code. err = pg_error code) \<or> (\<exists>code m. err = http_exception 404 code m)"
    by (auto simp: get_payment_intent_endpoint_def getPaymentIntent_def find_payment_intent_def split: option.splits)
  then show ?thesis
    using assms(2) ss answerable_driver [OF _ ss(1)] answerable_pg [OF ss(1)] answerable_http [OF ss(2)]
    by (auto simp: documented_driver_def)
next
  case False
  with assms(1,3) show ?thesis
    by (auto simp: get_payment_intent_endpoint_def error_envelope_conforms ErrorDetailDto_def intro!: answerable_own)
qed

lemma health_errors:
  assumes "503 \<in> set ss"
  shows "getReadiness now cfg answers h = (Inl err, h') \<Longrightarrow> answerable ss err"
    and "getServingReadiness now cfg answers h = (Inl err, h') \<Longrightarrow> answerable ss err"
proof -
  have "answerable ss err" if "checkConfig cfg = Some err" for err
    using that assms by (auto simp: checkConfig_def Let_def list_all_iff ErrorDetailDto_def intro!: answerable_unavailable split: if_splits)
  moreover have "answerable ss err" if "checkPostgres r = Some err \<or> checkRedis r = Some err" for r err
    using that assms by (auto simp: checkPostgres_def checkRedis_def ErrorDetailDto_def intro!: answerable_unavailable)
  ultimately show "getReadiness now cfg answers h = (Inl err, h') \<Longrightarrow> answerable ss err"
    and "getServingReadiness now cfg answers h = (Inl err, h') \<Longrightarrow> answerable ss err"
    unfolding getReadiness_def getServingReadiness_def Let_def by (auto split: option.splits prod.splits)
qed

section \<open>What the operations return and write\<close>

text \<open>A transaction that changes the tables has returned, or its commit was not acknowledged.\<close>

definition unacknowledged :: "env \<Rightarrow> bool" where
  "unacknowledged e \<longleftrightarrow> (case commit e of Commit_Unacknowledged err \<Rightarrow> True | _ \<Rightarrow> False)"

lemma transaction_writes:
  assumes "db_transaction p e d = (r, d')"
  shows "d' = d \<or> unacknowledged e \<or> (\<exists>x. r = Inr x)"
  using assms by (auto simp: db_transaction_def transaction_def unacknowledged_def split: prod.splits sum.splits if_splits commit_outcome.splits)

lemma create_returns:
  assumes "create_payment_intent_endpoint sha256 key dto e d = (Inr response, d')"
  shows "res_status response = 201 \<and> res_headers response = [] \<or>
    res_status response = 200 \<and> res_headers response = [(js ''Idempotent-Replayed'', js ''true'')] \<and> d' = d"
proof -
  from assms obtain k result where k: "db_transaction (create_payment_intent_body k (payment_digest sha256 dto) dto) e d = (Inr result, d')"
    and response: "response = \<lparr>res_status = cr_httpStatus result,
      res_headers = (if cr_replayed result then [(js ''Idempotent-Replayed'', js ''true'')] else []), res_body = cr_body result\<rparr>"
    by (auto simp: create_payment_intent_endpoint_def create_fst split: sum.splits prod.splits)
  from create_transaction_success [OF create.returns_calm [OF k]] show ?thesis by (auto simp: response)
qed

lemma create_writes:
  assumes "create_payment_intent_endpoint sha256 key dto e d = (result, d')"
  shows "outbox_events d' = outbox_events d"
    and "d' = d \<or> unacknowledged e \<or> (\<exists>response. result = Inr response \<and> res_status response = 201)"
proof -
  show "outbox_events d' = outbox_events d"
  proof (cases "validateIdempotencyKey key")
    case (Inr k)
    let ?tx = "create_payment_intent_body k (payment_digest sha256 dto) dto"
    from assms Inr have d': "d' = snd (db_transaction ?tx e d)"
      by (auto simp: create_payment_intent_endpoint_def create_fst split: sum.splits prod.splits)
    show ?thesis
    proof (rule create.effect_cases [of k "payment_digest sha256 dto" dto e d])
      fix r assume "db_transaction ?tx (calm e) d = (Inr r, snd (db_transaction ?tx e d))"
      from create_transaction_success [OF this] show ?thesis by (auto simp: d' created_db_def Let_def)
    qed (simp add: d')
  qed (use assms in \<open>simp add: create_payment_intent_endpoint_def\<close>)
  show "d' = d \<or> unacknowledged e \<or> (\<exists>response. result = Inr response \<and> res_status response = 201)"
  proof (cases result)
    case (Inl err)
    with assms show ?thesis
      by (auto simp: create_payment_intent_endpoint_def create_fst dest!: transaction_writes split: sum.splits prod.splits)
  next
    case (Inr response)
    with create_returns [of sha256 key dto e d response d'] assms show ?thesis by auto
  qed
qed

lemma accept_writes:
  assumes "accept_webhook_endpoint sha256 hmac lib cfg correlationId now headers raw body e d = (result, d')"
  shows "d' = d \<or> unacknowledged e \<or> (\<exists>response. result = Inr (202, response))"
    and "outbox_events d' = outbox_events d \<or> (\<exists>row i. outbox_events d' = outbox_events d @ [row] \<and> ob_payload row = outbox_payload i correlationId)"
    and "result = Inr (status, response) \<Longrightarrow> status = 202"
proof -
  show "result = Inr (status, response) \<Longrightarrow> status = 202"
    using assms by (auto simp: accept_webhook_endpoint_def split: option.splits prod.splits sum.splits)
  consider "d' = d" | headers' :: ValidatedWebhookHeaders and payload :: BlockchainWebhookPayload and r where "accept_tx sha256 correlationId headers' payload e d = (r, d')"
    "result = map_sum id (\<lambda>a. (202, \<lparr>ar_eventId = ac_eventId a, ar_status = ac_status a\<rparr>)) r"
  proof (cases raw)
    case None
    with assms that(1) show thesis by (auto simp: accept_webhook_endpoint_def)
  next
    case (Some bytes)
    let ?request = "\<lparr>rq_headers = headers, rq_rawBody = bytes, rq_body = body\<rparr>"
    show thesis
    proof (rule accept_cases [of hmac lib cfg now ?request sha256 correlationId e d])
      fix headers' :: ValidatedWebhookHeaders and payload :: BlockchainWebhookPayload and r d1
      assume "accept_tx sha256 correlationId headers' payload e d = (r, d1)"
        "fst (acceptBlockchainWebhook sha256 hmac lib cfg correlationId now ?request e d) =
         (map_sum id (\<lambda>a. \<lparr>ar_eventId = ac_eventId a, ar_status = ac_status a\<rparr>) r, d1)"
      with assms Some that(2) [of headers' payload r] show thesis by (cases r) (auto simp: accept_webhook_endpoint_def)
    qed (use assms Some that(1) in \<open>auto simp: accept_webhook_endpoint_def\<close>)
  qed
  note cases = this
  show "d' = d \<or> unacknowledged e \<or> (\<exists>response. result = Inr (202, response))"
    by (cases rule: cases) (auto dest!: transaction_writes)
  show "outbox_events d' = outbox_events d \<or> (\<exists>row i. outbox_events d' = outbox_events d @ [row] \<and> ob_payload row = outbox_payload i correlationId)"
  proof (cases rule: cases)
    case (2 headers' payload r)
    let ?tx = "accept_webhook_body sha256 correlationId (vh_nonce headers') payload (payload_hash sha256 payload)"
    from 2(1) have d': "d' = snd (db_transaction ?tx e d)" by simp
    show ?thesis
    proof (rule accept.effect_cases [of sha256 correlationId "vh_nonce headers'" payload "payload_hash sha256 payload" e d])
      fix a assume "db_transaction ?tx (calm e) d = (Inr a, snd (db_transaction ?tx e d))"
      from accept_transaction_success [OF this] show ?thesis by (auto simp: d' accepted_db_def outbox_row_def)
    qed (simp add: d')
  qed simp
qed

text \<open>The same for every operation; \<open>correlationId\<close> is that of the context.\<close>

definition documented_response :: "operation \<Rightarrow> json http_response \<Rightarrow> bool" where
  "documented_response op response \<longleftrightarrow>
     (\<exists>doc\<in>set (operation_docs op). rd_status doc = res_status response \<and> conforms (rd_schema doc) (res_body response) \<and>
        map fst (res_headers response) = map js (rd_headers doc))"

definition outbox_grows :: "jsstr option \<Rightarrow> db \<Rightarrow> db \<Rightarrow> bool" where
  "outbox_grows correlationId d d' \<longleftrightarrow>
     (\<exists>rows. outbox_events d' = outbox_events d @ rows \<and> list_all (\<lambda>row. \<exists>i. ob_payload row = outbox_payload i correlationId) rows)"

lemma outbox_grows_refl [simp]: "outbox_grows c d d" "outbox_events d' = outbox_events d \<Longrightarrow> outbox_grows c d d'"
  by (simp_all add: outbox_grows_def)

lemma operation_returns:
  assumes "run_operation fw sv m store r raw body op params st = (Inr response, st')"
  shows "documented_response op response \<and> res_status response \<in> {200, 201, 202}"
proof (cases op)
  case Op_createPaymentIntent
  with assms obtain dto response' where "create_payment_intent_endpoint (sv_sha256 sv) (hq_header r ''idempotency-key'') dto (mo_env m)
      (api_db st) = (Inr response', api_db st')" and response: "response = \<lparr>res_status = res_status response',
      res_headers = res_headers response', res_body = payment_intent_body (fw_toISOString fw) (res_body response')\<rparr>"
    by (auto simp: run_createPaymentIntent_def split: sum.splits prod.splits)
  from create_returns [OF this(1)] show ?thesis
    by (auto simp: Op_createPaymentIntent documented_response_def response create_payment_intent_docs_def payment_intent_conforms)
next
  case Op_getPaymentIntent
  with assms show ?thesis
    by (auto simp: run_getPaymentIntent_def documented_response_def get_payment_intent_docs_def json_response_def payment_intent_conforms
        split: sum.splits)
next
  case Op_acceptBlockchainWebhook
  with assms show ?thesis
    by (auto simp: run_acceptBlockchainWebhook_def documented_response_def accept_webhook_docs_def json_response_def acceptance_conforms
        dest!: accept_writes(3) split: sum.splits prod.splits)
next
  case Op_getLiveness
  with assms show ?thesis by (auto simp: documented_response_def json_response_def liveness_conforms)
next
  case Op_getReadiness
  with assms have "\<exists>now. response = json_response 200 (readiness_body (fw_toISOString fw) (ready_response now [''config'', ''postgres'', ''redis'']))"
    by (auto simp: run_readiness_def getReadiness_def Let_def split: sum.splits prod.splits option.splits)
  with Op_getReadiness show ?thesis by (auto simp: documented_response_def json_response_def readiness_conforms)
next
  case Op_getServingReadiness
  with assms have "\<exists>now. response = json_response 200 (readiness_body (fw_toISOString fw) (ready_response now [''config'', ''postgres'']))"
    by (auto simp: run_readiness_def getServingReadiness_def Let_def split: sum.splits prod.splits option.splits)
  with Op_getServingReadiness show ?thesis by (auto simp: documented_response_def json_response_def readiness_conforms)
qed

lemma operation_writes:
  assumes "run_operation fw sv m store r raw body op params st = (result, st')"
  shows "api_db st' = api_db st \<or> op \<in> {Op_createPaymentIntent, Op_acceptBlockchainWebhook} \<and>
      (unacknowledged (mo_env m) \<or> (\<exists>response. result = Inr response \<and> res_status response \<in> {201, 202}))"
    and "outbox_grows (getCorrelationId store) (api_db st) (api_db st')"
proof -
  let ?P = "\<lambda>result st'. (api_db st' = api_db st \<or> op \<in> {Op_createPaymentIntent, Op_acceptBlockchainWebhook} \<and>
      (unacknowledged (mo_env m) \<or> (\<exists>response. result = Inr response \<and> res_status response \<in> {201, 202}))) \<and>
    outbox_grows (getCorrelationId store) (api_db st) (api_db st')"
  have "?P result st'"
  proof (cases op)
    case Op_createPaymentIntent
    have "?P result st'" if "validation_pipe fw body = Inr dto" for dto
    proof (cases "create_payment_intent_endpoint (sv_sha256 sv) (hq_header r ''idempotency-key'') dto (mo_env m) (api_db st)")
      case (Pair x d)
      from assms that Pair create_writes [OF Pair] show ?thesis
        by (cases x) (auto simp: Op_createPaymentIntent run_createPaymentIntent_def)
    qed
    moreover have "?P result st'" if "validation_pipe fw body = Inl err" for err
      using assms that by (auto simp: Op_createPaymentIntent run_createPaymentIntent_def)
    ultimately show ?thesis by (cases "validation_pipe fw body") blast+
  next
    case Op_acceptBlockchainWebhook
    let ?headers = "\<lparr>wh_contentType = hq_header r ''content-type'', wh_timestamp = hq_header r ''x-webhook-timestamp'',
         wh_nonce = hq_header r ''x-webhook-nonce'', wh_signature = hq_header r ''x-webhook-signature''\<rparr>"
    show ?thesis
    proof (cases "accept_webhook_endpoint (sv_sha256 sv) (sv_hmac sv) (sv_validator sv) (sv_webhook sv) (getCorrelationId store)
        (mo_now m) ?headers raw body (mo_env m) (api_db st)")
      case (Pair x d)
      have "outbox_grows (getCorrelationId store) (api_db st) d" using accept_writes(2) [OF Pair] by (auto simp: outbox_grows_def)
      with assms Pair accept_writes(1) [OF Pair] show ?thesis
        by (cases x) (auto simp: Op_acceptBlockchainWebhook run_acceptBlockchainWebhook_def json_response_def split: prod.splits)
    qed
  qed (use assms in \<open>auto simp: run_getPaymentIntent_def run_readiness_def split: sum.splits prod.splits\<close>)
  then show "api_db st' = api_db st \<or> op \<in> {Op_createPaymentIntent, Op_acceptBlockchainWebhook} \<and>
      (unacknowledged (mo_env m) \<or> (\<exists>response. result = Inr response \<and> res_status response \<in> {201, 202}))"
    and "outbox_grows (getCorrelationId store) (api_db st) (api_db st')" by auto
qed

definition error_statuses :: "operation \<Rightarrow> nat list" where
  "error_statuses op = 500 # filter (\<lambda>s. 400 \<le> s) (map rd_status (operation_docs op))"

lemma error_statuses_simps:
  "error_statuses Op_getLiveness = [500]" "error_statuses Op_getReadiness = [500, 503]" "error_statuses Op_getServingReadiness = [500, 503]"
  "error_statuses Op_createPaymentIntent = [500, 400, 409, 413, 415, 429, 503]"
  "error_statuses Op_getPaymentIntent = [500, 400, 404, 429, 503]"
  "error_statuses Op_acceptBlockchainWebhook = [500, 400, 401, 409, 413, 415, 429, 503]"
  by (simp_all add: error_statuses_def ApiErrorResponses_def create_payment_intent_docs_def get_payment_intent_docs_def accept_webhook_docs_def)

lemma error_documented:
  assumes "s \<in> set (error_statuses op)" and "s \<noteq> 500"
  shows "\<exists>doc\<in>set (operation_docs op). rd_status doc = s \<and> rd_schema doc = ErrorResponseDto \<and> (s = 429 \<or> rd_headers doc = [])"
  using assms by (cases op)
    (auto simp: error_statuses_simps ApiErrorResponses_def create_payment_intent_docs_def get_payment_intent_docs_def accept_webhook_docs_def)

lemma operation_errors:
  assumes "documented_driver (mo_env m)" and "run_operation fw sv m store r raw body op params st = (Inl err, st')"
  shows "answerable (error_statuses op) err"
proof (cases op)
  case Op_createPaymentIntent
  have ss: "{400, 500, 503} \<subseteq> set (error_statuses op)" "{400, 409, 500, 503} \<subseteq> set (error_statuses op)"
    by (simp_all add: Op_createPaymentIntent error_statuses_simps)
  have "answerable (error_statuses op) err'" if "validation_pipe fw body = Inl err'" for err'
    using that ss(1) answerable_js [OF ss(1)]
    by (auto simp: validation_pipe_def intro!: answerable_validation split: sum.splits option.splits)
  with assms(2) create_errors [OF ss(2) assms(1)] show ?thesis
    by (auto simp: Op_createPaymentIntent run_createPaymentIntent_def split: sum.splits prod.splits)
next
  case Op_getPaymentIntent
  with assms show ?thesis
    by (auto simp: run_getPaymentIntent_def error_statuses_simps intro!: get_errors [of _ "mo_env m"] split: sum.splits)
next
  case Op_acceptBlockchainWebhook
  have ss: "{400, 401, 409, 500, 503} \<subseteq> set (error_statuses op)" by (simp add: Op_acceptBlockchainWebhook error_statuses_simps)
  from assms(2) accept_errors [OF ss assms(1)] show ?thesis
    by (auto simp: Op_acceptBlockchainWebhook run_acceptBlockchainWebhook_def split: sum.splits prod.splits)
next
  case Op_getReadiness
  with assms(2) health_errors(1) [of "error_statuses op"] show ?thesis
    by (auto simp: run_readiness_def error_statuses_simps split: sum.splits prod.splits)
next
  case Op_getServingReadiness
  with assms(2) health_errors(2) [of "error_statuses op"] show ?thesis
    by (auto simp: run_readiness_def error_statuses_simps split: sum.splits prod.splits)
qed (use assms in simp)

section \<open>The documented framework\<close>

text \<open>An exception of the framework with a status, which is no envelope of the application.\<close>

fun framework_error :: "nat list \<Rightarrow> uval \<Rightarrow> bool" where
  "framework_error ss (U_Object (Class_Http status response) ps) \<longleftrightarrow> status \<in> set ss \<and> \<not> isErrorEnvelope response"
| "framework_error ss err \<longleftrightarrow>
     \<not> isDatabaseUnavailableError err \<and> findPostgresDataExceptionCode err = None \<and>
     (case extractHttpErrorStatus err of None \<Rightarrow> False | Some status \<Rightarrow> status \<in> set ss)"

text \<open>
  The parsers refuse a body that is malformed (400), too large (413) or in an unsupported encoding or charset (415); the throttler throws
  a 429 exception, and the router a 404 exception.
\<close>

definition documented_framework :: "framework \<Rightarrow> bool" where
  "documented_framework fw \<longleftrightarrow>
     (\<forall>limit r err. fw_parse fw limit r = Inl err \<longrightarrow> framework_error [400, 413, 415] err) \<and>
     framework_error [429] (fw_tooManyRequests fw) \<and> (\<forall>r. framework_error [404] (fw_notFound fw r))"

lemma answerable_framework: "framework_error ss err \<Longrightarrow> set ss \<subseteq> set ts \<Longrightarrow> answerable ts err"
proof (rule answerable_fixed)
  assume err: "framework_error ss err" and ts: "set ss \<subseteq> set ts"
  show "own_envelope err = None"
    using err by (cases err rule: own_envelope.cases) (auto simp del: isErrorEnvelope.simps)
  have "rv_status (resolve_exception err) \<in> set ss"
    using err by (cases err rule: resolve_exception.cases)
      (auto simp del: isErrorEnvelope.simps simp: resolve_other_def split: option.splits)
  with ts show "rv_status (resolve_exception err) \<in> set ts" by blast
qed

section \<open>Answers\<close>

text \<open>The correlation identifier of a request: the one it carries, if that is safe, or a new one.\<close>

definition request_correlation :: "moment \<Rightarrow> http_request \<Rightarrow> jsstr" where
  "request_correlation m r =
     (case normalizeCorrelationId (hq_header r ''x-correlation-id'') of None \<Rightarrow> mo_uuid m | Some c \<Rightarrow> c)"

definition request_context :: "moment \<Rightarrow> http_request \<Rightarrow> RequestContext" where
  "request_context m r = createRequestContext (mo_uuid m) (mo_requestUuid m) (mo_startedAt m) (hq_header r ''x-correlation-id'')"

lemma request_context_correlation [simp]: "rc_correlationId (request_context m r) = request_correlation m r"
  by (simp add: request_context_def request_correlation_def createRequestContext_def)

lemma handle_request_run:
  assumes "request_pipeline fw sv m r (Some (request_context m r)) st = (result, st')"
  shows "snd (handle_request fw sv m r st) = st'"
    and "an_status (fst (handle_request fw sv m r st)) =
      an_status (answer_of m r (Some (request_context m r)) (request_correlation m r) result)"
    and "an_headers (fst (handle_request fw sv m r st)) =
      an_headers (answer_of m r (Some (request_context m r)) (request_correlation m r) result)"
    and "an_body (fst (handle_request fw sv m r st)) =
      an_body (answer_of m r (Some (request_context m r)) (request_correlation m r) result)"
  using assms request_context_correlation [of m r]
  by (simp_all add: handle_request_def correlationIdMiddleware_def Let_def request_context_def [symmetric])

lemma request_correlation_ne: "mo_uuid m \<noteq> [] \<Longrightarrow> request_correlation m r \<noteq> []"
  using correlation_id_safe by (auto simp: request_correlation_def split: option.split)

lemma answer_error:
  fixes m r err
  assumes "mo_uuid m \<noteq> []"
  defines "a \<equiv> answer_of m r (Some (request_context m r)) (request_correlation m r) (Inl err)"
  shows "an_status a = rv_status (resolve_exception err)" and "an_headers a = [(CORRELATION_ID_HEADER, request_correlation m r)]"
    and "an_body a = JObj (put (js ''correlationId'') (JStr (request_correlation m r)) (rv_body (resolve_exception err)))"
proof -
  have "resolveCorrelationId u (Some (request_context m r)) h h' = request_correlation m r" for u h h'
    using request_correlation_ne [OF assms(1), of r] by (cases "request_correlation m r") (simp_all add: resolveCorrelationId_def getCorrelationId_def)
  then show "an_status a = rv_status (resolve_exception err)" "an_headers a = [(CORRELATION_ID_HEADER, request_correlation m r)]"
    "an_body a = JObj (put (js ''correlationId'') (JStr (request_correlation m r)) (rv_body (resolve_exception err)))"
    by (simp_all add: a_def answer_of_def handle_exception_def Let_def)
qed

text \<open>The stages of the pipeline.\<close>

lemma pipeline_cases:
  assumes "request_pipeline fw sv m r store st = (result, st')"
  obtains (refused) err where "result = Inl err" "st' = st" "fw_parse fw MAX_REQUEST_BODY_SIZE r = Inl err \<or>
      (\<exists>raw body. fw_parse fw MAX_REQUEST_BODY_SIZE r = Inr (raw, body) \<and> requestBodyGuardMiddleware body = Some err)"
  | (unknown) "result = Inl (fw_notFound fw r)" "st' = st" "find_route fw r = None"
  | (throttled) rt params where "find_route fw r = Some (rt, params)" "result = Inl (fw_tooManyRequests fw)" "st' = st"
      "\<not> rt_skipThrottle rt"
  | (admitted) raw body rt params where "fw_parse fw MAX_REQUEST_BODY_SIZE r = Inr (raw, body)" "requestBodyGuardMiddleware body = None"
      "find_route fw r = Some (rt, params)" "throttler_guard fw sv rt r = None"
      "run_operation fw sv m store r raw body (rt_operation rt) params st = (result, st')"
proof (cases "fw_parse fw MAX_REQUEST_BODY_SIZE r")
  case (Inl err)
  with assms have "result = Inl err" "st' = st" by (simp_all add: request_pipeline_def)
  with Inl refused show thesis by blast
next
  case (Inr p)
  obtain raw body where parsed: "fw_parse fw MAX_REQUEST_BODY_SIZE r = Inr (raw, body)" using Inr by (cases p) simp
  show thesis
  proof (cases "requestBodyGuardMiddleware body")
    case (Some err)
    with assms parsed have "result = Inl err" "st' = st" by (simp_all add: request_pipeline_def)
    with Some parsed refused show thesis by blast
  next
    case None
    note guarded = this
    show thesis
    proof (cases "find_route fw r")
      case None
      with assms parsed guarded unknown show thesis by (simp add: request_pipeline_def)
    next
      case (Some q)
      obtain rt params where route: "find_route fw r = Some (rt, params)" using Some by (cases q) simp
      show thesis
      proof (cases "throttler_guard fw sv rt r")
        case None
        with assms parsed guarded route admitted show thesis by (simp add: request_pipeline_def)
      next
        case (Some err)
        then have "err = fw_tooManyRequests fw" "\<not> rt_skipThrottle rt" by (auto simp: throttler_guard_def split: if_splits)
        with assms parsed guarded route Some throttled show thesis by (simp add: request_pipeline_def)
      qed
    qed
  qed
qed

lemma find_route_routes: "find_route fw r = Some (rt, params) \<Longrightarrow> rt \<in> set routes"
  unfolding find_route_def by (auto dest!: first_some_SomeD)

lemma route_statuses:
  assumes "rt \<in> set routes"
  shows "rt_method rt = ''POST'' \<Longrightarrow> {400, 413, 415} \<subseteq> set (error_statuses (rt_operation rt))"
    and "\<not> rt_skipThrottle rt \<Longrightarrow> 429 \<in> set (error_statuses (rt_operation rt))"
  using assms by (auto simp: routes_def HealthController_routes_def PaymentIntentsController_routes_def WebhooksController_routes_def
      error_statuses_simps)

lemma pipeline_errors:
  assumes "documented_framework fw" and "documented_driver (mo_env m)" and route: "find_route fw r = Some (rt, params)"
    and body: "rt_method rt = ''POST'' \<or> (\<exists>raw body. fw_parse fw MAX_REQUEST_BODY_SIZE r = Inr (raw, body) \<and> requestBodyGuardMiddleware body = None)"
    and run: "request_pipeline fw sv m r store st = (Inl err, st')"
  shows "answerable (error_statuses (rt_operation rt)) err"
  using run
proof (cases rule: pipeline_cases)
  case (refused err')
  with body have "rt_method rt = ''POST''" by auto
  note statuses = route_statuses(1) [OF find_route_routes [OF route] this]
  from refused have "framework_error [400, 413, 415] err \<or> (\<exists>b. requestBodyGuardMiddleware b = Some err)"
    using assms(1) by (auto simp: documented_framework_def)
  then show ?thesis
    using statuses answerable_framework [of "[400, 413, 415]" err]
    by (auto simp: requestBodyGuardMiddleware_def intro!: answerable_http)
next
  case (throttled rt' params')
  then have "429 \<in> set (error_statuses (rt_operation rt))" using route route_statuses(2) [OF find_route_routes [OF route]] by simp
  then show ?thesis
    using assms(1) throttled answerable_framework [of "[429]" err] by (auto simp: documented_framework_def)
next
  case (admitted raw body' rt' params')
  with route operation_errors [OF assms(2) admitted(5)] show ?thesis by simp
qed (use route in simp)

section \<open>Properties\<close>


text \<open>
  C32: Every answer carries the correlation identifier of its request: the one the client sent, when it is printable and short enough, or a
  new one.  An error body repeats it, and an event that the request stores passes it on to the job through the payload of its
  outbox row.
\<close>

theorem answers_correlated:
  assumes "mo_uuid m \<noteq> []"
  shows "(\<exists>hs. an_headers (fst (handle_request fw sv m r st)) = (CORRELATION_ID_HEADER, request_correlation m r) # hs) \<and>
    (an_status (fst (handle_request fw sv m r st)) \<in> {200, 201, 202} \<or>
     json_get (js ''correlationId'') (an_body (fst (handle_request fw sv m r st))) = Some (JStr (request_correlation m r))) \<and>
    outbox_grows (Some (request_correlation m r)) (api_db st) (api_db (snd (handle_request fw sv m r st)))"
proof -
  obtain result st' where run: "request_pipeline fw sv m r (Some (request_context m r)) st = (result, st')" by (rule prod.exhaust)
  note answer = handle_request_run [OF run]
  have grows: "outbox_grows (Some (request_correlation m r)) (api_db st) (api_db st')"
    using run by (cases rule: pipeline_cases) (auto dest: operation_writes(2) simp: getCorrelationId_def)
  show ?thesis
  proof (cases result)
    case (Inl err)
    with grows show ?thesis by (simp add: answer answer_error [OF assms])
  next
    case (Inr response)
    from run have "res_status response \<in> {200, 201, 202}"
      by (rule pipeline_cases) (use Inr operation_returns in auto)
    with grows show ?thesis by (simp add: answer answer_of_def Inr)
  qed
qed

text \<open>
  C31: Only requests that are answered with success change the database.  When a request has changed it, its body was parsed and passed the guard, it
  reached one of the two writing operations and the throttler let it through, and the answer is 201 or 202; or COMMIT took effect
  without being acknowledged.  Refused, unknown, throttled and reading requests change nothing, whatever fails.
\<close>

theorem writes_are_answered:
  assumes "api_db (snd (handle_request fw sv m r st)) \<noteq> api_db st"
  shows "(\<exists>raw body rt params. fw_parse fw MAX_REQUEST_BODY_SIZE r = Inr (raw, body) \<and> requestBodyGuardMiddleware body = None \<and>
      find_route fw r = Some (rt, params) \<and> rt_operation rt \<in> {Op_createPaymentIntent, Op_acceptBlockchainWebhook} \<and>
      throttler_guard fw sv rt r = None) \<and>
    (an_status (fst (handle_request fw sv m r st)) \<in> {201, 202} \<or> unacknowledged (mo_env m))"
proof -
  obtain result st' where run: "request_pipeline fw sv m r (Some (request_context m r)) st = (result, st')" by (rule prod.exhaust)
  note answer = handle_request_run [OF run]
  from assms have changed: "api_db st' \<noteq> api_db st" by (simp add: answer)
  from run show ?thesis
  proof (cases rule: pipeline_cases)
    case (admitted raw body rt params)
    from operation_writes(1) [OF admitted(5)] changed
    have op: "rt_operation rt \<in> {Op_createPaymentIntent, Op_acceptBlockchainWebhook}"
      and "unacknowledged (mo_env m) \<or> (\<exists>response. result = Inr response \<and> res_status response \<in> {201, 202})" by auto
    then have "an_status (fst (handle_request fw sv m r st)) \<in> {201, 202} \<or> unacknowledged (mo_env m)"
      by (auto simp: answer answer_of_def)
    with admitted(1-4) op show ?thesis by blast
  qed (use changed in simp_all)
qed

section \<open>Witnesses\<close>

definition sample_framework :: framework where
  "sample_framework =
     \<lparr>fw_parse = (\<lambda>limit r. if length (hq_content r) \<le> limit then Inr (Some (hq_content r), rq_body sample_request)
        else Inl (U_Object (Class_Error (js ''PayloadTooLargeError'')) [(js ''status'', U_Number 413)])),
      fw_match = (\<lambda>method path r. if hq_method r = method \<and> hq_path r = js (''/'' @ path) then Some (\<lambda>_. []) else None),
      fw_throttles = (\<lambda>_ _. False), fw_validate = (\<lambda>_ _. Inl []), fw_isUUID = (\<lambda>s. length s = 36), fw_toISOString = int_string,
      fw_notFound = (\<lambda>_. U_Object (Class_Http 404 (JStr (js ''Not Found''))) []),
      fw_tooManyRequests = U_Object (Class_Http 429 (JStr (js ''Too Many Requests''))) []\<rparr>"

definition sample_api_service :: service where
  "sample_api_service =
     \<lparr>sv_sha256 = sample_sha256, sv_hmac = sample_hmac, sv_validator = sample_validator, sv_webhook = sample_config,
      sv_config = (\<lambda>_. U_Undefined), sv_throttler = \<lparr>to_skipIf = False, to_ttl = Some 60000, to_limit = Some 100\<rparr>\<rparr>"

definition sample_api_moment :: moment where
  "sample_api_moment =
     \<lparr>mo_uuid = js ''c1'', mo_requestUuid = js ''r1'', mo_startedAt = 1700000299000, mo_now = 1700000299000, mo_uptimeMs = 5000,
      mo_finishedAt = 1700000299010, mo_env = sample_env 0,
      mo_answers = \<lparr>dp_pg = \<lparr>pa_connect = None, pa_set_timeout = None, pa_select = None\<rparr>, dp_redis_connects = None, dp_redis_pongs = None\<rparr>\<rparr>"

definition sample_http_request :: http_request where
  "sample_http_request =
     \<lparr>hq_method = ''POST'', hq_path = js ''/webhooks/blockchain'',
      hq_header = (\<lambda>name. if name = ''content-type'' then wh_contentType (rq_headers sample_request)
        else if name = ''x-webhook-timestamp'' then wh_timestamp (rq_headers sample_request)
        else if name = ''x-webhook-nonce'' then wh_nonce (rq_headers sample_request)
        else if name = ''x-webhook-signature'' then wh_signature (rq_headers sample_request) else None),
      hq_content = [0x7B]\<rparr>"

definition sample_api_state :: api_state where
  "sample_api_state = \<lparr>api_db = empty_db, api_health = \<lparr>hs_postgres = new_postgres_health, hs_redis = new_redis_health\<rparr>\<rparr>"

lemma sample_framework_documented: "documented_framework sample_framework"
proof -
  have "framework_error [400, 413, 415] (U_Object (Class_Error (js ''PayloadTooLargeError'')) [(js ''status'', U_Number 413)])"
    by code_simp
  then show ?thesis by (simp add: documented_framework_def sample_framework_def)
qed

lemma sample_driver_documented: "documented_driver (mo_env sample_api_moment)"
  by (simp add: documented_driver_def sample_api_moment_def)

lemma sample_api_uuid: "mo_uuid sample_api_moment \<noteq> []"
  by (simp add: sample_api_moment_def js_def)

lemma sample_api_route:
  "find_route sample_framework sample_http_request = Some (hd WebhooksController_routes, \<lambda>_. [])"
  by (simp add: find_route_def routes_def HealthController_routes_def PaymentIntentsController_routes_def WebhooksController_routes_def
      sample_framework_def sample_http_request_def)

lemma sample_api_correlation: "request_correlation sample_api_moment sample_http_request = js ''c1''"
  by (simp add: request_correlation_def sample_http_request_def sample_api_moment_def normalizeCorrelationId_def)


lemma sample_api_writes:
  "webhook_events (api_db (snd (handle_request sample_framework sample_api_service sample_api_moment sample_http_request sample_api_state))) \<noteq> []"
proof -
  let ?ctx = "Some (request_context sample_api_moment sample_http_request)" and ?c = "getCorrelationId (Some (request_context sample_api_moment sample_http_request))"
  let ?payload = "toPayload sample_webhook_dto"
  obtain pid where tx: "accept_tx sample_sha256 ?c sample_headers ?payload (sample_env 0) empty_db =
      (Inr \<lparr>ac_eventId = wp_eventId ?payload, ac_status = ACCEPTED, ac_webhookEventId = new_uuid (sample_env 0) 0\<rparr>,
       accepted_db ?c (js ''n1'') ?payload (payload_hash sample_sha256 ?payload) (sample_env 0) pid empty_db)"
    using accept_calm [OF sample_webhook_fits, of "sample_env 0" _ empty_db sample_sha256 ?c] by (auto simp: sample_headers_def)
  have "snd (request_pipeline sample_framework sample_api_service sample_api_moment sample_http_request ?ctx sample_api_state) =
    sample_api_state\<lparr>api_db := accepted_db ?c (js ''n1'') ?payload (payload_hash sample_sha256 ?payload) (sample_env 0) pid empty_db\<rparr>"
    using accept_unfold(2) [OF sample_check tx] sample_guarded sample_api_route
    by (simp add: request_pipeline_def throttler_guard_def sample_framework_def sample_api_service_def sample_http_request_def
        MAX_REQUEST_BODY_SIZE_def WebhooksController_routes_def run_acceptBlockchainWebhook_def accept_webhook_endpoint_def
        sample_request_def sample_api_moment_def sample_api_state_def)
  then show ?thesis
    by (cases "request_pipeline sample_framework sample_api_service sample_api_moment sample_http_request ?ctx sample_api_state")
      (simp add: handle_request_run(1) accepted_db_def)
qed

theorem answers_correlated_witness:
  "(\<exists>hs. an_headers (fst (handle_request sample_framework sample_api_service sample_api_moment sample_http_request sample_api_state)) =
      (CORRELATION_ID_HEADER, js ''c1'') # hs) \<and>
   outbox_grows (Some (js ''c1'')) empty_db
     (api_db (snd (handle_request sample_framework sample_api_service sample_api_moment sample_http_request sample_api_state)))"
  using answers_correlated [OF sample_api_uuid, of sample_framework sample_api_service sample_http_request sample_api_state]
  unfolding sample_api_correlation by (simp add: sample_api_state_def)

theorem writes_are_answered_witness:
  "an_status (fst (handle_request sample_framework sample_api_service sample_api_moment sample_http_request sample_api_state)) \<in> {201, 202}"
proof -
  have "api_db (snd (handle_request sample_framework sample_api_service sample_api_moment sample_http_request sample_api_state)) \<noteq>
      api_db sample_api_state"
    using sample_api_writes by (auto simp: sample_api_state_def)
  from writes_are_answered [OF this] show ?thesis by (simp add: unacknowledged_def sample_api_moment_def)
qed

end
