(* ===== verification/Spec2Isabelle.thy ===== *)
theory Spec2Isabelle
  imports Recovery Migration Entities Http_Api
begin

text \<open>
  A verification library for the transaction event gateway, a NestJS service that records payment intents, accepts
  signed webhooks about blockchain transactions, and confirms the intents that the webhooks name.

  \<^bold>\<open>The program.\<close>  Two processes share one PostgreSQL database.  The API process (\<open>src/main.ts\<close>) creates and
  reads payment intents, accepts webhooks into an inbox (\<open>webhook_events\<close>) together with an outbox row
  (\<open>outbox_events\<close>), and answers health checks.  The worker process (\<open>src/worker.ts\<close>) publishes outbox rows as BullMQ
  jobs, requeues rows whose job was lost, and processes jobs: it confirms an intent or records why the event failed.  Redis holds only jobs.

  \<^bold>\<open>Theories, in the order of their dependencies.\<close>
  \<^item> \<open>Prelude\<close>, \<open>Js_String\<close>, \<open>Bytes\<close>: collections and lemmas shared by all theories; UTF-16 strings with the methods of
    JavaScript that the code uses; bytes, UTF-8 and hexadecimal.
  \<^item> \<open>Canonical_Json\<close> (\<open>src/common/canonicalization\<close>), \<open>Amounts\<close> (\<open>payment-amount.ts\<close>,
    \<open>payment-amount.validator.ts\<close>, \<open>normalizeAmount\<close>), \<open>Tx_Hash\<close> (\<open>src/webhooks/tx-hash.ts\<close> and the expression of the migration),
    \<open>Webhook_Security\<close> (\<open>src/webhooks/security\<close>): pure functions, each with the meaning it is to have (a JSON value, a number, a class of
    spellings, a message authentication code) and a proof that it decides or keeps exactly that.
  \<^item> \<open>Errors\<close>, \<open>Observability\<close>, \<open>Exception_Filter\<close> (\<open>src/common/errors\<close>, \<open>src/common/logging\<close>,
    \<open>src/common/request-context\<close>): thrown values, their classification, log entries, the log throttle, correlation
    identifiers, and the filter that turns every thrown value into an answer.
  \<^item> \<open>Body_Guard\<close>, \<open>Validation\<close> (\<open>src/common/validation\<close> and the two request classes): the iterative scan of a body against its recursive
    specification; the rules as data, class-validator as a parameter.
  \<^item> \<open>Database\<close> (\<open>migrations\<close>, \<open>src/database/entities\<close>): the tables as lists of rows with unique indexes, column
    lengths and foreign keys; transactions as functions from an environment and a database to a result and a database.  Statement \<open>n\<close> of a
    transaction may fail, and so may its commit, before or after it took effect.  The locale \<open>unique_index\<close>, interpreted for
    the tables, states once what an insertion keeps; \<open>atomic_operation\<close> what a transaction leaves when it fails.  \<open>Migration\<close> is the data migration of confirmed hashes.
    \<open>Schema\<close> executes the statements of the schema migrations, up and down, on catalogs; \<open>Entities\<close> holds the decorators of the
    entities as data and compares what they describe, and the constraints of \<open>Database\<close>, with the migrated catalog.
  \<^item> \<open>Idempotency\<close>: a locale for operations that are repeated under a key; \<open>Payment_Intents\<close> (\<open>src/payment-intents\<close>) and
    \<open>Webhook_Acceptance\<close> (\<open>src/webhooks\<close>) interpret it.
  \<^item> \<open>Processor\<close> (\<open>webhook-event-processor.service.ts\<close>): the processing transaction against the rule \<open>decide\<close>.
  \<^item> \<open>Queue_Holder\<close> (\<open>webhook-events-queue-holder.service.ts\<close>): the holder of the queue, as segments between two awaits, interleaved by a
    step relation, and run in sequence.  \<open>Outbox\<close> (\<open>src/outbox\<close>): the dispatcher, the reconciler and their runner.
    \<open>Worker\<close> (\<open>webhook-events-worker.service.ts\<close>): the handling of a job.
  \<^item> \<open>Configuration\<close>, \<open>Health\<close> (\<open>src/config\<close>, \<open>redis-options.ts\<close>, \<open>src/health\<close>): the environment schema and the
    options; the health endpoints with overlapping Redis checks.
  \<^item> \<open>Api_Docs\<close>, \<open>Http_Api\<close> (the controllers, \<open>src/common/bootstrap.ts\<close>, \<open>src/common/openapi\<close>, the response classes): the documented responses as
    schemas, and the pipeline that turns a request into an answer; Express, Nest and the throttler are the parameter \<open>framework\<close>.
  \<^item> \<open>System\<close>: the step relation of the whole program (creating, accepting, dispatching, reconciling, working, losing jobs), its invariant,
    and that every step keeps it.  \<open>Recovery\<close>: rounds of reconciliation and dispatch, as instances of the locale \<open>draining\<close>.

  \<^bold>\<open>What is shown.\<close>  The theorems of this theory compose the components: a consistent ledger, a complete outbox, well-typed rows,
  rows that only move forward, recovery of every open event, and a usable configuration.  The components show that creating an intent and accepting
  a webhook happen once per key, whatever fails and however often they are repeated; that a confirmation needs a matching
  event; that no run changes final rows; that a published row has its job in the queue; that queues and Redis clients are never
  leaked under any interleaving; that the optimised or iterative routines agree with their specifications; that errors and logs show only safe text;
  that health checks recover after an outage; that the migrations, the entities and the modelled constraints agree and the migrations can be undone; and
  that every HTTP answer is as documented, carries its correlation identifier, and is a success whenever the request has written and its commit was acknowledged.

  \<^bold>\<open>Parameters.\<close>  Code outside the repository is an argument with its documented behaviour as a hypothesis: SHA-256 and HMAC (output
  lengths; the equality of codes where a theorem needs it), class-validator (\<open>documented_validator\<close>), Joi (\<open>documented_joi\<close>),
  Express and Nest (\<open>documented_framework\<close>), the PostgreSQL driver (\<open>documented_driver\<close>),
  PostgreSQL's conversions (\<open>numeric_column\<close>, \<open>uuid_column\<close>), BullMQ (\<open>bullmq\<close>), the clocks and the source of identifiers (\<open>env\<close>),
  and \<open>Number\<close> of a text.  ioredis is described by the moves of a client's status, pg by its answers.  The hypotheses
  are met by the sample instances that the witnesses use.

  \<^bold>\<open>Bounds.\<close>  No fuel is used: every loop is a total function (the body guard with a measure, the others by
  structure).  \<open>open_events_recover\<close> asks for as many rounds as the number of outbox rows divided by the batch size; the
  queue of publishers ends because each of its steps lowers a measure.  Integers are unbounded where the code uses numbers far below
  \<open>2^53\<close>; code units are 16-bit words and bytes are 8-bit words.

  \<^bold>\<open>Transactions.\<close>  The transactions of the system are atomic steps: the statements that could interleave lock their rows or rest on a
  unique index, which the model checks at the statement; \<open>locked\<close> gives the rows that \<open>SKIP LOCKED\<close> passes over.

  \<^bold>\<open>Not modelled.\<close>  Dependency injection and process start-up (the module classes, \<open>main.ts\<close> and \<open>worker.ts\<close> besides what is named above), the
  generation of the OpenAPI document with its texts, examples and formats, the headers of the throttler, and the transport of a
  request by Express; timers, which are events of the environment; \<open>data-source.ts\<close>, which only names files for the command line.
\<close>

section \<open>Properties\<close>


text \<open>
  C2: No accepted event can get lost: in every reachable state each stored event has exactly one outbox row, whatever was
  dispatched, failed or requeued; that row is never dead and its payload gives the job of the event; there are no
  other outbox rows, and every job in the queue names a stored event.
\<close>

theorem outbox_complete:
  assumes "sound_platform pl" and "(system_step pl)\<^sup>*\<^sup>* initial_state (d, q)"
  shows "map ob_aggregateId (outbox_events d) = map we_id (webhook_events d) \<and> distinct (map we_id (webhook_events d)) \<and>
    (\<forall>r\<in>set (outbox_events d). ob_deadAt r = None \<and>
       (\<exists>c. toJobData r = Inr \<lparr>jd_webhookEventId = ob_aggregateId r, jd_correlationId = c\<rparr>)) \<and>
    (\<forall>j\<in>queued_jobs q. \<exists>w\<in>set (webhook_events d). jd_webhookEventId j = we_id w)"
proof -
  note ok = reachable_ok [OF assms]
  have "distinct (map we_id (webhook_events d))"
    using system_okD(1) [OF ok] by (simp add: tables_unique_def webhook_rows.unique_rows_def)
  moreover have "ob_deadAt r = None" if "r \<in> set (outbox_events d)" for r
    using system_okD(4) [OF ok that] by (simp add: outbox_ok_def)
  ultimately show ?thesis using system_okD(4,7,9) [OF ok] outbox_job by (simp add: image_iff)
qed



text \<open>
  C3: Open events are recovered and settled.  Take any reachable state, whatever jobs BullMQ has lost and whatever
  failed before, and an event that is not final.  Once PostgreSQL and Redis answer again, reconciliations and then dispatches
  of bounded batches, as many as the number of outbox rows needs, bring a job of the event into the queue, and
  processing that job succeeds and leaves the event \<open>PROCESSED\<close> or \<open>FAILED\<close>.  The reconciliations run when every publication is older
  than the threshold, the dispatches when every retry delay has passed.
\<close>

theorem open_events_recover:
  assumes "sound_platform pl" and "(system_step pl)\<^sup>*\<^sup>* initial_state (d, q)"
    and "w \<in> set (webhook_events d)" and "we_status w \<in> {WE_Received, WE_Queued}"
    and "redis_up b" and "holder_ready (bk_holder (dw_broker q))"
    and "\<forall>e\<in>set es. locked e = (\<lambda>_. False) \<and> before \<le> pg_now e - olderThanMs \<and> pg_now e \<le> now"
    and "\<forall>e\<in>set es'. runs_on pl e \<and> locked e = (\<lambda>_. False) \<and> now \<le> pg_now e"
    and "\<forall>r\<in>set (outbox_events d). (\<forall>t. ob_nextAttemptAt r = Some t \<longrightarrow> t \<le> now) \<and> (\<forall>t. ob_publishedAt r = Some t \<longrightarrow> t < before)"
    and "length (outbox_events d) \<le> length es * n" and "length (outbox_events d) \<le> length es' * n'"
    and "fold (dispatch_round b n') es' (fold (reconcile_round olderThanMs n) es d, q) = (d', q')"
  shows "\<exists>j\<in>queued_jobs q'. jd_webhookEventId j = we_id w \<and>
    (\<forall>job e. jb_name job = PROCESS_WEBHOOK_EVENT_JOB_NAME \<and> jb_data job = j \<and> varchar_null 255 (jb_id job) \<and> runs_on pl e \<and>
       clock e 0 \<le> clock e 1 \<and> clock e 0 \<le> clock e 2 \<and> new_uuid e 0 \<notin> wa_id ` set (webhook_processing_attempts d') \<longrightarrow>
       (\<exists>d'' l. process_job job (calm e) d' = ((Inr (), d''), l) \<and>
          (\<exists>w'\<in>set (webhook_events d''). we_id w' = we_id w \<and> we_status w' \<in> {WE_Processed, WE_Failed})))"
proof -
  have "system_ok pl (d', q')" and "\<exists>j\<in>queued_jobs q'. jd_webhookEventId j = we_id w"
    using recovery_job [OF reachable_ok [OF assms(1,2)] assms(3-6), of es olderThanMs before now es' n n'] assms(7-12)
    by (simp_all add: reconcile_fits_def dispatch_fits_def due_by_def)
  then obtain j where ok: "system_ok pl (d', q')" and j: "j \<in> queued_jobs q'" "jd_webhookEventId j = we_id w" by blast
  have "\<exists>d'' l. process_job job (calm e) d' = ((Inr (), d''), l) \<and>
      (\<exists>w'\<in>set (webhook_events d''). we_id w' = we_id w \<and> we_status w' \<in> {WE_Processed, WE_Failed})"
    if name: "jb_name job = PROCESS_WEBHOOK_EVENT_JOB_NAME" and data: "jb_data job = j" and id: "varchar_null 255 (jb_id job)" and e: "runs_on pl e"
      "clock e 0 \<le> clock e 1" "clock e 0 \<le> clock e 2" "new_uuid e 0 \<notin> wa_id ` set (webhook_processing_attempts d')" for job e
  proof -
    from job_settles [OF ok e(1) system_okD(9) [OF ok j(1)] e(2-4) id] obtain res d'' where
      "processWebhookEvent (jd_webhookEventId j) (jb_id job) (calm e) d' = (Inr res, d'')"
      "\<exists>w'\<in>set (webhook_events d''). we_id w' = jd_webhookEventId j \<and> we_status w' \<in> {WE_Processed, WE_Failed}" by blast
    with name data j(2) show ?thesis by (simp add: process_job_def processJob_def)
  qed
  with j show ?thesis by blast
qed

text \<open>
  C40: An environment that passes the validation at start-up gives every component a usable configuration: the readiness check finds no
  missing key, the URLs have the scheme of their service, the secret has at least 16 characters, the timestamp tolerance is
  positive, the dispatcher runs exactly if it is enabled, at the configured positive interval, and the rate limit admits at least one request per
  window of at least one second unless it is switched off.
\<close>

theorem validated_configuration:
  assumes "documented_joi validate" and "validate envValidationSchema environment = Inr cfg"
  shows "checkConfig cfg = None \<and>
    (\<exists>u. getOrThrow cfg ''DATABASE_URL'' = Inr u \<and> database_url_pattern u) \<and> (\<exists>u. getOrThrow cfg ''REDIS_URL'' = Inr u \<and> redis_url_pattern u) \<and>
    (\<exists>s. getOrThrow cfg ''WEBHOOK_SECRET'' = Inr s \<and> 16 \<le> length s) \<and>
    (\<exists>n>0. cfg (js ''WEBHOOK_TIMESTAMP_TOLERANCE_SECONDS'') = U_Number n) \<and>
    cfg (js ''OUTBOX_DISPATCH_ENABLED'') = U_Bool (isEnabled (cfg (js ''OUTBOX_DISPATCH_ENABLED''))) \<and>
    (\<exists>n>0. cfg (js ''OUTBOX_DISPATCH_INTERVAL_MS'') = U_Number n \<and> getIntervalMs js_number (cfg (js ''OUTBOX_DISPATCH_INTERVAL_MS'')) = n) \<and>
    (\<exists>ttl\<ge>1000. \<exists>limit\<ge>1. createThrottlerOptions js_number' cfg =
       \<lparr>to_skipIf = (cfg (js ''RATE_LIMIT_ENABLED'') = U_Bool False), to_ttl = Some ttl, to_limit = Some limit\<rparr>)"
proof -
  obtain ttl limit where n: "cfg (js ''RATE_LIMIT_TTL_SECONDS'') = U_Number ttl" "0 < ttl"
    "cfg (js ''RATE_LIMIT_LIMIT'') = U_Number limit" "0 < limit" using accepted_numbers(5,6) [OF assms] by blast
  obtain b where b: "cfg (js ''RATE_LIMIT_ENABLED'') = U_Bool b" using accepted_flags(2) [OF assms] by blast
  have "createThrottlerOptions js_number' cfg =
      \<lparr>to_skipIf = (cfg (js ''RATE_LIMIT_ENABLED'') = U_Bool False), to_ttl = Some (ttl * 1000), to_limit = Some limit\<rparr>"
    unfolding createThrottlerOptions_def isRateLimitEnabled_def number_or_def n(1,3) b by (simp add: Let_def)
  moreover have "1000 \<le> ttl * 1000" "1 \<le> limit" using n(2,4) by simp_all
  ultimately have throttle: "\<exists>ttl\<ge>1000. \<exists>limit\<ge>1. createThrottlerOptions js_number' cfg =
      \<lparr>to_skipIf = (cfg (js ''RATE_LIMIT_ENABLED'') = U_Bool False), to_ttl = Some ttl, to_limit = Some limit\<rparr>" by blast
  have interval: "\<exists>n>0. cfg (js ''OUTBOX_DISPATCH_INTERVAL_MS'') = U_Number n \<and>
      getIntervalMs js_number (cfg (js ''OUTBOX_DISPATCH_INTERVAL_MS'')) = n"
    using accepted_numbers(3) [OF assms] by (auto simp: getIntervalMs_def)
  have enabled: "cfg (js ''OUTBOX_DISPATCH_ENABLED'') = U_Bool (isEnabled (cfg (js ''OUTBOX_DISPATCH_ENABLED'')))"
    using accepted_flags(1) [OF assms] by (auto simp: isEnabled_def)
  have urls: "\<exists>u. getOrThrow cfg ''DATABASE_URL'' = Inr u \<and> database_url_pattern u" "\<exists>u. getOrThrow cfg ''REDIS_URL'' = Inr u \<and> redis_url_pattern u"
    "\<exists>s. getOrThrow cfg ''WEBHOOK_SECRET'' = Inr s \<and> 16 \<le> length s"
    using accepted_strings(2-4) [OF assms] by (auto simp: getOrThrow_def)
  have "\<exists>n>0. cfg (js ''WEBHOOK_TIMESTAMP_TOLERANCE_SECONDS'') = U_Number n" using accepted_numbers(2) [OF assms] by blast
  with accepted_config [OF assms] urls enabled interval throttle show ?thesis by blast
qed

section \<open>Witnesses\<close>

text \<open>A run: an intent is created, a webhook for it is accepted, dispatched and processed.\<close>

definition sample_platform :: platform where
  "sample_platform = \<lparr>pf_sha256 = sample_sha256, pf_hmac = sample_hmac, pf_validator = sample_validator, pf_config = sample_config,
     pf_uuid = Some, pf_numeric = Some\<rparr>"

definition sample_create_env :: env where
  "sample_create_env = (sample_env 7)\<lparr>new_uuid := (\<lambda>k. js ''5f70a0c2-7bb5-4545-b181-3fcff9b56b86'')\<rparr>"

definition sample_create_body :: "(jsstr \<times> json) list" where
  "sample_create_body = [(js ''amount'', JStr (js ''125.50'')), (js ''asset'', JStr (js ''USDC'')), (js ''destination'', JStr (js ''wallet_test_123''))]"

definition sample_ledger :: db where
  "sample_ledger = created_db (js ''k1'') (payment_digest sample_sha256 sample_dto) sample_dto sample_create_env (js ''125.50'') empty_db"

definition sample_state :: db where
  "sample_state = accepted_db None (js ''n1'') (toPayload sample_webhook_dto) (payload_hash sample_sha256 (toPayload sample_webhook_dto))
     (sample_env 0) (js ''5f70a0c2-7bb5-4545-b181-3fcff9b56b86'') sample_ledger"

lemma sample_platform_sound: "sound_platform sample_platform" "runs_on sample_platform (sample_env n)"
  "runs_on sample_platform sample_create_env"
  by (simp_all add: sound_platform_def runs_on_def sample_platform_def sample_validator_documented sample_columns sample_create_env_def)

lemma sample_create_step: "system_step sample_platform initial_state (sample_ledger, new_world)"
proof -
  have "sample_create_env = calm sample_create_env" by (simp add: sample_create_env_def calm_def sample_env_def)
  then have "db_transaction (create_payment_intent_body (js ''k1'') (payment_digest sample_sha256 sample_dto) sample_dto) sample_create_env empty_db =
      (Inr \<lparr>cr_httpStatus = 201, cr_replayed = False, cr_body = toResponse (intent_row (new_uuid sample_create_env 1) (pg_now sample_create_env) sample_dto)\<rparr>,
       sample_ledger)"
    using create_calm_new [OF sample_dto_facts(1) _ empty_db_find sample_dto_facts(2), of "payment_digest sample_sha256 sample_dto" sample_create_env
        "js ''125.50''"] sample_dto_facts(4)
    by (simp add: sample_ledger_def payment_digest_def hash_fits sample_dto_def sample_create_env_def)
  then have "\<exists>r. create_payment_intent_endpoint sample_sha256 (Some (js ''k1'')) sample_dto sample_create_env empty_db = (r, sample_ledger)"
    by (simp add: endpoint_run [OF sample_dto_facts(1)])
  then obtain r where run: "create_payment_intent_endpoint sample_sha256 (Some (js ''k1'')) sample_dto sample_create_env empty_db = (r, sample_ledger)" by blast
  have "accepts sample_validator CreatePaymentIntentDto_rules sample_create_body" by code_simp
  then show ?thesis
    unfolding initial_state_def using sample_platform_sound(3) run
    by (intro system_step.create [of _ sample_create_env sample_create_body sample_dto]) (simp_all add: sample_platform_def sample_create_body_def sample_dto_def)
qed

lemma sample_accept_step: "system_step sample_platform (sample_ledger, new_world) (sample_state, new_world)"
proof -
  have request: "\<lparr>rq_headers = rq_headers sample_request, rq_rawBody = rq_rawBody sample_request, rq_body = rq_body sample_request\<rparr> = sample_request"
    by simp
  have "find_webhook_by_event (js ''evt_1'') sample_ledger = None" "find_webhook_by_nonce (js ''n1'') sample_ledger = None"
    by (simp_all add: sample_ledger_def created_db_def find_webhook_by_event_def find_webhook_by_nonce_def Let_def)
  then have "\<exists>a. accept_tx sample_sha256 None sample_headers (toPayload sample_webhook_dto) (sample_env 0) sample_ledger = (Inr a, sample_state)"
    using accept_calm [OF sample_webhook_fits, of "sample_env 0" _ sample_ledger sample_sha256 None]
    by (simp add: sample_state_def toPayload_def sample_webhook_dto_def sample_headers_def) (simp add: sample_ledger_def created_db_def Let_def)
  then obtain a where "accept_tx sample_sha256 None sample_headers (toPayload sample_webhook_dto) (sample_env 0) sample_ledger = (Inr a, sample_state)"
    by blast
  from accept_unfold(2) [OF sample_check this] have
    "\<exists>r. accept_webhook_endpoint sample_sha256 sample_hmac sample_validator sample_config None 1700000299000 (rq_headers sample_request)
      (Some (rq_rawBody sample_request)) (rq_body sample_request) (sample_env 0) sample_ledger = (r, sample_state)"
    by (simp add: accept_webhook_endpoint_def request)
  then obtain r where "accept_webhook_endpoint sample_sha256 sample_hmac sample_validator sample_config None 1700000299000 (rq_headers sample_request)
      (Some (rq_rawBody sample_request)) (rq_body sample_request) (sample_env 0) sample_ledger = (r, sample_state)" by blast
  then show ?thesis
    by (intro system_step.accept [OF sample_platform_sound(2) sample_guarded]) (simp add: sample_platform_def)
qed

lemma sample_reachable: "(system_step sample_platform)\<^sup>*\<^sup>* initial_state (sample_state, new_world)"
  using sample_create_step sample_accept_step by (meson rtranclp.simps)

lemma sample_state_rows:
  "payment_intents sample_state = [intent_row (js ''5f70a0c2-7bb5-4545-b181-3fcff9b56b86'') 1700000000000 sample_dto]"
  "webhook_events sample_state =
     [webhook_row (new_uuid (sample_env 0) 0) 1700000000000 1700000000000 (js ''5f70a0c2-7bb5-4545-b181-3fcff9b56b86'') (js ''n1'')
        (toPayload sample_webhook_dto) (payload_hash sample_sha256 (toPayload sample_webhook_dto))]"
  "outbox_events sample_state = [outbox_row (new_uuid (sample_env 0) 1) 1700000000000 None (new_uuid (sample_env 0) 0)]"
  "webhook_processing_attempts sample_state = []"
  by (simp_all add: sample_state_def accepted_db_def sample_ledger_def created_db_def Let_def sample_create_env_def)
    (simp add: intent_row_def sample_dto_def)

lemma sample_event_decision:
  assumes "we_payload w = payload_json (toPayload sample_webhook_dto)"
    and "we_paymentIntentId w = Some (js ''5f70a0c2-7bb5-4545-b181-3fcff9b56b86'')"
  shows "\<exists>p h. decide w (payment_intents sample_state) = Inr (Confirm p h)"
proof -
  let ?w = "webhook_row [] 0 0 (js ''5f70a0c2-7bb5-4545-b181-3fcff9b56b86'') [] (toPayload sample_webhook_dto) []"
  let ?p = "intent_row (js ''5f70a0c2-7bb5-4545-b181-3fcff9b56b86'') 1700000000000 sample_dto"
  have "decide ?w [?p] = Inr (Confirm ?p (normalizeTxHash (js ''0xAB'')))" by code_simp
  moreover have "decide w [?p] = decide ?w [?p]" by (rule decide_cong) (simp_all add: assms webhook_row_def)
  ultimately show ?thesis unfolding sample_state_rows by simp
qed

lemma sample_dispatched:
  obtains d q j w where "(system_step sample_platform)\<^sup>*\<^sup>* initial_state (d, q)" "j \<in> queued_jobs q" "jd_webhookEventId j = we_id w"
    "webhook_events d = [w]" "webhook_processing_attempts d = []" "payment_intents d = payment_intents sample_state"
    "we_payload w = payload_json (toPayload sample_webhook_dto)"
    "we_paymentIntentId w = Some (js ''5f70a0c2-7bb5-4545-b181-3fcff9b56b86'')" "we_status w \<notin> {WE_Processed, WE_Failed}"
proof -
  let ?r = "outbox_row (new_uuid (sample_env 0) 1) 1700000000000 None (new_uuid (sample_env 0) 0)"
  have rows: "eligible_rows 1700000000000 (locked (sample_env 3)) 50 sample_state = [?r]"
    by (simp add: eligible_rows_def sample_state_rows sample_env_locked eligible_def) (simp add: outbox_row_def)
  have "dispatch_good sample_platform sample_bullmq 1700000000000 (new_uuid (sample_env 0) 0) (sample_state, new_world)"
    using reachable_ok [OF sample_platform_sound(1) sample_reachable] sample_bullmq_up sample_world_ready
    by (simp add: dispatch_good_def on_its_way_def due_by_def sample_state_rows) (simp add: outbox_row_def)
  moreover have "dispatch_fits sample_platform 1700000000000 (sample_env 3)"
    using sample_platform_sound(2) by (simp add: dispatch_fits_def sample_env_locked)
  ultimately obtain d q where run: "dispatch_round sample_bullmq 50 (sample_env 3) (sample_state, new_world) = (d, q)"
    and jobs: "bk_jobs (dw_broker q) = bk_jobs (dw_broker new_world) @ map job_of [?r]"
    and eff: "batch_effect (sample_env 3) [?r] (queued_jobs q) sample_state d"
    by (rule dispatch_round_up [where limit = 50]) (simp add: rows)
  obtain res where "dispatchBatch sample_bullmq 50 (sample_env 3) (sample_state, new_world) = (res, d, q)"
    using run by (cases "dispatchBatch sample_bullmq 50 (sample_env 3) (sample_state, new_world)") (simp add: dispatch_round_def)
  then have "system_step sample_platform (sample_state, new_world) (d, q)" by (rule system_step.dispatch [OF sample_platform_sound(2)])
  with sample_reachable have reach: "(system_step sample_platform)\<^sup>*\<^sup>* initial_state (d, q)" by simp
  obtain w where w: "webhook_events d = [w]" "we_payload w = payload_json (toPayload sample_webhook_dto)"
    "we_paymentIntentId w = Some (js ''5f70a0c2-7bb5-4545-b181-3fcff9b56b86'')" "we_status w \<notin> {WE_Processed, WE_Failed}"
    "we_id w = new_uuid (sample_env 0) 0"
    using eff unfolding batch_effect_def sample_state_rows(2)
    by (auto simp: list_all2_Cons1 event_change_def) (auto simp: webhook_row_def)
  have "jd_webhookEventId (job_of ?r) = we_id w"
    unfolding w(5) by (simp add: job_of_def toJobData_def outbox_row_def outbox_payload_def)
  then show thesis
    using that [OF reach _ _ w(1) _ _ w(2-4), of "job_of ?r"] jobs eff by (simp add: batch_effect_def sample_state_rows(4))
qed

lemma sample_confirming_run:
  "\<exists>d q. (system_step sample_platform)\<^sup>*\<^sup>* initial_state (d, q) \<and> (\<exists>w\<in>set (webhook_events d). we_status w = WE_Processed)"
proof (rule sample_dispatched)
  fix d q j w
  assume reach: "(system_step sample_platform)\<^sup>*\<^sup>* initial_state (d, q)" and j: "j \<in> queued_jobs q" "jd_webhookEventId j = we_id w"
    and rows: "webhook_events d = [w]" "webhook_processing_attempts d = []" "payment_intents d = payment_intents sample_state"
    and w: "we_payload w = payload_json (toPayload sample_webhook_dto)"
    "we_paymentIntentId w = Some (js ''5f70a0c2-7bb5-4545-b181-3fcff9b56b86'')" "we_status w \<notin> {WE_Processed, WE_Failed}"
  let ?job = "\<lparr>jb_id = None, jb_name = PROCESS_WEBHOOK_EVENT_JOB_NAME, jb_data = j, jb_attemptsMade = 0, jb_optsAttempts = None\<rparr>"
  note ok = reachable_ok [OF sample_platform_sound(1) reach]
  from sample_event_decision [OF w(1,2)] obtain p h where dec: "decide w (payment_intents d) = Inr (Confirm p h)"
    unfolding rows(3) by blast
  from job_settles [OF ok sample_platform_sound(2) [of 2], of "we_id w" None] rows obtain res d' where
    run: "processWebhookEvent (we_id w) None (calm (sample_env 2)) d = (Inr res, d')" by auto
  have unique: "payment_rows.unique_rows (payment_intents d)" using system_okD(1) [OF ok] by (simp add: tables_unique_def)
  from process_transaction_success [OF run unique] rows w(3) dec have "d' = decided_db None (sample_env 2) w (Confirm p h) d" by auto
  then have settled: "\<exists>w\<in>set (webhook_events d'). we_status w = WE_Processed" using rows(1) by (simp add: decided_db_def settled_event_def)
  obtain r l where "process_job ?job (sample_env 2) d = ((r, d'), l)"
    using run j(2) by (simp add: process_job_def processJob_def)
  then have "system_step sample_platform (d, q) (d', q)"
    by (intro system_step.work [OF sample_platform_sound(2), of ?job]) (use j in simp_all)
  with reach settled show ?thesis by (meson rtranclp.rtrancl_into_rtrancl)
qed


theorem outbox_complete_witness:
  "map ob_aggregateId (outbox_events sample_state) = map we_id (webhook_events sample_state) \<and> webhook_events sample_state \<noteq> []"
  using outbox_complete [OF sample_platform_sound(1) sample_reachable] by (simp add: sample_state_rows)



theorem open_events_recover_witness:
  "\<exists>d' q' j. fold (dispatch_round sample_bullmq 50) [(sample_env 3)\<lparr>pg_now := 1700000700000\<rparr>]
      (fold (reconcile_round 600000 100) [(sample_env 3)\<lparr>pg_now := 1700000700000\<rparr>] sample_state, new_world) = (d', q') \<and>
     j \<in> queued_jobs q' \<and> jd_webhookEventId j = new_uuid (sample_env 0) 0"
proof -
  let ?e = "(sample_env 3)\<lparr>pg_now := 1700000700000\<rparr>"
  obtain d' q' where run: "fold (dispatch_round sample_bullmq 50) [?e] (fold (reconcile_round 600000 100) [?e] sample_state, new_world) = (d', q')"
    by (cases "fold (dispatch_round sample_bullmq 50) [?e] (fold (reconcile_round 600000 100) [?e] sample_state, new_world)")
  have e: "runs_on sample_platform ?e" "locked ?e = (\<lambda>_. False)"
    using sample_platform_sound(2) [of 3] by (simp_all add: runs_on_def sample_env_locked)
  obtain w where w: "w \<in> set (webhook_events sample_state)" "we_status w \<in> {WE_Received, WE_Queued}" "we_id w = new_uuid (sample_env 0) 0"
    by (simp add: sample_state_rows) (simp add: webhook_row_def)
  have "\<exists>j\<in>queued_jobs q'. jd_webhookEventId j = we_id w"
    using open_events_recover [OF sample_platform_sound(1) sample_reachable w(1,2) sample_bullmq_up(1) sample_world_ready, of "[?e]"
        1700000100000 600000 1700000700000 "[?e]" 100 50 d' q'] run e
    by (simp add: sample_state_rows(3)) (auto simp: outbox_row_def)
  with run w(3) show ?thesis by auto
qed

theorem validated_configuration_witness:
  "checkConfig (sample_defaults envValidationSchema sample_environment) = None \<and>
   (\<exists>u. getOrThrow (sample_defaults envValidationSchema sample_environment) ''DATABASE_URL'' = Inr u \<and> database_url_pattern u)"
  using validated_configuration [OF sample_documented sample_accepted] by blast

end
